(* ===== verification/Prelude.thy ===== *)
theory Prelude
  imports Complex_Main
begin

text \<open>
  Shared vocabulary of the VectorC2 status-poller development: the Python number types
  the poller handles, Python's \<open>int()\<close> conversion of a number, and the collection
  \<open>world_ops\<close> into which every component declares the unfolding equations of its
  operations, so that component proofs say \<open>simp add: world_ops\<close>.
\<close>

named_theorems world_ops "unfolding equations of the modelled VectorStatus operations"

text \<open>
  Python floats that the code only stores and compares (device metrics, a frequency
  received from a consumer) are modelled as exact rationals: the code does no
  arithmetic on them, so rounding never matters. Python ints are \<open>int\<close>.
\<close>

type_synonym py_float = rat

text \<open>
  \<open>int(x)\<close> of a Python number truncates towards zero (\<open>int(0.5) = 0\<close>,
  \<open>int(-2.5) = -2\<close>); on an int it is the identity.
\<close>

definition py_int :: "rat \<Rightarrow> int" where
  "py_int q = (if 0 \<le> q then \<lfloor>q\<rfloor> else \<lceil>q\<rceil>)"

text \<open>A Python number is integral when \<open>int()\<close> does not change its value.\<close>

definition is_py_int :: "rat \<Rightarrow> bool" where
  "is_py_int q \<longleftrightarrow> rat_of_int (py_int q) = q"

lemma py_int_of_int [simp]: "py_int (rat_of_int n) = n"
  by (simp add: py_int_def)

lemma py_int_numeral [simp]: "py_int (numeral n) = numeral n"
  using py_int_of_int [of "numeral n"] by simp

lemma py_int_neg_numeral [simp]: "py_int (- numeral n) = - numeral n"
  using py_int_of_int [of "- numeral n"] by simp

lemma py_int_zero [simp]: "py_int 0 = 0"
  by (simp add: py_int_def)

lemma is_py_int_of_int [simp]: "is_py_int (rat_of_int n)"
  by (simp add: is_py_int_def)

lemma is_py_int_numeral [simp]: "is_py_int (numeral n)"
  by (simp add: is_py_int_def)

lemma is_py_int_zero [simp]: "is_py_int 0"
  by (simp add: is_py_int_def)

lemma is_py_intE:
  assumes "is_py_int q"
  obtains n where "q = rat_of_int n" and "py_int q = n"
  using assms by (intro that [of "py_int q"]) (simp_all add: is_py_int_def)

text \<open>On an integral number, \<open>int(x) > 0\<close> and \<open>x > 0\<close> agree.\<close>

lemma is_py_int_pos_iff:
  "is_py_int q \<Longrightarrow> (0 < py_int q) \<longleftrightarrow> (0 < q)"
  by (auto elim: is_py_intE)

lemma py_int_pos_imp: "0 < py_int q \<Longrightarrow> 0 < q"
  by (auto simp: py_int_def split: if_splits)

text \<open>
  Python's \<open>int()\<close> keeps only values between zero and the number: a positive number
  below 1 truncates to 0.
\<close>

lemma py_int_nonpos_pos:
  "0 < q \<Longrightarrow> q < 1 \<Longrightarrow> py_int q = 0"
  by (simp add: py_int_def floor_eq_iff)

text \<open>
  A dictionary built from a list of keys by a key-naming function without collisions
  maps each name to the value of its key.
\<close>

lemma map_of_map_keyed:
  "inj_on g (set xs) \<Longrightarrow> x \<in> set xs \<Longrightarrow>
   map_of (map (\<lambda>y. (g y, h y)) xs) (g x) = Some (h x)"
proof (induction xs)
  case Nil
  then show ?case by simp
next
  case (Cons y ys)
  then show ?case by (cases "x = y") (auto simp: inj_on_def)
qed

end
