(* ===== verification/Device.thy ===== *)
theory Device
  imports Prelude
begin

text \<open>
  The device capability interface the poller consumes (\<open>anki_vector.AsyncRobot\<close>,
  used in \<open>src/vectorc2/command/status.py\<close>): the boolean status flags and numeric
  metrics read synchronously in \<open>_check_state\<close>, the battery and version records the
  two asynchronous sub-queries return, and the session operations \<open>_connect\<close> and
  \<open>_disconnect\<close>. What the device does during one poll cycle is a value
  \<open>cycle_obs\<close>: every outcome the code distinguishes (an accessor raising, a call
  raising, a future finishing late or with an exception, disconnect failing) is a
  field of it.
\<close>

subsection \<open>Status flags and metrics (the \<open>current\<close> and \<open>robot\<close> sections)\<close>

datatype status_flag =
    Are_motors_moving | Are_wheels_moving | Is_animating | Is_being_held
  | Is_button_pressed | Is_carrying_block | Is_charging_flag | Is_cliff_detected
  | Is_docking_to_marker | Is_falling | Is_head_in_pos | Is_in_calm_power_mode
  | Is_on_charger | Is_pathing | Is_picked_up | Is_robot_moving

text \<open>The flags in the order of the dictionary literal of \<open>_check_state\<close>, with its keys.\<close>

definition status_flags :: "status_flag list" where
  "status_flags =
     [Are_motors_moving, Are_wheels_moving, Is_animating, Is_being_held,
      Is_button_pressed, Is_carrying_block, Is_charging_flag, Is_cliff_detected,
      Is_docking_to_marker, Is_falling, Is_head_in_pos, Is_in_calm_power_mode,
      Is_on_charger, Is_pathing, Is_picked_up, Is_robot_moving]"

fun flag_name :: "status_flag \<Rightarrow> string" where
  "flag_name Are_motors_moving = ''are_motors_moving''"
| "flag_name Are_wheels_moving = ''are_wheels_moving''"
| "flag_name Is_animating = ''is_animating''"
| "flag_name Is_being_held = ''is_being_held''"
| "flag_name Is_button_pressed = ''is_button_pressed''"
| "flag_name Is_carrying_block = ''is_carrying_block''"
| "flag_name Is_charging_flag = ''is_charging''"
| "flag_name Is_cliff_detected = ''is_cliff_detected''"
| "flag_name Is_docking_to_marker = ''is_docking_to_marker''"
| "flag_name Is_falling = ''is_falling''"
| "flag_name Is_head_in_pos = ''is_head_in_pos''"
| "flag_name Is_in_calm_power_mode = ''is_in_calm_power_mode''"
| "flag_name Is_on_charger = ''is_on_charger''"
| "flag_name Is_pathing = ''is_pathing''"
| "flag_name Is_picked_up = ''is_picked_up''"
| "flag_name Is_robot_moving = ''is_robot_moving''"

datatype metric_key =
    Head_angle_rad | Lift_height_mm | Pose_angle_rad | Pose_pitch_rad
  | Right_wheel_speed_mmps | X_y_z

datatype metric_val = Scalar py_float | Vec3 py_float py_float py_float

definition metric_keys :: "metric_key list" where
  "metric_keys =
     [Head_angle_rad, Lift_height_mm, Pose_angle_rad, Pose_pitch_rad,
      Right_wheel_speed_mmps, X_y_z]"

fun metric_name :: "metric_key \<Rightarrow> string" where
  "metric_name Head_angle_rad = ''head_angle_rad''"
| "metric_name Lift_height_mm = ''lift_height_mm''"
| "metric_name Pose_angle_rad = ''pose_angle_rad''"
| "metric_name Pose_pitch_rad = ''pose_pitch_rad''"
| "metric_name Right_wheel_speed_mmps = ''right_wheel_speed_mmps''"
| "metric_name X_y_z = ''x_y_z''"

text \<open>What the synchronous accessors return when none of them raises.\<close>

record device_reading =
  flag_value :: "status_flag \<Rightarrow> bool"
  metric_value :: "metric_key \<Rightarrow> metric_val"

subsection \<open>The asynchronous sub-queries\<close>

record battery_state =
  battery_volts :: py_float
  battery_level :: int
  is_charging :: bool
  is_on_charger_platform :: bool
  suggested_charger_sec :: py_float

record version_state =
  os_version :: string
  engine_build_id :: string

text \<open>
  A \<open>concurrent.futures\<close> future, as far as the poller observes it: the time (seconds
  after the wait started) at which it completes, if it does, and its outcome, \<open>None\<close>
  when it completed by raising (then \<open>result()\<close> re-raises).
\<close>

record 'a future =
  done_at :: "py_float option"
  outcome :: "'a option"

subsection \<open>One poll cycle as seen from the device\<close>

text \<open>
  \<open>reading = None\<close>: some accessor of \<open>self._robot.status\<close> or of the metrics raised.
  \<open>battery_call = None\<close>: \<open>get_battery_state()\<close> itself raised; likewise for the
  version.
\<close>

record cycle_obs =
  connect_ok :: bool
  reading :: "device_reading option"
  battery_call :: "battery_state future option"
  version_call :: "version_state future option"
  disconnect_ok :: bool

text \<open>
  The ways a poll cycle's \<open>try\<close> block can raise (all caught by the one
  \<open>except Exception\<close> of \<open>_check_state\<close>), tagged as section 9 of the specification
  asks.
\<close>

datatype poll_error =
    StatusReadFailed
  | BatteryCallFailed
  | VersionCallFailed
  | BatteryResultFailed
  | VersionResultFailed

subsection \<open>Session operations\<close>

text \<open>
  \<open>_connect\<close>: \<open>self._robot.connect()\<close> under a bare \<open>except\<close> that only prints. The
  connection flag becomes true when the call succeeds and is unchanged otherwise; the
  method returns nothing either way.
\<close>

definition connect :: "bool \<Rightarrow> bool \<Rightarrow> bool" where
  "connect ok conn = (if ok then True else conn)"

text \<open>
  \<open>_disconnect\<close>: \<open>True\<close> when \<open>self._robot.disconnect()\<close> returns, \<open>False\<close> when it
  raises; the session is closed only in the first case.
\<close>

definition disconnect :: "bool \<Rightarrow> bool \<Rightarrow> bool \<times> bool" where
  "disconnect ok conn = (if ok then (True, False) else (False, conn))"

lemma disconnect_closes: "ok \<Longrightarrow> \<not> snd (disconnect ok c)"
  by (simp add: disconnect_def)

lemma flag_name_inj: "inj flag_name"
proof (rule injI)
  fix a b assume "flag_name a = flag_name b"
  then show "a = b" by (cases a; cases b) simp_all
qed

lemma status_flags_complete: "set status_flags = UNIV"
proof -
  have "f \<in> set status_flags" for f by (cases f) (simp_all add: status_flags_def)
  then show ?thesis by blast
qed

lemma distinct_status_flags: "distinct status_flags"
  by (simp add: status_flags_def)

lemma metric_name_inj: "inj metric_name"
proof (rule injI)
  fix a b assume "metric_name a = metric_name b"
  then show "a = b" by (cases a; cases b) simp_all
qed

lemma metric_keys_complete: "set metric_keys = UNIV"
proof -
  have "k \<in> set metric_keys" for k by (cases k) (simp_all add: metric_keys_def)
  then show ?thesis by blast
qed

lemma distinct_metric_keys: "distinct metric_keys"
  by (simp add: metric_keys_def)

end
