(* ===== verification/Fetcher.thy ===== *)
theory Fetcher
  imports Device
begin

text \<open>
  The bounded fetcher of \<open>_check_state\<close> (\<open>src/vectorc2/command/status.py\<close>, lines
  92--117): the battery and version sub-queries are started, awaited together by
  \<open>futures.wait(..., timeout=1.5, return_when=ALL_COMPLETED)\<close>, and each result is
  read only when its future is in the returned \<open>done\<close> set. A future outside it is
  left running and its section is omitted; a future that completed by raising makes
  \<open>result()\<close> re-raise, which aborts the cycle.
\<close>

definition wait_timeout :: py_float where
  "wait_timeout = 3 / 2"

text \<open>
  \<open>futures.wait\<close> with \<open>ALL_COMPLETED\<close> returns as soon as every future has completed,
  or when the timeout expires; a future is in \<open>done\<close> when it completed by then.
\<close>

definition completed_by :: "py_float \<Rightarrow> py_float option \<Rightarrow> bool" where
  "completed_by timeout t = (case t of None \<Rightarrow> False | Some d \<Rightarrow> d \<le> timeout)"

definition wait_returns_at :: "py_float \<Rightarrow> py_float option list \<Rightarrow> py_float" where
  "wait_returns_at timeout ts =
     (if list_all (completed_by timeout) ts then fold (\<lambda>t m. max (the t) m) ts 0
      else timeout)"

text \<open>Reading one section: \<open>if future in fdone: x = future.result(); state[...] = ...\<close>\<close>

definition fetch_result :: "py_float \<Rightarrow> 'a future \<Rightarrow> poll_error \<Rightarrow> poll_error + 'a option" where
  "fetch_result timeout f err =
     (if completed_by timeout (done_at f)
      then (case outcome f of None \<Rightarrow> Inl err | Some v \<Rightarrow> Inr (Some v))
      else Inr None)"

text \<open>
  Lines 92--117 in order: start the battery query, start the version query (either
  call may raise), wait, then read the battery section and the version section.
\<close>

definition fetch_substates ::
  "battery_state future option \<Rightarrow> version_state future option
   \<Rightarrow> poll_error + (battery_state option \<times> version_state option)" where
  "fetch_substates bcall vcall =
     (case bcall of
        None \<Rightarrow> Inl BatteryCallFailed
      | Some fb \<Rightarrow>
          (case vcall of
             None \<Rightarrow> Inl VersionCallFailed
           | Some fv \<Rightarrow>
               (case fetch_result wait_timeout fb BatteryResultFailed of
                  Inl e \<Rightarrow> Inl e
                | Inr b \<Rightarrow>
                    (case fetch_result wait_timeout fv VersionResultFailed of
                       Inl e \<Rightarrow> Inl e
                     | Inr v \<Rightarrow> Inr (b, v)))))"

declare fetch_substates_def [world_ops] fetch_result_def [world_ops]

subsection \<open>Properties of one section\<close>

lemma fetch_result_cases:
  "fetch_result timeout f err =
     (if \<not> completed_by timeout (done_at f) then Inr None
      else if outcome f = None then Inl err
      else Inr (outcome f))"
  by (auto simp: fetch_result_def split: option.splits)

subsection \<open>The fetch of both sections\<close>

text \<open>C14: The bounded fetch aborts on a sub-query that completed by raising (battery first) and otherwise keeps each section whose future completed within the timeout.\<close>

theorem fetch_substates_spec:
  "fetch_substates (Some fb) (Some fv) =
     (if completed_by wait_timeout (done_at fb) \<and> outcome fb = None then Inl BatteryResultFailed
      else if completed_by wait_timeout (done_at fv) \<and> outcome fv = None then Inl VersionResultFailed
      else Inr (if completed_by wait_timeout (done_at fb) then outcome fb else None,
                if completed_by wait_timeout (done_at fv) then outcome fv else None))"
  by (simp add: fetch_substates_def fetch_result_cases)

text \<open>C15: If only the battery query completes before the timeout, the fetch returns the battery section and omits the version section without raising.\<close>

theorem fetch_partial:
  "completed_by wait_timeout (done_at fb) \<Longrightarrow> outcome fb = Some b \<Longrightarrow>
   \<not> completed_by wait_timeout (done_at fv) \<Longrightarrow>
   fetch_substates (Some fb) (Some fv) = Inr (Some b, None)"
  by (simp add: fetch_substates_def fetch_result_cases)

lemma fold_max_le:
  "m \<le> b \<Longrightarrow> \<forall>t \<in> set ts. the t \<le> b \<Longrightarrow> fold (\<lambda>t m. max (the t) m) ts m \<le> b"
proof (induction ts arbitrary: m)
  case Nil
  then show ?case by simp
next
  case (Cons t ts)
  then have "max (the t) m \<le> b" by (simp add: max_def)
  with Cons.IH Cons.prems(2) show ?case by simp
qed


end
