(* ===== verification/Snapshot.thy ===== *)
theory Snapshot
  imports Fetcher
begin

text \<open>
  The status snapshot: the dictionary \<open>state\<close> that \<open>_check_state\<close>
  (\<open>src/vectorc2/command/status.py\<close>, lines 60--117) builds and stores in
  \<open>self._state\<close>. Its keys \<open>current\<close>, \<open>robot\<close>, \<open>_meta\<close>, \<open>battery\<close> and
  \<open>version\<close> are the fields below; \<open>battery\<close> and \<open>version\<close> are absent from the
  dictionary when their future did not complete in time, which is \<open>None\<close> here.
  \<open>poll_snapshot\<close> is the part of the \<open>try\<close> block that computes the snapshot; it
  returns the error of the first statement that raises instead.
\<close>

record snapshot =
  st_current :: "(string \<times> bool) list"
  st_robot :: "(string \<times> metric_val) list"
  st_meta_frequency :: py_float
  st_battery :: "battery_state option"
  st_version :: "version_state option"

definition current_section :: "device_reading \<Rightarrow> (string \<times> bool) list" where
  "current_section r = map (\<lambda>f. (flag_name f, flag_value r f)) status_flags"

definition robot_section :: "device_reading \<Rightarrow> (string \<times> metric_val) list" where
  "robot_section r = map (\<lambda>k. (metric_name k, metric_value r k)) metric_keys"

definition poll_snapshot :: "int \<Rightarrow> cycle_obs \<Rightarrow> poll_error + snapshot" where
  "poll_snapshot freq obs =
     (case reading obs of
        None \<Rightarrow> Inl StatusReadFailed
      | Some r \<Rightarrow>
          (case fetch_substates (battery_call obs) (version_call obs) of
             Inl e \<Rightarrow> Inl e
           | Inr (b, v) \<Rightarrow>
               Inr \<lparr>st_current = current_section r, st_robot = robot_section r,
                    st_meta_frequency = rat_of_int freq, st_battery = b, st_version = v\<rparr>))"

declare poll_snapshot_def [world_ops]

text \<open>
  The shape of the dictionary: a snapshot's \<open>current\<close> section has exactly the sixteen
  flag keys and its \<open>robot\<close> section exactly the six metric keys, in the order of the
  literal of \<open>_check_state\<close>.
\<close>

definition snapshot_wf :: "snapshot \<Rightarrow> bool" where
  "snapshot_wf s \<longleftrightarrow>
     map fst (st_current s) = map flag_name status_flags
     \<and> map fst (st_robot s) = map metric_name metric_keys"

subsection \<open>The sections of a snapshot\<close>

text \<open>
  The \<open>current\<close> section maps each of the sixteen flag names to the flag the device
  reported, with no key repeated; likewise the \<open>robot\<close> section for the six metrics.
\<close>

lemma current_section_lookup:
  "map_of (current_section r) (flag_name f) = Some (flag_value r f)"
proof -
  have "map_of (map (\<lambda>f. (flag_name f, flag_value r f)) status_flags) (flag_name f)
        = Some (flag_value r f)"
    using flag_name_inj status_flags_complete
    by (intro map_of_map_keyed) (auto simp: inj_on_subset)
  then show ?thesis by (simp add: current_section_def)
qed

lemma current_section_keys:
  "map fst (current_section r) = map flag_name status_flags \<and> distinct (map fst (current_section r))"
  using flag_name_inj distinct_status_flags
  by (simp add: current_section_def comp_def distinct_map inj_on_subset [OF flag_name_inj])

lemma robot_section_lookup:
  "map_of (robot_section r) (metric_name k) = Some (metric_value r k)"
proof -
  have "map_of (map (\<lambda>k. (metric_name k, metric_value r k)) metric_keys) (metric_name k)
        = Some (metric_value r k)"
    using metric_name_inj metric_keys_complete
    by (intro map_of_map_keyed) (auto simp: inj_on_subset)
  then show ?thesis by (simp add: robot_section_def)
qed

lemma poll_snapshot_wf: "poll_snapshot f obs = Inr s \<Longrightarrow> snapshot_wf s"
  using current_section_keys
  by (auto simp: poll_snapshot_def snapshot_wf_def robot_section_def comp_def
           split: option.splits sum.splits prod.splits)

lemma poll_snapshot_meta: "poll_snapshot f obs = Inr s \<Longrightarrow> st_meta_frequency s = of_int f"
  by (auto simp: poll_snapshot_def split: option.splits sum.splits prod.splits)

lemma snapshot_wf_meta [simp]: "snapshot_wf (s\<lparr>st_meta_frequency := f\<rparr>) = snapshot_wf s"
  by (simp add: snapshot_wf_def)

subsection \<open>The outcome of the \<open>try\<close> block\<close>

text \<open>C12: The snapshot construction raises exactly when an accessor raises, a sub-query call raises, or a sub-query completed in time by raising; a late sub-query is no error.\<close>

theorem poll_snapshot_error:
  "isl (poll_snapshot f obs) \<longleftrightarrow>
     reading obs = None \<or> battery_call obs = None \<or> version_call obs = None
     \<or> (\<exists>fb. battery_call obs = Some fb \<and> completed_by wait_timeout (done_at fb) \<and> outcome fb = None)
     \<or> (\<exists>fv. version_call obs = Some fv \<and> completed_by wait_timeout (done_at fv) \<and> outcome fv = None)"
  by (auto simp: poll_snapshot_def fetch_substates_def fetch_result_cases
           split: option.splits sum.splits prod.splits if_splits)

text \<open>C13: A snapshot built by a cycle holds the device's flags and metrics under the source's keys, the frequency in effect, and each sub-query's result exactly when it completed in time.\<close>

theorem poll_snapshot_sections:
  "poll_snapshot f obs = Inr s \<Longrightarrow> reading obs = Some r \<Longrightarrow>
   battery_call obs = Some fb \<Longrightarrow> version_call obs = Some fv \<Longrightarrow>
   st_current s = current_section r \<and> st_robot s = robot_section r
   \<and> st_meta_frequency s = rat_of_int f
   \<and> st_battery s = (if completed_by wait_timeout (done_at fb) then outcome fb else None)
   \<and> st_version s = (if completed_by wait_timeout (done_at fv) then outcome fv else None)"
  by (auto simp: poll_snapshot_def fetch_substates_def fetch_result_cases
           split: option.splits sum.splits prod.splits if_splits)

end
