(* ===== verification/Timers.thy ===== *)
theory Timers
  imports Prelude
begin

text \<open>
  The part of Python's \<open>threading.Timer\<close> the scheduler relies on: a started timer
  is armed until it fires (then it runs its callback once) or is cancelled; cancelling
  a timer that already fired or was cancelled does nothing. All timers ever started
  are kept in a list, and a timer handle is its index there.
  This is library behaviour, not code of the repository; the scheduler methods that
  use it are in \<open>Scheduler\<close>.
\<close>

datatype timer_status = Armed | Cancelled | Fired

record py_timer =
  interval :: int
  tm_status :: timer_status

text \<open>\<open>threading.Timer(interval, fn).start()\<close>: a new armed timer, returned as its handle.\<close>

definition timer_start :: "int \<Rightarrow> py_timer list \<Rightarrow> nat \<times> py_timer list" where
  "timer_start d ts = (length ts, ts @ [\<lparr>interval = d, tm_status = Armed\<rparr>])"

definition set_status_if_armed :: "timer_status \<Rightarrow> nat \<Rightarrow> py_timer list \<Rightarrow> py_timer list" where
  "set_status_if_armed st t ts =
     (if t < length ts \<and> tm_status (ts ! t) = Armed
      then ts[t := (ts ! t)\<lparr>tm_status := st\<rparr>] else ts)"

text \<open>\<open>timer.cancel()\<close>, and the timer thread reaching its interval and firing.\<close>

definition timer_cancel :: "nat \<Rightarrow> py_timer list \<Rightarrow> py_timer list" where
  "timer_cancel = set_status_if_armed Cancelled"

definition timer_fire :: "nat \<Rightarrow> py_timer list \<Rightarrow> py_timer list" where
  "timer_fire = set_status_if_armed Fired"

text \<open>The handles of the timers that are armed, i.e.\ will still fire.\<close>

definition armed :: "py_timer list \<Rightarrow> nat set" where
  "armed ts = set (filter (\<lambda>t. tm_status (ts ! t) = Armed) [0..<length ts])"

text \<open>The equations that evaluate the timer operations on a concrete list.\<close>

lemmas timer_eval = timer_start_def timer_cancel_def timer_fire_def set_status_if_armed_def armed_def

lemma armed_iff: "t \<in> armed ts \<longleftrightarrow> t < length ts \<and> tm_status (ts ! t) = Armed"
  by (auto simp: armed_def)

lemma armed_Nil [simp]: "armed [] = {}"
  by (simp add: armed_def)

lemma armed_set_status:
  "st \<noteq> Armed \<Longrightarrow> armed (set_status_if_armed st t ts) = armed ts - {t}"
  by (auto simp: armed_iff set_status_if_armed_def nth_list_update split: if_splits)

lemma armed_timer_cancel [simp]: "armed (timer_cancel t ts) = armed ts - {t}"
  by (simp add: timer_cancel_def armed_set_status)

lemma armed_timer_fire [simp]: "armed (timer_fire t ts) = armed ts - {t}"
  by (simp add: timer_fire_def armed_set_status)

lemma armed_timer_start [simp]:
  "armed (snd (timer_start d ts)) = insert (length ts) (armed ts)"
  by (auto simp: armed_iff timer_start_def nth_append split: if_splits)

lemma timer_start_handle [simp]: "fst (timer_start d ts) = length ts"
  by (simp add: timer_start_def)

lemma length_set_status [simp]: "length (set_status_if_armed st t ts) = length ts"
  by (simp add: set_status_if_armed_def)

lemma length_timer_cancel [simp]: "length (timer_cancel t ts) = length ts"
  and length_timer_fire [simp]: "length (timer_fire t ts) = length ts"
  by (simp_all add: timer_cancel_def timer_fire_def)

lemma length_timer_start [simp]: "length (snd (timer_start d ts)) = Suc (length ts)"
  by (simp add: timer_start_def)

lemma interval_set_status:
  "i < length ts \<Longrightarrow> interval (set_status_if_armed st t ts ! i) = interval (ts ! i)"
  by (simp add: set_status_if_armed_def nth_list_update)

lemma interval_timer_cancel [simp]:
  "i < length ts \<Longrightarrow> interval (timer_cancel t ts ! i) = interval (ts ! i)"
  by (simp add: timer_cancel_def interval_set_status)

lemma interval_timer_start_new [simp]:
  "interval (snd (timer_start d ts) ! length ts) = d"
  by (simp add: timer_start_def)

end
