(* ===== verification/Config_Store.thy ===== *)
theory Config_Store
  imports Prelude
begin

text \<open>
  The configuration store (\<open>command.models.Configuration\<close>, outside \<open>src/\<close>): a
  persistent key/value table of which the poller uses two operations,
  \<open>get_value(key, default)\<close> and \<open>set_value(key, value)\<close>, both under the key
  \<open>status_checking_frequency\<close>. It is modelled from the specification (section 6)
  as a finite map from keys to the integers the poller stores there.
\<close>

type_synonym config_store = "string \<rightharpoonup> int"

definition freq_key :: string where
  "freq_key = ''status_checking_frequency''"

definition config_get_value :: "config_store \<Rightarrow> string \<Rightarrow> int \<Rightarrow> int" where
  "config_get_value m k d = (case m k of None \<Rightarrow> d | Some v \<Rightarrow> v)"

definition config_set_value :: "config_store \<Rightarrow> string \<Rightarrow> int \<Rightarrow> config_store" where
  "config_set_value m k v = m(k \<mapsto> v)"

lemma config_get_set_same [simp]: "config_get_value (config_set_value m k v) k d = v"
  by (simp add: config_get_value_def config_set_value_def)

lemma config_get_set_other [simp]:
  "k' \<noteq> k \<Longrightarrow> config_get_value (config_set_value m k v) k' d = config_get_value m k' d"
  by (simp add: config_get_value_def config_set_value_def)

lemma config_get_empty [simp]: "config_get_value Map.empty k d = d"
  by (simp add: config_get_value_def)

end
