(* ===== verification/World.thy ===== *)
theory World
  imports Snapshot Timers Config_Store
begin

text \<open>
  The state the status poller acts on: the attributes of the \<open>VectorStatus\<close>
  singleton (\<open>src/vectorc2/command/status.py\<close>, lines 36--42), whether the
  \<open>Singleton\<close> metaclass has registered it (lines 23--28), and the parts of the
  outside world its methods change: the timers started through \<open>threading.Timer\<close>,
  the configuration store, and the device session. Each method of the class is a
  function \<open>world \<Rightarrow> world\<close> in \<open>Scheduler\<close> and \<open>Poller\<close>.
\<close>

record world =
  created :: bool                 \<comment> \<open>\<open>VectorStatus in Singleton._instances\<close>\<close>
  robot :: bool                   \<comment> \<open>\<open>self._robot\<close> is truthy\<close>
  state :: "snapshot option"      \<comment> \<open>\<open>self._state\<close>\<close>
  countdown :: int                \<comment> \<open>\<open>self._countdown\<close>\<close>
  frequency :: int                \<comment> \<open>\<open>self._frequency\<close>\<close>
  timer :: "nat option"           \<comment> \<open>\<open>self._timer\<close>, a handle into \<open>timers\<close>\<close>
  timers :: "py_timer list"       \<comment> \<open>every \<open>threading.Timer\<close> started so far\<close>
  config :: config_store          \<comment> \<open>\<open>Configuration\<close>\<close>
  dev_connected :: bool           \<comment> \<open>the device session is open\<close>

text \<open>
  The process before the first \<open>VectorStatus()\<close> call: no instance, no timer, the
  persisted configuration, no device session. The attributes of the instance are not
  yet meaningful; they are given fixed values.
\<close>

definition world0 :: "config_store \<Rightarrow> world" where
  "world0 cfg =
     \<lparr>created = False, robot = False, state = None, countdown = 0, frequency = 0,
      timer = None, timers = [], config = cfg, dev_connected = False\<rparr>"

abbreviation armed_timers :: "world \<Rightarrow> nat set" where
  "armed_timers w \<equiv> armed (timers w)"

text \<open>
  The abstract polling mode of section 4.1 of the specification: \<open>Active\<close> when the
  frequency is positive, \<open>Idle\<close> otherwise.
\<close>

definition active :: "world \<Rightarrow> bool" where
  "active w \<longleftrightarrow> 0 < frequency w"

text \<open>The state \<open>_stop_refresh\<close> leaves behind: the halted form of section 4.1.\<close>

definition halted :: "world \<Rightarrow> bool" where
  "halted w \<longleftrightarrow> frequency w = 0 \<and> countdown w = -1 \<and> timer w = None"

lemma world0_simps [simp]:
  "created (world0 cfg) = False" "timers (world0 cfg) = []" "timer (world0 cfg) = None"
  "config (world0 cfg) = cfg" "state (world0 cfg) = None" "countdown (world0 cfg) = 0"
  "frequency (world0 cfg) = 0" "robot (world0 cfg) = False"
  "dev_connected (world0 cfg) = False"
  by (simp_all add: world0_def)

end
