(* ===== verification/Scheduler.thy ===== *)
theory Scheduler
  imports World
begin

text \<open>
  The scheduler: the two methods of \<open>VectorStatus\<close> that arm and disarm the one-shot
  refresh timer (\<open>src/vectorc2/command/status.py\<close>, \<open>_stop_refresh\<close> lines 132--141
  and \<open>_update_refresh\<close> lines 143--151). \<open>_update_refresh\<close> cancels the timer it
  holds and starts a new one with the current frequency as interval; \<open>_stop_refresh\<close>
  sets the countdown to the sentinel \<open>-1\<close>, the frequency to 0, and cancels and
  forgets the timer. The lemmas show that both keep "every armed timer is the one the
  instance holds", so that at most one timer is ever armed.
\<close>

definition stop_refresh :: "world \<Rightarrow> world" where
  "stop_refresh w =
     (let w1 = w\<lparr>countdown := -1, frequency := 0\<rparr>
      in case timer w1 of
           None \<Rightarrow> w1
         | Some t \<Rightarrow> w1\<lparr>timers := timer_cancel t (timers w1), timer := None\<rparr>)"

definition update_refresh :: "world \<Rightarrow> world" where
  "update_refresh w =
     (let ts = (case timer w of None \<Rightarrow> timers w | Some t \<Rightarrow> timer_cancel t (timers w));
          started = timer_start (frequency w) ts
      in w\<lparr>timers := snd started, timer := Some (fst started)\<rparr>)"

declare stop_refresh_def [world_ops] update_refresh_def [world_ops]

text \<open>The scheduler's invariant: every armed timer is the instance's timer.\<close>

definition armed_is_held :: "world \<Rightarrow> bool" where
  "armed_is_held w \<longleftrightarrow> (\<forall>t \<in> armed_timers w. timer w = Some t)"

lemma armed_is_held_upd [simp]:
  "armed_is_held (w\<lparr>countdown := c\<rparr>) = armed_is_held w"
  "armed_is_held (w\<lparr>frequency := f\<rparr>) = armed_is_held w"
  "armed_is_held (w\<lparr>state := s\<rparr>) = armed_is_held w"
  "armed_is_held (w\<lparr>config := m\<rparr>) = armed_is_held w"
  "armed_is_held (w\<lparr>dev_connected := b\<rparr>) = armed_is_held w"
  "armed_is_held (w\<lparr>robot := b\<rparr>) = armed_is_held w"
  "armed_is_held (w\<lparr>created := b\<rparr>) = armed_is_held w"
  by (simp_all add: armed_is_held_def)

subsection \<open>\<open>_stop_refresh\<close>\<close>

lemma stop_refresh_fields [simp]:
  "frequency (stop_refresh w) = 0" "countdown (stop_refresh w) = -1"
  "timer (stop_refresh w) = None" "state (stop_refresh w) = state w"
  "robot (stop_refresh w) = robot w" "created (stop_refresh w) = created w"
  "config (stop_refresh w) = config w" "dev_connected (stop_refresh w) = dev_connected w"
  "length (timers (stop_refresh w)) = length (timers w)"
  by (simp_all add: stop_refresh_def Let_def split: option.splits)

lemma halted_stop_refresh [simp]: "halted (stop_refresh w)"
  by (simp add: halted_def)

lemma armed_stop_refresh:
  "armed_timers (stop_refresh w) =
     (case timer w of None \<Rightarrow> armed_timers w | Some t \<Rightarrow> armed_timers w - {t})"
  by (simp add: stop_refresh_def Let_def split: option.splits)

text \<open>Disarming leaves no timer armed, when the instance held every armed timer.\<close>

lemma stop_refresh_disarms:
  "armed_is_held w \<Longrightarrow> armed_timers (stop_refresh w) = {}"
  by (auto simp: armed_is_held_def armed_stop_refresh split: option.splits)

subsection \<open>\<open>_update_refresh\<close>\<close>

lemma update_refresh_fields [simp]:
  "frequency (update_refresh w) = frequency w" "countdown (update_refresh w) = countdown w"
  "timer (update_refresh w) = Some (length (timers w))"
  "state (update_refresh w) = state w" "robot (update_refresh w) = robot w"
  "created (update_refresh w) = created w" "config (update_refresh w) = config w"
  "dev_connected (update_refresh w) = dev_connected w"
  "length (timers (update_refresh w)) = Suc (length (timers w))"
  by (simp_all add: update_refresh_def Let_def split: option.splits)

lemma armed_update_refresh:
  "armed_timers (update_refresh w) =
     insert (length (timers w))
       (case timer w of None \<Rightarrow> armed_timers w | Some t \<Rightarrow> armed_timers w - {t})"
  by (simp add: update_refresh_def Let_def split: option.splits)

lemma interval_update_refresh [simp]:
  "interval (timers (update_refresh w) ! length (timers w)) = frequency w"
  by (simp add: update_refresh_def Let_def timer_start_def nth_append split: option.splits)

text \<open>Arming leaves exactly one timer armed, the new one, when the instance held every armed timer.\<close>

lemma update_refresh_arms_one:
  "armed_is_held w \<Longrightarrow> armed_timers (update_refresh w) = {length (timers w)}"
  by (auto simp: armed_is_held_def armed_update_refresh split: option.splits)

lemma armed_is_held_update_refresh [simp]:
  "armed_is_held w \<Longrightarrow> armed_is_held (update_refresh w)"
  by (simp add: armed_is_held_def update_refresh_arms_one)

lemma armed_is_held_stop_refresh [simp]:
  "armed_is_held w \<Longrightarrow> armed_is_held (stop_refresh w)"
  by (simp add: armed_is_held_def stop_refresh_disarms)

subsection \<open>The scheduler's contract\<close>

text \<open>_update_refresh leaves exactly one armed timer, the new one the instance now holds, with the current frequency as interval.\<close>

theorem update_refresh_rearms:
  "armed_is_held w \<Longrightarrow>
   timer (update_refresh w) = Some (length (timers w))
   \<and> armed_timers (update_refresh w) = {length (timers w)}
   \<and> interval (timers (update_refresh w) ! length (timers w)) = frequency w"
  by (simp add: update_refresh_arms_one)

text \<open>_stop_refresh leaves the poller halted with no armed timer and the cached snapshot kept.\<close>

theorem stop_refresh_disarms_all:
  "armed_is_held w \<Longrightarrow>
   halted (stop_refresh w) \<and> armed_timers (stop_refresh w) = {} \<and> state (stop_refresh w) = state w"
  by (simp add: stop_refresh_disarms)

end
