(* ===== verification/Poller.thy ===== *)
theory Poller
  imports Scheduler
begin

text \<open>
  The status poller: the remaining methods of \<open>VectorStatus\<close>
  (\<open>src/vectorc2/command/status.py\<close>) and the \<open>Singleton\<close> metaclass that creates
  it. \<open>check_state\<close> is \<open>_check_state\<close> (lines 47--130), split as the code is: the
  guard before the \<open>try\<close> (lines 51--56), the \<open>try\<close>/\<open>except\<close> that builds and stores
  the snapshot (lines 58--120), and the \<open>finally\<close> block (lines 122--130). \<open>read\<close> is
  the public \<open>read\<close> (lines 171--193); it returns the snapshot handed to
  \<open>consumer.send_status\<close> with the new world. The device's behaviour during the poll
  cycle a call may run is its argument \<open>obs\<close>.
\<close>

subsection \<open>\<open>_check_state\<close>\<close>

text \<open>
  The \<open>finally\<close> block: re-arm when called by the timer, count the cycle down while
  polling is on, close the session, and halt when closing failed, the frequency is
  not positive or the countdown is used up.
\<close>

definition check_finally :: "bool \<Rightarrow> cycle_obs \<Rightarrow> world \<Rightarrow> world" where
  "check_finally from_init obs w =
     (let w1 = (if from_init then update_refresh w else w);
          w2 = (if 0 < countdown w1 \<and> 0 < frequency w1
                then w1\<lparr>countdown := countdown w1 - 1\<rparr> else w1);
          d = disconnect (disconnect_ok obs) (dev_connected w2);
          w3 = w2\<lparr>dev_connected := snd d\<rparr>
      in if \<not> fst d \<or> frequency w3 \<le> 0 \<or> countdown w3 \<le> 0 then stop_refresh w3 else w3)"

text \<open>
  The \<open>try\<close> block and its handler: connect (failure is swallowed), build the
  snapshot with the frequency in effect, and store it; any exception halts polling and
  leaves the stored snapshot as it was. Then the \<open>finally\<close> block runs.
\<close>

definition poll_cycle :: "bool \<Rightarrow> cycle_obs \<Rightarrow> world \<Rightarrow> world" where
  "poll_cycle from_init obs w =
     (let w1 = w\<lparr>dev_connected := connect (connect_ok obs) (dev_connected w)\<rparr>;
          w2 = (case poll_snapshot (frequency w1) obs of
                  Inl _ \<Rightarrow> stop_refresh w1
                | Inr s \<Rightarrow> w1\<lparr>state := Some s\<rparr>)
      in check_finally from_init obs w2)"

text \<open>
  The guard: without a robot or with a non-positive frequency polling is halted first;
  without a robot the method returns before the \<open>try\<close> (so no \<open>finally\<close> runs).
\<close>

definition check_state :: "bool \<Rightarrow> cycle_obs \<Rightarrow> world \<Rightarrow> world" where
  "check_state from_init obs w =
     (if \<not> robot w \<or> frequency w \<le> 0
      then (let w1 = stop_refresh w in
            if \<not> robot w then w1 else poll_cycle from_init obs w1)
      else poll_cycle from_init obs w)"

subsection \<open>\<open>read\<close>\<close>

text \<open>
  Lines 179--187: a supplied frequency whose \<open>int()\<close> differs from the stored one is
  stored, persisted, and then arms the timer if the supplied value is positive or halts
  polling otherwise. Note that the test is on the supplied value, not on its
  \<open>int()\<close>.
\<close>

definition read_frequency :: "py_float option \<Rightarrow> world \<Rightarrow> world" where
  "read_frequency req w =
     (case req of
        None \<Rightarrow> w
      | Some f \<Rightarrow>
          (if py_int f \<noteq> frequency w then
             (let w1 = w\<lparr>frequency := py_int f\<rparr>;
                  w2 = w1\<lparr>config := config_set_value (config w1) freq_key (frequency w1)\<rparr>
              in if 0 < f then update_refresh w2 else stop_refresh w2)
           else w))"

text \<open>
  Lines 176--193: poll once if no snapshot is cached, apply the frequency, overwrite the
  cached snapshot's \<open>_meta.frequency\<close> with the supplied value (in place: the
  dictionary stored in \<open>self._state\<close> is the one mutated), reset the countdown and
  deliver the cached snapshot.
\<close>

definition read :: "cycle_obs \<Rightarrow> py_float option \<Rightarrow> world \<Rightarrow> snapshot option \<times> world" where
  "read obs req w =
     (let w1 = (if state w = None then check_state False obs w else w);
          w2 = read_frequency req w1;
          w3 = (case (state w2, req) of
                  (Some s, Some f) \<Rightarrow> w2\<lparr>state := Some (s\<lparr>st_meta_frequency := f\<rparr>)\<rparr>
                | _ \<Rightarrow> w2);
          w4 = w3\<lparr>countdown := 10\<rparr>
      in (state w4, w4))"

subsection \<open>Construction\<close>

text \<open>
  \<open>__init__\<close> (lines 36--45): a robot handle, no snapshot, countdown 10, the persisted
  frequency (default 0), no timer; arm the timer if that frequency is positive.
  The random number \<open>self._rnd\<close> is never read and is not modelled.
\<close>

definition vstatus_init :: "world \<Rightarrow> world" where
  "vstatus_init w =
     (let w1 = w\<lparr>robot := True, state := None, countdown := 10,
                 frequency := config_get_value (config w) freq_key 0, timer := None\<rparr>
      in if 0 < frequency w1 then update_refresh w1 else w1)"

text \<open>
  \<open>Singleton.__call__\<close> (lines 23--28): the first call constructs the instance and
  registers it; later calls return the registered one and construct nothing.
\<close>

definition singleton_call :: "(world \<Rightarrow> world) \<Rightarrow> world \<Rightarrow> world" where
  "singleton_call ctor w = (if created w then w else (ctor w)\<lparr>created := True\<rparr>)"

declare check_finally_def [world_ops] poll_cycle_def [world_ops] check_state_def [world_ops]
  read_frequency_def [world_ops] read_def [world_ops] vstatus_init_def [world_ops]
  singleton_call_def [world_ops]

text \<open>
  The \<open>try\<close> block completes when no accessor or sub-query raises; whether it does
  does not depend on the frequency recorded in the snapshot.
\<close>

definition poll_ok :: "cycle_obs \<Rightarrow> bool" where
  "poll_ok obs \<longleftrightarrow> \<not> isl (poll_snapshot 0 obs)"

text \<open>The condition under which the \<open>finally\<close> block keeps polling on.\<close>

definition cycle_continues :: "cycle_obs \<Rightarrow> world \<Rightarrow> bool" where
  "cycle_continues obs w \<longleftrightarrow> disconnect_ok obs \<and> 0 < frequency w \<and> 1 < countdown w"

subsection \<open>Behaviour of one poll cycle\<close>

lemma isl_poll_snapshot: "isl (poll_snapshot f obs) \<longleftrightarrow> \<not> poll_ok obs"
  by (simp add: poll_ok_def poll_snapshot_def split: option.splits sum.splits prod.splits)

lemma poll_snapshot_Inl: "poll_snapshot f obs = Inl e \<Longrightarrow> \<not> poll_ok obs"
  using isl_poll_snapshot [of f obs] by simp

lemma poll_snapshot_Inr: "poll_snapshot f obs = Inr s \<Longrightarrow> poll_ok obs"
  using isl_poll_snapshot [of f obs] by simp

lemma poll_ok_Inr: "poll_ok obs \<Longrightarrow> \<exists>s. poll_snapshot f obs = Inr s"
  using isl_poll_snapshot [of f obs] by (cases "poll_snapshot f obs") simp_all

lemma check_finally_halts:
  "\<not> cycle_continues obs w \<Longrightarrow> halted (check_finally fi obs w)"
  by (auto simp: cycle_continues_def check_finally_def Let_def disconnect_def)

lemma check_finally_continues:
  "cycle_continues obs w \<Longrightarrow>
   check_finally fi obs w =
     (if fi then update_refresh w else w)\<lparr>countdown := countdown w - 1, dev_connected := False\<rparr>"
  by (simp add: cycle_continues_def check_finally_def Let_def disconnect_def)

lemma check_finally_state [simp]: "state (check_finally fi obs w) = state w"
  and check_finally_robot [simp]: "robot (check_finally fi obs w) = robot w"
  and check_finally_created [simp]: "created (check_finally fi obs w) = created w"
  and check_finally_config [simp]: "config (check_finally fi obs w) = config w"
  by (simp_all add: check_finally_def Let_def)

lemma check_finally_disconnects:
  "disconnect_ok obs \<Longrightarrow> \<not> dev_connected (check_finally fi obs w)"
  by (simp add: check_finally_def Let_def disconnect_def)

lemma armed_is_held_check_finally:
  "armed_is_held w \<Longrightarrow> armed_is_held (check_finally fi obs w)"
  by (simp add: check_finally_def Let_def)

lemma poll_cycle_state:
  "state (poll_cycle fi obs w) =
     (case poll_snapshot (frequency w) obs of Inl _ \<Rightarrow> state w | Inr s \<Rightarrow> Some s)"
  by (simp add: poll_cycle_def Let_def split: sum.splits)

lemma poll_cycle_halts:
  "\<not> (poll_ok obs \<and> cycle_continues obs w) \<Longrightarrow> halted (poll_cycle fi obs w)"
  by (auto simp: poll_cycle_def Let_def check_finally_halts cycle_continues_def
           dest: poll_snapshot_Inr split: sum.splits)

lemma poll_cycle_continues:
  assumes "poll_ok obs" and "cycle_continues obs w"
  shows "frequency (poll_cycle fi obs w) = frequency w"
    and "countdown (poll_cycle fi obs w) = countdown w - 1"
    and "timer (poll_cycle fi obs w) = (if fi then Some (length (timers w)) else timer w)"
    and "\<not> dev_connected (poll_cycle fi obs w)"
proof -
  from assms(1) obtain s where s: "poll_snapshot (frequency w) obs = Inr s"
    by (cases "poll_snapshot (frequency w) obs") (auto dest: poll_snapshot_Inl)
  let ?w2 = "w\<lparr>dev_connected := connect (connect_ok obs) (dev_connected w), state := Some s\<rparr>"
  have eq: "poll_cycle fi obs w = check_finally fi obs ?w2"
    by (simp add: poll_cycle_def Let_def s)
  have "cycle_continues obs ?w2" using assms(2) by (simp add: cycle_continues_def)
  then show "frequency (poll_cycle fi obs w) = frequency w"
    and "countdown (poll_cycle fi obs w) = countdown w - 1"
    and "timer (poll_cycle fi obs w) = (if fi then Some (length (timers w)) else timer w)"
    and "\<not> dev_connected (poll_cycle fi obs w)"
    by (simp_all add: eq check_finally_continues)
qed

lemma poll_cycle_continues_eq:
  assumes "poll_snapshot (frequency w) obs = Inr s" and "cycle_continues obs w"
  shows "poll_cycle fi obs w =
           (let w2 = w\<lparr>dev_connected := connect (connect_ok obs) (dev_connected w), state := Some s\<rparr>
            in (if fi then update_refresh w2 else w2)\<lparr>countdown := countdown w - 1, dev_connected := False\<rparr>)"
proof -
  have "cycle_continues obs (w\<lparr>dev_connected := connect (connect_ok obs) (dev_connected w), state := Some s\<rparr>)"
    using assms(2) by (simp add: cycle_continues_def)
  with assms(1) show ?thesis
    by (simp add: poll_cycle_def Let_def check_finally_continues)
qed

lemma poll_cycle_robot [simp]: "robot (poll_cycle fi obs w) = robot w"
  and poll_cycle_created [simp]: "created (poll_cycle fi obs w) = created w"
  by (simp_all add: poll_cycle_def Let_def split: sum.splits)

lemma armed_is_held_poll_cycle:
  "armed_is_held w \<Longrightarrow> armed_is_held (poll_cycle fi obs w)"
  by (simp add: poll_cycle_def Let_def armed_is_held_check_finally split: sum.splits)

lemma check_state_robot:
  "robot w \<Longrightarrow> check_state fi obs w = poll_cycle fi obs (if frequency w \<le> 0 then stop_refresh w else w)"
  by (simp add: check_state_def Let_def)

lemma check_state_continues:
  assumes "robot w" and "poll_ok obs" and "cycle_continues obs w"
  shows "frequency (check_state fi obs w) = frequency w"
    and "countdown (check_state fi obs w) = countdown w - 1"
    and "timer (check_state fi obs w) = (if fi then Some (length (timers w)) else timer w)"
    and "\<not> dev_connected (check_state fi obs w)"
proof -
  have "0 < frequency w" using assms(3) by (simp add: cycle_continues_def)
  with assms show "frequency (check_state fi obs w) = frequency w"
    and "countdown (check_state fi obs w) = countdown w - 1"
    and "timer (check_state fi obs w) = (if fi then Some (length (timers w)) else timer w)"
    and "\<not> dev_connected (check_state fi obs w)"
    by (simp_all add: check_state_robot poll_cycle_continues)
qed

lemma check_state_halts:
  assumes "robot w" and "\<not> (poll_ok obs \<and> cycle_continues obs w)"
  shows "halted (check_state fi obs w)"
proof -
  have "\<not> cycle_continues obs (stop_refresh w)" by (simp add: cycle_continues_def)
  with assms show ?thesis by (auto simp: check_state_robot intro: poll_cycle_halts)
qed

lemma check_state_frequency:
  assumes "robot w"
  shows "frequency (check_state fi obs w) = frequency w \<or> frequency (check_state fi obs w) = 0"
proof (cases "poll_ok obs \<and> cycle_continues obs w")
  case True
  with check_state_continues(1) [OF assms] show ?thesis by simp
next
  case False
  with check_state_halts [OF assms] show ?thesis by (simp add: halted_def)
qed

text \<open>C9: One poll cycle either keeps polling (when the cycle succeeds, disconnect succeeds, the frequency is positive and the countdown is above 1), with the frequency kept, the countdown decremented, the timer re-armed exactly when called by the timer and the session closed, or ends halted.\<close>

theorem check_state_outcome:
  assumes "robot w"
  shows "if poll_ok obs \<and> cycle_continues obs w
         then frequency (check_state fi obs w) = frequency w
            \<and> countdown (check_state fi obs w) = countdown w - 1
            \<and> timer (check_state fi obs w) = (if fi then Some (length (timers w)) else timer w)
            \<and> \<not> dev_connected (check_state fi obs w)
         else halted (check_state fi obs w)"
  using check_state_continues [OF assms] check_state_halts [OF assms] by simp

text \<open>C10: A failed disconnect halts polling, whatever the frequency and whatever else happened in the cycle.\<close>

theorem check_state_disconnect_fail:
  "\<not> disconnect_ok obs \<Longrightarrow> halted (check_state fi obs w)"
  by (cases "robot w")
     (auto simp: check_state_def Let_def cycle_continues_def intro: poll_cycle_halts)

text \<open>C11: A poll cycle replaces the cached snapshot only by a complete new one built from the device's answers, or leaves it unchanged when the cycle raises.\<close>

theorem check_state_snapshot:
  "state (check_state fi obs w) =
     (if robot w then (case poll_snapshot (max 0 (frequency w)) obs of
                         Inl _ \<Rightarrow> state w | Inr s \<Rightarrow> Some s)
      else state w)"
  by (auto simp: check_state_def Let_def poll_cycle_state max_def split: sum.splits)

lemma armed_is_held_check_state:
  "armed_is_held w \<Longrightarrow> armed_is_held (check_state fi obs w)"
  by (simp add: check_state_def Let_def armed_is_held_poll_cycle)

subsection \<open>Behaviour of \<open>read\<close>\<close>

lemma read_frequency_freq:
  "0 \<le> f \<Longrightarrow> frequency (read_frequency (Some f) w) = py_int f"
  by (auto simp: read_frequency_def Let_def py_int_pos_imp dest: py_int_nonpos_pos)

text \<open>C17: Every read resets the countdown to 10 and delivers the snapshot cached after the read.\<close>

theorem read_resets_countdown:
  "countdown (snd (read obs req w)) = 10 \<and> fst (read obs req w) = state (snd (read obs req w))"
  by (simp add: read_def Let_def split: option.splits prod.splits)

text \<open>A read with a non-negative frequency leaves the stored frequency at int() of it.\<close>

theorem read_sets_frequency:
  "0 \<le> f \<Longrightarrow> frequency (snd (read obs (Some f) w)) = py_int f"
  by (simp add: read_def Let_def read_frequency_freq split: option.splits)

text \<open>C19: A read with a frequency delivers a snapshot whose _meta.frequency is the supplied value, and the cached snapshot itself carries that value afterwards.\<close>

theorem read_meta_override:
  "fst (read obs (Some f) w) = Some s \<Longrightarrow>
   st_meta_frequency s = f \<and> state (snd (read obs (Some f) w)) = Some s"
  by (auto simp: read_def Let_def split: option.splits)

text \<open>A read with a cached snapshot and an unchanged frequency neither starts nor cancels a timer.\<close>

theorem read_keeps_timers:
  "state w = Some s \<Longrightarrow> py_int f = frequency w \<Longrightarrow>
   timers (snd (read obs (Some f) w)) = timers w \<and> timer (snd (read obs (Some f) w)) = timer w"
  by (simp add: read_def read_frequency_def Let_def)

subsection \<open>Construction and persistence\<close>

text \<open>The Singleton metaclass constructs the instance on the first call only; later calls return it unchanged.\<close>

theorem singleton_constructs_once:
  "created (singleton_call ctor w)
   \<and> singleton_call ctor (singleton_call ctor w) = singleton_call ctor w
   \<and> (created w \<longrightarrow> singleton_call ctor w = w)"
  by (simp add: singleton_call_def)

text \<open>Construction starts with countdown 10, no snapshot and the persisted frequency, and arms one timer with that interval exactly when it is positive.\<close>

theorem init_behaviour:
  assumes "timers w = []"
  shows "frequency (vstatus_init w) = config_get_value (config w) freq_key 0
         \<and> countdown (vstatus_init w) = 10 \<and> state (vstatus_init w) = None
         \<and> armed_timers (vstatus_init w) =
              (if 0 < config_get_value (config w) freq_key 0 then {0} else {})
         \<and> (0 < config_get_value (config w) freq_key 0 \<longrightarrow>
              interval (timers (vstatus_init w) ! 0) = config_get_value (config w) freq_key 0)"
  using assms
  by (simp add: vstatus_init_def Let_def armed_def update_refresh_def timer_start_def)

text \<open>
  A frequency that \<open>read\<close> changes is what a restarted process starts with: the value
  written by \<open>set_value\<close> is read back by \<open>__init__\<close>.
\<close>

text \<open>C25: A frequency changed by read is persisted, and a restarted process constructs the poller with it.\<close>

theorem persisted_frequency_roundtrip:
  "state w = Some s \<Longrightarrow> py_int f \<noteq> frequency w \<Longrightarrow>
   frequency (vstatus_init (world0 (config (snd (read obs (Some f) w))))) = py_int f"
  by (simp add: read_def read_frequency_def vstatus_init_def Let_def)

end
