(* ===== verification/System.thy ===== *)
theory System
  imports Poller
begin

text \<open>
  The poller as a concurrent system (section 5 of the specification). Two kinds of
  context call into the one instance: a consumer calling \<open>VectorStatus().read(...)\<close>
  (the websocket consumer, outside \<open>src/\<close>), and a timer thread whose armed timer
  fires and runs \<open>_check_state()\<close> (the callback given to \<open>threading.Timer\<close> on
  line 150 of \<open>src/vectorc2/command/status.py\<close>). Each call runs to completion
  before the next starts: the model is the serialised execution the specification
  requires, and a step is one \<open>event\<close>. The device's behaviour during the call is
  part of the event.

  \<open>reach P\<close> is the set of worlds reachable from a fresh process (any persisted
  configuration) by events satisfying \<open>P\<close>. \<open>poller_inv\<close> holds in every
  reachable world (countdown bounds, at most one armed timer, the armed timer is the
  one the instance holds). \<open>freq_inv\<close>, the correspondence between the frequency and
  the armed timer, holds when every requested frequency is integral
  (\<open>int_event\<close>); a fractional request below 1 breaks it (see the root theory).
  \<open>fire_budget\<close> bounds the number of timer-driven poll cycles that can run without
  a \<open>read\<close>.
\<close>

datatype event = Read cycle_obs "py_float option" | Fire nat cycle_obs

fun sys_step :: "event \<Rightarrow> world \<Rightarrow> world option" where
  "sys_step (Read obs req) w = Some (snd (read obs req (singleton_call vstatus_init w)))"
| "sys_step (Fire t obs) w =
     (if t \<in> armed_timers w
      then Some (check_state True obs (w\<lparr>timers := timer_fire t (timers w)\<rparr>))
      else None)"

definition int_request :: "py_float option \<Rightarrow> bool" where
  "int_request req = (case req of None \<Rightarrow> True | Some f \<Rightarrow> is_py_int f)"

fun int_event :: "event \<Rightarrow> bool" where
  "int_event (Read obs req) = int_request req"
| "int_event (Fire t obs) = True"

fun is_fire :: "event \<Rightarrow> bool" where
  "is_fire (Fire t obs) = True"
| "is_fire (Read obs req) = False"

inductive reach :: "(event \<Rightarrow> bool) \<Rightarrow> world \<Rightarrow> bool" for P :: "event \<Rightarrow> bool" where
  start: "reach P (world0 cfg)"
| step: "reach P w \<Longrightarrow> P e \<Longrightarrow> sys_step e w = Some w' \<Longrightarrow> reach P w'"

fun run :: "event list \<Rightarrow> world \<Rightarrow> world option" where
  "run [] w = Some w"
| "run (e # es) w = (case sys_step e w of None \<Rightarrow> None | Some w' \<Rightarrow> run es w')"

definition poller_inv :: "world \<Rightarrow> bool" where
  "poller_inv w \<longleftrightarrow>
     (\<not> created w \<longrightarrow> timers w = [] \<and> timer w = None \<and> countdown w = 0)
     \<and> (created w \<longrightarrow> robot w)
     \<and> -1 \<le> countdown w \<and> countdown w \<le> 10
     \<and> armed_is_held w
     \<and> (armed_timers w \<noteq> {} \<longrightarrow> 1 \<le> countdown w)"

definition freq_inv :: "world \<Rightarrow> bool" where
  "freq_inv w \<longleftrightarrow>
     (frequency w \<le> 0 \<longrightarrow> armed_timers w = {})
     \<and> (0 < frequency w \<longrightarrow>
          (\<exists>t. timer w = Some t \<and> t \<in> armed_timers w \<and> interval (timers w ! t) = frequency w))"

definition fire_budget :: "world \<Rightarrow> nat" where
  "fire_budget w = (if armed_timers w = {} then 0 else nat (countdown w))"

definition fire_held :: "cycle_obs \<Rightarrow> world \<Rightarrow> world option" where
  "fire_held obs w = (case timer w of None \<Rightarrow> None | Some t \<Rightarrow> sys_step (Fire t obs) w)"

fun fire_rounds :: "nat \<Rightarrow> cycle_obs \<Rightarrow> world \<Rightarrow> world option" where
  "fire_rounds 0 obs w = Some w"
| "fire_rounds (Suc n) obs w = (case fire_held obs w of None \<Rightarrow> None | Some w' \<Rightarrow> fire_rounds n obs w')"

text \<open>The cached snapshot of a world, if any, has the dictionary's shape.\<close>

definition state_wf :: "world \<Rightarrow> bool" where
  "state_wf w \<longleftrightarrow> (case state w of None \<Rightarrow> True | Some s \<Rightarrow> snapshot_wf s)"

text \<open>
  The timer thread left to itself: as long as the instance holds an armed timer, it
  fires and runs \<open>_check_state()\<close>, whose \<open>finally\<close> block arms the next one
  (\<open>_update_refresh\<close>, lines 143--151); the \<open>k\<close>-th cycle sees the device behaviour
  \<open>obs k\<close>. Nothing in the code bounds this chain of timers but the countdown, so it
  is a loop that may not end: \<open>None\<close> is a run that never stops.
\<close>

partial_function (option) timer_thread :: "(nat \<Rightarrow> cycle_obs) \<Rightarrow> nat \<Rightarrow> world \<Rightarrow> world option" where
  "timer_thread obs k w =
     (case fire_held (obs k) w of
        None \<Rightarrow> Some w
      | Some w' \<Rightarrow> timer_thread obs (Suc k) w')"

subsection \<open>Invariants of single operations\<close>

lemma int_request_simps [simp]:
  "int_request None" "int_request (Some f) = is_py_int f"
  by (simp_all add: int_request_def)

lemma timers_update_refresh_upd [simp]:
  "timers (update_refresh (w\<lparr>state := s\<rparr>)) = timers (update_refresh w)"
  "timers (update_refresh (w\<lparr>dev_connected := c\<rparr>)) = timers (update_refresh w)"
  "timers (update_refresh (w\<lparr>countdown := n\<rparr>)) = timers (update_refresh w)"
  by (simp_all add: update_refresh_def Let_def split: option.splits)

lemma halted_disarmed: "armed_is_held w \<Longrightarrow> halted w \<Longrightarrow> armed_timers w = {}"
  by (auto simp: armed_is_held_def halted_def)

lemma check_state_continue_timers:
  assumes "robot w" "armed_is_held w" "poll_ok obs" "cycle_continues obs w"
  shows "timers (check_state fi obs w) = (if fi then timers (update_refresh w) else timers w)"
proof -
  obtain s where s: "poll_snapshot (frequency w) obs = Inr s"
    using assms(3) by (cases "poll_snapshot (frequency w) obs") (auto dest: poll_snapshot_Inl)
  have "0 < frequency w" using assms(4) by (simp add: cycle_continues_def)
  with assms s show ?thesis
    by (simp add: check_state_robot poll_cycle_continues_eq Let_def)
qed

lemma check_state_created [simp]: "created (check_state fi obs w) = created w"
  and check_state_robot_same [simp]: "robot (check_state fi obs w) = robot w"
  by (simp_all add: check_state_def Let_def)

lemma check_state_cases:
  assumes "robot w"
  obtains (continues) "poll_ok obs" "cycle_continues obs w"
     "frequency (check_state fi obs w) = frequency w"
     "countdown (check_state fi obs w) = countdown w - 1"
     "timer (check_state fi obs w) = (if fi then Some (length (timers w)) else timer w)"
  | (halts) "halted (check_state fi obs w)"
  using check_state_continues [OF assms] check_state_halts [OF assms] by blast

lemma poller_inv_check_state:
  assumes inv: "poller_inv w" and c: "created w"
  shows "poller_inv (check_state fi obs w)"
proof -
  from inv c have r: "robot w" and ah: "armed_is_held w" and b: "countdown w \<le> 10"
    by (simp_all add: poller_inv_def)
  have ah': "armed_is_held (check_state fi obs w)"
    using ah by (rule armed_is_held_check_state)
  from r show ?thesis
  proof (cases rule: check_state_cases [where obs = obs and fi = fi])
    case continues
    then show ?thesis using ah' b c r by (simp add: poller_inv_def cycle_continues_def)
  next
    case halts
    with ah' have "armed_timers (check_state fi obs w) = {}" by (rule halted_disarmed)
    with halts ah' c r show ?thesis by (simp add: poller_inv_def halted_def)
  qed
qed

lemma read_frequency_fields [simp]:
  "created (read_frequency req w) = created w" "robot (read_frequency req w) = robot w"
  "state (read_frequency req w) = state w"
  by (simp_all add: read_frequency_def Let_def split: option.splits)

lemma armed_is_held_read_frequency:
  "armed_is_held w \<Longrightarrow> armed_is_held (read_frequency req w)"
  by (simp add: read_frequency_def Let_def split: option.splits)

lemma read_fields:
  "created (snd (read obs req w)) = created w" "robot (snd (read obs req w)) = robot w"
  by (simp_all add: read_def Let_def split: option.splits)

lemma read_countdown: "countdown (snd (read obs req w)) = 10"
  by (simp add: read_def Let_def split: option.splits)

lemma armed_is_held_read:
  "armed_is_held w \<Longrightarrow> armed_is_held (snd (read obs req w))"
  by (simp add: read_def Let_def armed_is_held_check_state armed_is_held_read_frequency
           split: option.splits)

lemma poller_inv_read:
  assumes "poller_inv w" and "created w"
  shows "poller_inv (snd (read obs req w))"
proof -
  have "armed_is_held w" and "robot w" using assms by (simp_all add: poller_inv_def)
  from \<open>armed_is_held w\<close> have "armed_is_held (snd (read obs req w))"
    by (rule armed_is_held_read)
  with assms \<open>robot w\<close> show ?thesis by (simp add: poller_inv_def read_fields read_countdown)
qed

lemma singleton_created [simp]: "created (singleton_call ctor w)"
  by (simp add: singleton_call_def)

lemma poller_inv_singleton:
  assumes "poller_inv w"
  shows "poller_inv (singleton_call vstatus_init w)"
proof (cases "created w")
  case True
  with assms show ?thesis by (simp add: singleton_call_def)
next
  case False
  with assms have "timers w = []" and "timer w = None" by (simp_all add: poller_inv_def)
  with False show ?thesis
    by (auto simp: singleton_call_def vstatus_init_def Let_def poller_inv_def armed_is_held_def
                   armed_update_refresh)
qed

lemma fired_poller_inv:
  assumes "poller_inv w" and "t \<in> armed_timers w"
  shows "poller_inv (w\<lparr>timers := timer_fire t (timers w)\<rparr>)" and "created w"
proof -
  show c: "created w" using assms by (auto simp: poller_inv_def)
  have h: "\<And>x. x \<in> armed_timers w \<Longrightarrow> timer w = Some x"
    using assms by (simp add: poller_inv_def armed_is_held_def)
  have sub: "armed_timers w \<subseteq> {t}"
  proof
    fix x assume "x \<in> armed_timers w"
    then have "timer w = Some x" by (rule h)
    with h [OF assms(2)] show "x \<in> {t}" by simp
  qed
  with assms c show "poller_inv (w\<lparr>timers := timer_fire t (timers w)\<rparr>)"
    by (auto simp: poller_inv_def armed_is_held_def)
qed

theorem sys_step_poller_inv:
  "poller_inv w \<Longrightarrow> sys_step e w = Some w' \<Longrightarrow> poller_inv w'"
proof (cases e)
  case (Read obs req)
  moreover assume "poller_inv w" and "sys_step e w = Some w'"
  ultimately show ?thesis
    using poller_inv_read [OF poller_inv_singleton singleton_created] by auto
next
  case (Fire t obs)
  moreover assume "poller_inv w" and "sys_step e w = Some w'"
  ultimately show ?thesis
    using fired_poller_inv poller_inv_check_state by (auto split: if_splits)
qed

lemma reach_poller_inv: "reach P w \<Longrightarrow> poller_inv w"
proof (induction rule: reach.induct)
  case (start cfg)
  show ?case by (simp add: poller_inv_def armed_is_held_def)
next
  case (step w e w')
  then show ?case by (blast intro: sys_step_poller_inv)
qed

lemma freq_inv_cong:
  "frequency w' = frequency w \<Longrightarrow> timer w' = timer w \<Longrightarrow> timers w' = timers w \<Longrightarrow>
   freq_inv w' = freq_inv w"
  by (simp add: freq_inv_def)

lemma freq_inv_upd [simp]:
  "freq_inv (w\<lparr>countdown := c\<rparr>) = freq_inv w" "freq_inv (w\<lparr>state := s\<rparr>) = freq_inv w"
  "freq_inv (w\<lparr>config := m\<rparr>) = freq_inv w" "freq_inv (w\<lparr>created := b\<rparr>) = freq_inv w"
  by (simp_all add: freq_inv_def)

lemma freq_inv_halted: "armed_is_held w \<Longrightarrow> halted w \<Longrightarrow> freq_inv w"
  by (simp add: freq_inv_def halted_disarmed) (simp add: halted_def)

lemma freq_inv_update_refresh:
  "armed_is_held w \<Longrightarrow> 0 < frequency w \<Longrightarrow> freq_inv (update_refresh w)"
  by (simp add: freq_inv_def update_refresh_arms_one)

lemma freq_inv_timer_cycle:
  assumes ah: "armed_is_held w" and r: "robot w" and f: "0 < frequency w"
  shows "freq_inv (check_state True obs w)"
  using r
proof (cases rule: check_state_cases [where obs = obs and fi = True])
  case continues
  have "timers (check_state True obs w) = timers (update_refresh w)"
    using check_state_continue_timers [OF r ah continues(1,2)] by simp
  then have "freq_inv (check_state True obs w) = freq_inv (update_refresh w)"
    using continues by (intro freq_inv_cong) simp_all
  with freq_inv_update_refresh [OF ah f] show ?thesis by simp
next
  case halts
  with armed_is_held_check_state [OF ah] show ?thesis by (rule freq_inv_halted)
qed

lemma freq_inv_read_cycle:
  assumes ah: "armed_is_held w" and r: "robot w" and fi: "freq_inv w"
  shows "freq_inv (check_state False obs w)"
  using r
proof (cases rule: check_state_cases [where obs = obs and fi = False])
  case continues
  have "timers (check_state False obs w) = timers w"
    using check_state_continue_timers [OF r ah continues(1,2)] by simp
  with continues fi show ?thesis by (subst freq_inv_cong) simp_all
next
  case halts
  with armed_is_held_check_state [OF ah] show ?thesis by (rule freq_inv_halted)
qed

lemma freq_inv_read_frequency:
  assumes ah: "armed_is_held w" and fi: "freq_inv w" and i: "int_request req"
  shows "freq_inv (read_frequency req w)"
proof (cases req)
  case None
  with fi show ?thesis by (simp add: read_frequency_def)
next
  case (Some f)
  with i obtain n where f: "f = rat_of_int n" by (auto simp: int_request_def elim: is_py_intE)
  let ?w2 = "w\<lparr>frequency := n, config := config_set_value (config w) freq_key n\<rparr>"
  have ah2: "armed_is_held ?w2" using ah by simp
  show ?thesis
  proof (cases "n = frequency w")
    case True
    with fi Some f show ?thesis by (simp add: read_frequency_def)
  next
    case False
    have u: "0 < n \<Longrightarrow> freq_inv (update_refresh ?w2)"
      using freq_inv_update_refresh [OF ah2] by simp
    have s: "freq_inv (stop_refresh ?w2)"
      using freq_inv_halted [OF armed_is_held_stop_refresh [OF ah2]] by simp
    from False Some f show ?thesis by (simp add: read_frequency_def Let_def u s)
  qed
qed

lemma freq_inv_read:
  assumes ah: "armed_is_held w" and r: "robot w" and fi: "freq_inv w" and i: "int_request req"
  shows "freq_inv (snd (read obs req w))"
proof -
  let ?w1 = "if state w = None then check_state False obs w else w"
  have "freq_inv ?w1" using freq_inv_read_cycle [OF ah r fi] fi by simp
  moreover have "armed_is_held ?w1" using armed_is_held_check_state [OF ah] ah by simp
  ultimately have fi2: "freq_inv (read_frequency req ?w1)"
    using i by (intro freq_inv_read_frequency)
  define w2 where "w2 = read_frequency req ?w1"
  have "snd (read obs req w) =
          (case (state w2, req) of
             (Some s, Some f) \<Rightarrow> w2\<lparr>state := Some (s\<lparr>st_meta_frequency := f\<rparr>)\<rparr>
           | _ \<Rightarrow> w2)\<lparr>countdown := 10\<rparr>"
    by (simp only: read_def Let_def w2_def snd_conv)
  with fi2 show ?thesis by (simp add: w2_def [symmetric] split: option.splits)
qed

lemma freq_inv_singleton:
  assumes "poller_inv w" and "freq_inv w"
  shows "freq_inv (singleton_call vstatus_init w)"
proof (cases "created w")
  case True
  with assms show ?thesis by (simp add: singleton_call_def)
next
  case False
  with assms have "timers w = []" and "timer w = None" by (simp_all add: poller_inv_def)
  with False show ?thesis
    by (simp add: singleton_call_def vstatus_init_def Let_def freq_inv_def armed_iff
                  timer_start_def update_refresh_def)
qed

theorem sys_step_freq_inv:
  assumes inv: "poller_inv w" and fi: "freq_inv w" and i: "int_event e"
    and st: "sys_step e w = Some w'"
  shows "freq_inv w'"
proof (cases e)
  case (Read obs req)
  let ?ws = "singleton_call vstatus_init w"
  have "poller_inv ?ws" using inv by (rule poller_inv_singleton)
  then have "armed_is_held ?ws" and "robot ?ws" by (simp_all add: poller_inv_def)
  moreover have "freq_inv ?ws" using inv fi by (rule freq_inv_singleton)
  moreover have "int_request req" using i Read by simp
  ultimately show ?thesis using st Read by (auto dest: freq_inv_read)
next
  case (Fire t obs)
  with st have t: "t \<in> armed_timers w"
    and w': "w' = check_state True obs (w\<lparr>timers := timer_fire t (timers w)\<rparr>)"
    by (auto split: if_splits)
  have pf: "poller_inv (w\<lparr>timers := timer_fire t (timers w)\<rparr>)" and c: "created w"
    using fired_poller_inv [OF inv t] by simp_all
  have "0 < frequency w" using fi t by (auto simp: freq_inv_def)
  moreover have "robot w" using inv c by (simp add: poller_inv_def)
  ultimately show ?thesis
    using pf w' freq_inv_timer_cycle by (simp add: poller_inv_def)
qed

theorem reach_freq_inv: "reach int_event w \<Longrightarrow> freq_inv w"
proof (induction rule: reach.induct)
  case (start cfg)
  show ?case by (simp add: freq_inv_def)
next
  case (step w e w')
  then show ?case using reach_poller_inv by (blast intro: sys_step_freq_inv)
qed

lemma fire_budget_le: "poller_inv w \<Longrightarrow> fire_budget w \<le> 10"
  by (auto simp: fire_budget_def poller_inv_def nat_le_iff)

lemma fire_step:
  assumes inv: "poller_inv w" and st: "sys_step (Fire t obs) w = Some w'"
  obtains "t \<in> armed_timers w" "created w" "robot w" "1 \<le> countdown w"
    "w' = check_state True obs (w\<lparr>timers := timer_fire t (timers w)\<rparr>)"
    "poller_inv (w\<lparr>timers := timer_fire t (timers w)\<rparr>)"
proof -
  from st have t: "t \<in> armed_timers w"
    and w': "w' = check_state True obs (w\<lparr>timers := timer_fire t (timers w)\<rparr>)"
    by (auto split: if_splits)
  from fired_poller_inv [OF inv t] have "poller_inv (w\<lparr>timers := timer_fire t (timers w)\<rparr>)"
    and c: "created w" by simp_all
  moreover from inv c t have "robot w" and "1 \<le> countdown w"
    by (auto simp: poller_inv_def)
  ultimately show ?thesis using that t w' c by simp
qed

lemma fire_budget_decreases:
  assumes inv: "poller_inv w" and st: "sys_step (Fire t obs) w = Some w'"
  shows "fire_budget w' < fire_budget w"
  using inv st
proof (cases rule: fire_step)
  case 1
  let ?wf = "w\<lparr>timers := timer_fire t (timers w)\<rparr>"
  have b: "fire_budget w = nat (countdown w)" using 1 by (auto simp: fire_budget_def)
  have "robot ?wf" using 1 by simp
  then show ?thesis
  proof (cases rule: check_state_cases [where obs = obs and fi = True])
    case continues
    then show ?thesis using 1 b by (simp add: fire_budget_def cycle_continues_def)
  next
    case halts
    have "poller_inv w'" using sys_step_poller_inv [OF inv st] .
    then have "armed_timers w' = {}" using halts 1 halted_disarmed by (simp add: poller_inv_def)
    then show ?thesis using 1 b by (simp add: fire_budget_def)
  qed
qed

lemma fires_bounded:
  "poller_inv w \<Longrightarrow> list_all is_fire es \<Longrightarrow> run es w = Some w' \<Longrightarrow> length es \<le> fire_budget w"
proof (induction es arbitrary: w)
  case Nil
  then show ?case by simp
next
  case (Cons e es)
  from Cons.prems(2) obtain t obs where e: "e = Fire t obs" by (cases e) auto
  from Cons.prems(3) e obtain w1 where st: "sys_step (Fire t obs) w = Some w1"
    and r: "run es w1 = Some w'" by (auto split: option.splits)
  have "length es \<le> fire_budget w1"
    using Cons.IH [OF sys_step_poller_inv [OF Cons.prems(1) st]] Cons.prems(2) r by simp
  with fire_budget_decreases [OF Cons.prems(1) st] show ?case by simp
qed

lemma fire_held_active:
  assumes inv: "poller_inv w" and fi: "freq_inv w" and f: "0 < frequency w"
    and ok: "poll_ok obs" "disconnect_ok obs"
  shows "\<exists>w'. fire_held obs w = Some w' \<and> poller_inv w' \<and> freq_inv w' \<and>
           (if 1 < countdown w then frequency w' = frequency w \<and> countdown w' = countdown w - 1
            else halted w')"
proof -
  from fi f obtain t where ht: "timer w = Some t" "t \<in> armed_timers w"
    by (auto simp: freq_inv_def)
  let ?wf = "w\<lparr>timers := timer_fire t (timers w)\<rparr>"
  have st: "sys_step (Fire t obs) w = Some (check_state True obs ?wf)" using ht by simp
  have pi: "poller_inv (check_state True obs ?wf)" using sys_step_poller_inv [OF inv st] .
  have fi': "freq_inv (check_state True obs ?wf)" using sys_step_freq_inv [OF inv fi _ st] by simp
  from inv st have "robot ?wf" by (cases rule: fire_step) simp_all
  moreover have "cycle_continues obs ?wf \<longleftrightarrow> 1 < countdown w"
    using ok f by (simp add: cycle_continues_def)
  ultimately have "if 1 < countdown w
      then frequency (check_state True obs ?wf) = frequency w
         \<and> countdown (check_state True obs ?wf) = countdown w - 1
      else halted (check_state True obs ?wf)"
    using check_state_continues [of ?wf obs True] check_state_halts [of ?wf obs True] ok
    by (simp split: if_splits)
  then show ?thesis using ht st pi fi' by (simp add: fire_held_def)
qed

lemma auto_stop_rounds:
  "poller_inv w \<Longrightarrow> freq_inv w \<Longrightarrow> 0 < frequency w \<Longrightarrow> countdown w = int (Suc n) \<Longrightarrow>
   poll_ok obs \<Longrightarrow> disconnect_ok obs \<Longrightarrow>
   (\<forall>k \<le> n. \<exists>w'. fire_rounds k obs w = Some w' \<and> 0 < frequency w')
   \<and> (\<exists>w'. fire_rounds (Suc n) obs w = Some w' \<and> halted w')"
proof (induction n arbitrary: w)
  case 0
  then obtain w' where "fire_held obs w = Some w'" "halted w'"
    using fire_held_active [of w obs] by auto
  with "0.prems"(3) show ?case by simp
next
  case (Suc n)
  then obtain w1 where w1: "fire_held obs w = Some w1" "poller_inv w1" "freq_inv w1"
    "frequency w1 = frequency w" "countdown w1 = int (Suc n)"
    using fire_held_active [of w obs] by auto
  with Suc.prems have ih: "(\<forall>k \<le> n. \<exists>w'. fire_rounds k obs w1 = Some w' \<and> 0 < frequency w')
      \<and> (\<exists>w'. fire_rounds (Suc n) obs w1 = Some w' \<and> halted w')"
    by (intro Suc.IH) simp_all
  have "\<exists>w'. fire_rounds k obs w = Some w' \<and> 0 < frequency w'" if "k \<le> Suc n" for k
  proof (cases k)
    case 0
    with Suc.prems show ?thesis by simp
  next
    case (Suc k')
    with that ih w1(1) show ?thesis by simp
  qed
  with ih w1(1) show ?case by simp
qed

text \<open>C8: In every reachable state the countdown lies between the sentinel -1 and 10.\<close>

theorem countdown_bounds: "reach P w \<Longrightarrow> -1 \<le> countdown w \<and> countdown w \<le> 10"
  by (drule reach_poller_inv) (simp add: poller_inv_def)

text \<open>C6: In every reachable state at most one timer is armed.\<close>

theorem at_most_one_armed:
  assumes "reach P w" and "t \<in> armed_timers w" and "t' \<in> armed_timers w"
  shows "t = t'"
proof -
  from reach_poller_inv [OF assms(1)] have h: "\<forall>x \<in> armed_timers w. timer w = Some x"
    by (simp add: poller_inv_def armed_is_held_def)
  from h assms(2) have "timer w = Some t" by blast
  moreover from h assms(3) have "timer w = Some t'" by blast
  ultimately show ?thesis by simp
qed



lemma freq_inv_one_timer:
  assumes "poller_inv w" and "freq_inv w" and "0 < frequency w"
  shows "\<exists>t. timer w = Some t \<and> armed_timers w = {t} \<and> interval (timers w ! t) = frequency w"
proof -
  from assms(2,3) obtain t where
    t: "timer w = Some t" "t \<in> armed_timers w" "interval (timers w ! t) = frequency w"
    by (auto simp: freq_inv_def)
  from assms(1) t(1) have "armed_timers w \<subseteq> {t}"
    by (auto simp: poller_inv_def armed_is_held_def)
  with t show ?thesis by blast
qed

text \<open>C7: In every state reachable with integral requests, a positive frequency has exactly one armed timer, the one the instance holds, whose interval is the frequency.\<close>

theorem active_one_timer:
  "reach int_event w \<Longrightarrow> 0 < frequency w \<Longrightarrow>
   \<exists>t. timer w = Some t \<and> armed_timers w = {t} \<and> interval (timers w ! t) = frequency w"
  using reach_poller_inv reach_freq_inv freq_inv_one_timer by blast

text \<open>C2: With a healthy device, an active poller runs exactly countdown timer-driven cycles, staying active before the last, and is halted after it (ten after a read).\<close>

theorem auto_stop:
  assumes r: "reach int_event w" and f: "0 < frequency w"
    and ok: "poll_ok obs" "disconnect_ok obs"
  shows "(\<forall>k < nat (countdown w). \<exists>w'. fire_rounds k obs w = Some w' \<and> 0 < frequency w')
         \<and> (\<exists>w'. fire_rounds (nat (countdown w)) obs w = Some w' \<and> halted w')"
proof -
  have inv: "poller_inv w" and fi: "freq_inv w"
    using reach_poller_inv [OF r] reach_freq_inv [OF r] .
  from fi f have "armed_timers w \<noteq> {}" by (auto simp: freq_inv_def)
  with inv have "1 \<le> countdown w" by (simp add: poller_inv_def)
  define n where "n = nat (countdown w) - 1"
  have n: "countdown w = int (Suc n)" and nn: "nat (countdown w) = Suc n"
    using \<open>1 \<le> countdown w\<close> by (simp_all add: n_def)
  from auto_stop_rounds [OF inv fi f n ok] nn show ?thesis
    by (simp add: less_Suc_eq_le)
qed

text \<open>C4: After a read with a positive integral frequency exactly one timer is armed, held by the instance, firing after that frequency; any earlier timer is no longer armed.\<close>

theorem read_arms_one_timer:
  assumes r: "reach int_event w" and i: "is_py_int f" and f: "0 < f"
    and st: "sys_step (Read obs (Some f)) w = Some w'"
  shows "\<exists>t. timer w' = Some t \<and> armed_timers w' = {t} \<and> interval (timers w' ! t) = py_int f"
proof -
  have r': "reach int_event w'" using reach.step [OF r _ st] i by simp
  have "frequency w' = py_int f"
    using st f by (auto simp: read_def Let_def read_frequency_freq split: option.splits)
  moreover have "0 < py_int f" using is_py_int_pos_iff [OF i] f by simp
  ultimately show ?thesis
    using freq_inv_one_timer [OF reach_poller_inv [OF r'] reach_freq_inv [OF r']] by simp
qed

subsection \<open>Shape of the cached snapshot and termination of the timer chain\<close>

lemma state_wf_check_state: "state_wf w \<Longrightarrow> state_wf (check_state fi obs w)"
  by (auto simp: state_wf_def check_state_def Let_def poll_cycle_state
           dest: poll_snapshot_wf split: sum.splits option.splits)

lemma state_wf_read: "state_wf w \<Longrightarrow> state_wf (snd (read obs req w))"
proof -
  assume "state_wf w"
  then have "state_wf (if state w = None then check_state False obs w else w)"
    by (simp add: state_wf_check_state)
  then show ?thesis
    by (auto simp: read_def Let_def state_wf_def split: option.splits prod.splits)
qed

lemma state_wf_singleton: "state_wf w \<Longrightarrow> state_wf (singleton_call vstatus_init w)"
  by (simp add: singleton_call_def vstatus_init_def Let_def state_wf_def)

lemma state_wf_timers [simp]: "state_wf (w\<lparr>timers := ts\<rparr>) = state_wf w"
  by (simp add: state_wf_def)

lemma sys_step_state_wf: "state_wf w \<Longrightarrow> sys_step e w = Some w' \<Longrightarrow> state_wf w'"
  by (cases e) (auto simp: state_wf_read state_wf_singleton state_wf_check_state split: if_splits)


lemma timer_thread_returns:
  "poller_inv w \<Longrightarrow> \<exists>w'. timer_thread obs k w = Some w' \<and> armed_timers w' = {}"
proof (induction "fire_budget w" arbitrary: w k rule: less_induct)
  case less
  show ?case
  proof (cases "fire_held (obs k) w")
    case None
    have "armed_timers w = {}"
    proof (rule ccontr)
      assume "armed_timers w \<noteq> {}"
      then obtain t where t: "t \<in> armed_timers w" by blast
      with less.prems have "timer w = Some t" by (auto simp: poller_inv_def armed_is_held_def)
      with t None show False by (simp add: fire_held_def)
    qed
    with None show ?thesis by (subst timer_thread.simps) simp
  next
    case (Some w1)
    then obtain t where st: "sys_step (Fire t (obs k)) w = Some w1"
      by (auto simp: fire_held_def split: option.splits)
    have "fire_budget w1 < fire_budget w" by (rule fire_budget_decreases [OF less.prems st])
    moreover have "poller_inv w1" by (rule sys_step_poller_inv [OF less.prems st])
    ultimately obtain w2 where "timer_thread obs (Suc k) w1 = Some w2" "armed_timers w2 = {}"
      using less.hyps by blast
    with Some show ?thesis by (subst timer_thread.simps) simp
  qed
qed


end
