(* ===== verification/Interleave.thy ===== *)
theory Interleave
  imports System
begin

text \<open>
  The poller without the serialisation the specification asks for. \<open>threading.Timer\<close>
  (line 150 of \<open>src/vectorc2/command/status.py\<close>) runs each \<open>_check_state\<close> callback
  on a thread of its own, and nothing in \<open>VectorStatus\<close> locks, so another thread
  may run whenever one waits in a blocking device call. \<open>_check_state\<close> has three:
  \<open>self._connect()\<close> (line 59), \<open>futures.wait\<close> (line 95) and
  \<open>self._disconnect()\<close> (line 129). The theory splits the method at them:
  \<open>check_guard\<close> (the guard), \<open>try_start\<close> (connect, build the dictionary with
  the frequency of that moment, start the sub-queries), \<open>try_finish\<close> (read the
  results and store the snapshot), \<open>finally_rearm\<close> and \<open>finally_disconnect\<close>.
  A blocked thread is a timer callback or a read (which runs \<open>_check_state(False)\<close>
  when it finds no cached snapshot, and the rest of \<open>read\<close>, \<open>read_rest\<close>, after
  it), with the point it waits at; \<open>advance\<close> runs it to its next point. A
  configuration is the shared world and the blocked threads; \<open>istep\<close> lets a read
  start, a timer fire or any blocked thread advance, and \<open>ireach\<close> is the
  reachability of configurations from a fresh process. The first read's construction
  of the singleton is part of its first step.
\<close>

subsection \<open>\<open>_check_state\<close> split at its blocking calls\<close>

text \<open>Lines 51--56: the guard; \<open>Inl\<close> is the world the early \<open>return\<close> leaves.\<close>

definition check_guard :: "world \<Rightarrow> world + world" where
  "check_guard w =
     (let w1 = (if \<not> robot w \<or> frequency w \<le> 0 then stop_refresh w else w)
      in if \<not> robot w then Inl w1 else Inr w1)"

text \<open>
  Lines 58--93 with the handler of lines 119--120: \<open>_connect\<close> returns, the
  dictionary is built (every accessor, and \<open>_meta.frequency\<close> read from
  \<open>self._frequency\<close> now) and the two sub-queries are started. An accessor or a call
  that raises goes to the handler, which halts polling; otherwise the thread goes on
  to \<open>futures.wait\<close> with the frequency its dictionary holds.
\<close>

definition try_start :: "cycle_obs \<Rightarrow> world \<Rightarrow> world \<times> int option" where
  "try_start obs w =
     (let w1 = w\<lparr>dev_connected := connect (connect_ok obs) (dev_connected w)\<rparr>
      in if reading obs = None \<or> battery_call obs = None \<or> version_call obs = None
         then (stop_refresh w1, None) else (w1, Some (frequency w1)))"

text \<open>
  Lines 95--120 after \<open>futures.wait\<close> returns: read the results into the dictionary
  built with frequency \<open>f\<close> and store it in \<open>self._state\<close>, or halt when a result
  raises.
\<close>

definition try_finish :: "cycle_obs \<Rightarrow> int \<Rightarrow> world \<Rightarrow> world" where
  "try_finish obs f w =
     (case poll_snapshot f obs of
        Inl _ \<Rightarrow> stop_refresh w
      | Inr s \<Rightarrow> w\<lparr>state := Some s\<rparr>)"

text \<open>Lines 58--120 run without interruption: the \<open>try\<close> block and its handler.\<close>

definition check_try :: "cycle_obs \<Rightarrow> world \<Rightarrow> world" where
  "check_try obs w =
     (let w1 = w\<lparr>dev_connected := connect (connect_ok obs) (dev_connected w)\<rparr>
      in case poll_snapshot (frequency w1) obs of
           Inl _ \<Rightarrow> stop_refresh w1
         | Inr s \<Rightarrow> w1\<lparr>state := Some s\<rparr>)"

text \<open>Lines 122--127: re-arm when called by the timer, and count the cycle down.\<close>

definition finally_rearm :: "bool \<Rightarrow> world \<Rightarrow> world" where
  "finally_rearm from_init w =
     (let w1 = (if from_init then update_refresh w else w)
      in if 0 < countdown w1 \<and> 0 < frequency w1
         then w1\<lparr>countdown := countdown w1 - 1\<rparr> else w1)"

text \<open>Lines 129--130: close the session, and halt on failure, frequency or countdown.\<close>

definition finally_disconnect :: "cycle_obs \<Rightarrow> world \<Rightarrow> world" where
  "finally_disconnect obs w =
     (let d = disconnect (disconnect_ok obs) (dev_connected w);
          w1 = w\<lparr>dev_connected := snd d\<rparr>
      in if \<not> fst d \<or> frequency w1 \<le> 0 \<or> countdown w1 \<le> 0 then stop_refresh w1 else w1)"

text \<open>Lines 179--193: the rest of \<open>read\<close>, after its initial poll (lines 176--177).\<close>

definition read_rest :: "py_float option \<Rightarrow> world \<Rightarrow> snapshot option \<times> world" where
  "read_rest req w1 =
     (let w2 = read_frequency req w1;
          w3 = (case (state w2, req) of
                  (Some s, Some f) \<Rightarrow> w2\<lparr>state := Some (s\<lparr>st_meta_frequency := f\<rparr>)\<rparr>
                | _ \<Rightarrow> w2);
          w4 = w3\<lparr>countdown := 10\<rparr>
      in (state w4, w4))"

subsection \<open>Threads and interleaved execution\<close>

text \<open>
  A thread inside \<open>_check_state\<close>: a timer callback (\<open>_from_init = True\<close>), or a read
  polling for its first snapshot (\<open>_from_init = False\<close>, with its frequency argument),
  with what the device does during its cycle.
\<close>

datatype thread = Timer_callback cycle_obs | Read_call cycle_obs "py_float option"

fun thread_obs :: "thread \<Rightarrow> cycle_obs" where
  "thread_obs (Timer_callback obs) = obs"
| "thread_obs (Read_call obs req) = obs"

fun thread_from_init :: "thread \<Rightarrow> bool" where
  "thread_from_init (Timer_callback obs) = True"
| "thread_from_init (Read_call obs req) = False"

text \<open>The blocking call a thread waits in; \<open>At_wait f\<close> holds the dictionary's frequency.\<close>

datatype point = At_connect | At_wait int | At_disconnect

text \<open>When \<open>_disconnect\<close> returns: the rest of the \<open>finally\<close> block, and for a read the rest of \<open>read\<close>.\<close>

definition resume_thread :: "thread \<Rightarrow> world \<Rightarrow> world" where
  "resume_thread th w =
     (case th of
        Timer_callback obs \<Rightarrow> finally_disconnect obs w
      | Read_call obs req \<Rightarrow> snd (read_rest req (finally_disconnect obs w)))"

text \<open>Run a blocked thread to the next blocking call (\<open>Some\<close>) or to its end (\<open>None\<close>).\<close>

definition advance :: "thread \<Rightarrow> point \<Rightarrow> world \<Rightarrow> world \<times> point option" where
  "advance th p w =
     (case p of
        At_connect \<Rightarrow>
          (case try_start (thread_obs th) w of
             (w1, None) \<Rightarrow> (finally_rearm (thread_from_init th) w1, Some At_disconnect)
           | (w1, Some f) \<Rightarrow> (w1, Some (At_wait f)))
      | At_wait f \<Rightarrow>
          (finally_rearm (thread_from_init th) (try_finish (thread_obs th) f w), Some At_disconnect)
      | At_disconnect \<Rightarrow> (resume_thread th w, None))"

record iconf =
  ic_world :: world
  ic_blocked :: "(thread \<times> point) list"

inductive istep :: "iconf \<Rightarrow> iconf \<Rightarrow> bool" where
  read_cached:
    "state (singleton_call vstatus_init (ic_world c)) \<noteq> None \<Longrightarrow>
     istep c (c\<lparr>ic_world := snd (read_rest req (singleton_call vstatus_init (ic_world c)))\<rparr>)"
| read_return:
    "state (singleton_call vstatus_init (ic_world c)) = None \<Longrightarrow>
     check_guard (singleton_call vstatus_init (ic_world c)) = Inl w' \<Longrightarrow>
     istep c (c\<lparr>ic_world := snd (read_rest req w')\<rparr>)"
| read_block:
    "state (singleton_call vstatus_init (ic_world c)) = None \<Longrightarrow>
     check_guard (singleton_call vstatus_init (ic_world c)) = Inr w' \<Longrightarrow>
     istep c \<lparr>ic_world = w', ic_blocked = (Read_call obs req, At_connect) # ic_blocked c\<rparr>"
| fire_return:
    "t \<in> armed_timers (ic_world c) \<Longrightarrow>
     check_guard ((ic_world c)\<lparr>timers := timer_fire t (timers (ic_world c))\<rparr>) = Inl w' \<Longrightarrow>
     istep c (c\<lparr>ic_world := w'\<rparr>)"
| fire_block:
    "t \<in> armed_timers (ic_world c) \<Longrightarrow>
     check_guard ((ic_world c)\<lparr>timers := timer_fire t (timers (ic_world c))\<rparr>) = Inr w' \<Longrightarrow>
     istep c \<lparr>ic_world = w', ic_blocked = (Timer_callback obs, At_connect) # ic_blocked c\<rparr>"
| move:
    "i < length (ic_blocked c) \<Longrightarrow> ic_blocked c ! i = (th, p) \<Longrightarrow>
     advance th p (ic_world c) = (w', Some p') \<Longrightarrow>
     istep c \<lparr>ic_world = w', ic_blocked = (ic_blocked c)[i := (th, p')]\<rparr>"
| resume:
    "i < length (ic_blocked c) \<Longrightarrow> ic_blocked c ! i = (th, p) \<Longrightarrow>
     advance th p (ic_world c) = (w', None) \<Longrightarrow>
     istep c \<lparr>ic_world = w', ic_blocked = take i (ic_blocked c) @ drop (Suc i) (ic_blocked c)\<rparr>"

inductive ireach :: "iconf \<Rightarrow> bool" where
  start: "ireach \<lparr>ic_world = world0 cfg, ic_blocked = []\<rparr>"
| step: "ireach c \<Longrightarrow> istep c c' \<Longrightarrow> ireach c'"

text \<open>
  What survives interleaving of \<open>poller_inv\<close> (everything but "an armed timer has
  a positive countdown"), with the shape of the cached snapshot. A thread is blocked
  only in a constructed instance.
\<close>

definition held_bounded :: "world \<Rightarrow> bool" where
  "held_bounded w \<longleftrightarrow> armed_is_held w \<and> -1 \<le> countdown w \<and> countdown w \<le> 10"

definition iworld_inv :: "world \<Rightarrow> bool" where
  "iworld_inv w \<longleftrightarrow>
     (\<not> created w \<longrightarrow> timers w = [] \<and> timer w = None \<and> countdown w = 0)
     \<and> (created w \<longrightarrow> robot w) \<and> held_bounded w \<and> state_wf w"

definition iconf_inv :: "iconf \<Rightarrow> bool" where
  "iconf_inv c \<longleftrightarrow> iworld_inv (ic_world c) \<and> (ic_blocked c \<noteq> [] \<longrightarrow> created (ic_world c))"

subsection \<open>The split composes back to \<open>_check_state\<close> and \<open>read\<close>\<close>

lemma poll_snapshot_start_fail:
  "reading obs = None \<or> battery_call obs = None \<or> version_call obs = None \<Longrightarrow>
   \<exists>e. poll_snapshot f obs = Inl e"
  by (auto simp: poll_snapshot_def fetch_substates_def split: option.splits)

lemma check_try_split:
  "check_try obs w = (case try_start obs w of (w1, None) \<Rightarrow> w1 | (w1, Some f) \<Rightarrow> try_finish obs f w1)"
proof (cases "reading obs = None \<or> battery_call obs = None \<or> version_call obs = None")
  case True
  then obtain e where "poll_snapshot (frequency w) obs = Inl e"
    using poll_snapshot_start_fail by blast
  with True show ?thesis by (simp add: check_try_def try_start_def Let_def)
next
  case False
  then show ?thesis
    by (simp add: check_try_def try_start_def try_finish_def Let_def del: not_None_eq)
qed

lemma check_finally_split:
  "check_finally fi obs w = finally_disconnect obs (finally_rearm fi w)"
  by (cases fi) (simp_all add: check_finally_def finally_rearm_def finally_disconnect_def Let_def)

lemma poll_cycle_split: "poll_cycle fi obs w = check_finally fi obs (check_try obs w)"
  by (simp add: poll_cycle_def check_try_def Let_def)

lemma check_state_split:
  "check_state fi obs w =
     (case check_guard w of
        Inl w' \<Rightarrow> w'
      | Inr w1 \<Rightarrow> finally_disconnect obs (finally_rearm fi (check_try obs w1)))"
  by (simp add: check_state_def check_guard_def poll_cycle_split check_finally_split Let_def)

lemma read_split:
  "read obs req w = read_rest req (if state w = None then check_state False obs w else w)"
  by (simp add: read_def read_rest_def Let_def)

lemma iconf_eta [simp]: "\<lparr>ic_world = ic_world c, ic_blocked = ic_blocked c\<rparr> = c"
  by (cases c) simp

lemma thread_to_disconnect:
  "istep\<^sup>*\<^sup>* \<lparr>ic_world = w, ic_blocked = (th, At_connect) # ps\<rparr>
     \<lparr>ic_world = finally_rearm (thread_from_init th) (check_try (thread_obs th) w),
      ic_blocked = (th, At_disconnect) # ps\<rparr>"
proof (cases "try_start (thread_obs th) w")
  case (Pair w1 r)
  let ?c = "\<lparr>ic_world = w, ic_blocked = (th, At_connect) # ps\<rparr>"
  show ?thesis
  proof (cases r)
    case None
    with Pair show ?thesis
      using istep.move [of 0 ?c th At_connect "finally_rearm (thread_from_init th) w1" At_disconnect]
      by (simp add: advance_def check_try_split)
  next
    case (Some f)
    let ?c1 = "\<lparr>ic_world = w1, ic_blocked = (th, At_wait f) # ps\<rparr>"
    have s1: "istep ?c ?c1"
      using istep.move [of 0 ?c th At_connect w1 "At_wait f"] Pair Some by (simp add: advance_def)
    have s2: "istep ?c1 \<lparr>ic_world = finally_rearm (thread_from_init th) (check_try (thread_obs th) w),
                        ic_blocked = (th, At_disconnect) # ps\<rparr>"
      using istep.move [of 0 ?c1 th "At_wait f"] Pair Some by (simp add: advance_def check_try_split)
    from s1 s2 show ?thesis by (meson r_into_rtranclp rtranclp.rtrancl_into_rtrancl)
  qed
qed

lemma thread_runs:
  assumes "istep \<lparr>ic_world = w, ic_blocked = ps\<rparr> \<lparr>ic_world = w1, ic_blocked = (th, At_connect) # ps\<rparr>"
    and "w' = resume_thread th (finally_rearm (thread_from_init th) (check_try (thread_obs th) w1))"
  shows "istep\<^sup>*\<^sup>* \<lparr>ic_world = w, ic_blocked = ps\<rparr> \<lparr>ic_world = w', ic_blocked = ps\<rparr>"
proof -
  let ?c = "\<lparr>ic_world = finally_rearm (thread_from_init th) (check_try (thread_obs th) w1),
             ic_blocked = (th, At_disconnect) # ps\<rparr>"
  have "istep ?c \<lparr>ic_world = w', ic_blocked = ps\<rparr>"
    using istep.resume [of 0 ?c th At_disconnect] assms(2) by (simp add: advance_def)
  with assms(1) thread_to_disconnect [of w1 th ps] show ?thesis
    by (meson converse_rtranclp_into_rtranclp rtranclp.rtrancl_into_rtrancl)
qed

lemma read_istep:
  "istep\<^sup>*\<^sup>* \<lparr>ic_world = w, ic_blocked = ps\<rparr>
     \<lparr>ic_world = snd (read obs req (singleton_call vstatus_init w)), ic_blocked = ps\<rparr>"
proof -
  let ?c = "\<lparr>ic_world = w, ic_blocked = ps\<rparr>"
  let ?ws = "singleton_call vstatus_init w"
  show ?thesis
  proof (cases "state ?ws = None")
    case False
    have "read obs req ?ws = read_rest req ?ws" by (subst read_split) (simp add: False)
    with False show ?thesis using istep.read_cached [of ?c req] by simp
  next
    case True
    then have r: "read obs req ?ws = read_rest req (check_state False obs ?ws)"
      by (simp add: read_split)
    show ?thesis
    proof (cases "check_guard ?ws")
      case (Inl v)
      with True r show ?thesis using istep.read_return [of ?c v req]
        by (simp add: check_state_split)
    next
      case (Inr v)
      with True have "istep ?c \<lparr>ic_world = v, ic_blocked = (Read_call obs req, At_connect) # ps\<rparr>"
        using istep.read_block [of ?c v obs req] by simp
      then show ?thesis
        by (rule thread_runs) (use r Inr in \<open>simp add: resume_thread_def check_state_split\<close>)
    qed
  qed
qed

lemma sys_step_istep:
  assumes "sys_step e w = Some w'"
  shows "istep\<^sup>*\<^sup>* \<lparr>ic_world = w, ic_blocked = ps\<rparr> \<lparr>ic_world = w', ic_blocked = ps\<rparr>"
proof (cases e)
  case (Read obs req)
  with assms show ?thesis using read_istep [of w ps obs req] by simp
next
  case (Fire t obs)
  let ?w0 = "w\<lparr>timers := timer_fire t (timers w)\<rparr>"
  from Fire assms have t: "t \<in> armed_timers w" and w': "w' = check_state True obs ?w0"
    by (auto split: if_splits)
  show ?thesis
  proof (cases "check_guard ?w0")
    case (Inl v)
    with t w' show ?thesis
      using istep.fire_return [of t "\<lparr>ic_world = w, ic_blocked = ps\<rparr>" v]
      by (simp add: check_state_split)
  next
    case (Inr v)
    with t have "istep \<lparr>ic_world = w, ic_blocked = ps\<rparr>
                   \<lparr>ic_world = v, ic_blocked = (Timer_callback obs, At_connect) # ps\<rparr>"
      using istep.fire_block [of t "\<lparr>ic_world = w, ic_blocked = ps\<rparr>" v obs] by simp
    then show ?thesis
      by (rule thread_runs) (use Inr w' in \<open>simp add: resume_thread_def check_state_split\<close>)
  qed
qed

lemma ireach_rtranclp: "istep\<^sup>*\<^sup>* c c' \<Longrightarrow> ireach c \<Longrightarrow> ireach c'"
  by (induction rule: rtranclp_induct) (auto intro: ireach.step)

subsection \<open>The invariant under interleaving\<close>

lemma split_ops_fields [simp]:
  "created (fst (try_start obs w)) = created w" "robot (fst (try_start obs w)) = robot w"
  "state (fst (try_start obs w)) = state w"
  "created (try_finish obs f w) = created w" "robot (try_finish obs f w) = robot w"
  "created (finally_rearm fi w) = created w" "robot (finally_rearm fi w) = robot w"
  "state (finally_rearm fi w) = state w"
  "created (finally_disconnect obs w) = created w" "robot (finally_disconnect obs w) = robot w"
  "state (finally_disconnect obs w) = state w"
  "created (snd (read_rest req w)) = created w" "robot (snd (read_rest req w)) = robot w"
  "countdown (snd (read_rest req w)) = 10"
  by (simp_all add: try_start_def try_finish_def finally_rearm_def finally_disconnect_def
                    read_rest_def Let_def split: sum.splits option.splits prod.splits)

lemma state_wf_eq: "state w' = state w \<Longrightarrow> state_wf w' = state_wf w"
  by (simp add: state_wf_def)

lemma held_bounded_stop_refresh [simp]: "held_bounded w \<Longrightarrow> held_bounded (stop_refresh w)"
  by (simp add: held_bounded_def)

lemma held_bounded_try_start: "held_bounded w \<Longrightarrow> held_bounded (fst (try_start obs w))"
  by (simp add: try_start_def Let_def held_bounded_def)

lemma held_bounded_try_finish: "held_bounded w \<Longrightarrow> held_bounded (try_finish obs f w)"
  by (simp add: try_finish_def held_bounded_def split: sum.splits)

lemma held_bounded_finally_rearm: "held_bounded w \<Longrightarrow> held_bounded (finally_rearm fi w)"
  by (simp add: finally_rearm_def Let_def held_bounded_def)

lemma held_bounded_finally_disconnect:
  "held_bounded w \<Longrightarrow> held_bounded (finally_disconnect obs w)"
  by (simp add: finally_disconnect_def Let_def held_bounded_def)

lemma held_bounded_fired:
  "held_bounded w \<Longrightarrow> held_bounded (w\<lparr>timers := timer_fire t (timers w)\<rparr>)"
  by (auto simp: held_bounded_def armed_is_held_def)

lemma held_bounded_read_rest: "held_bounded w \<Longrightarrow> held_bounded (snd (read_rest req w))"
  by (simp add: held_bounded_def read_rest_def Let_def armed_is_held_read_frequency
           split: option.splits)

lemma state_wf_try_finish: "state_wf w \<Longrightarrow> state_wf (try_finish obs f w)"
  by (auto simp: try_finish_def state_wf_def dest: poll_snapshot_wf split: sum.splits)

lemma state_wf_read_rest: "state_wf w \<Longrightarrow> state_wf (snd (read_rest req w))"
  by (auto simp: state_wf_def read_rest_def Let_def split: option.splits)

lemma iworld_inv_created:
  "created w \<Longrightarrow> iworld_inv w \<longleftrightarrow> robot w \<and> held_bounded w \<and> state_wf w"
  by (simp add: iworld_inv_def)

text \<open>An operation keeps the invariant of a constructed world when it keeps each part.\<close>

lemma iworld_inv_op:
  assumes "iworld_inv w" "created w" "created w'" "robot w' = robot w"
    and "held_bounded w \<Longrightarrow> held_bounded w'" "state_wf w \<Longrightarrow> state_wf w'"
  shows "iworld_inv w' \<and> created w'"
  using assms by (simp add: iworld_inv_created)

lemma stop_refresh_inv:
  "iworld_inv w \<Longrightarrow> created w \<Longrightarrow> iworld_inv (stop_refresh w) \<and> created (stop_refresh w)"
  by (rule iworld_inv_op [of w]) (simp_all add: state_wf_eq [of "stop_refresh w" w])

lemma guard_inv:
  assumes "iworld_inv w" "created w" "check_guard w = Inl w' \<or> check_guard w = Inr w'"
  shows "iworld_inv w' \<and> created w'"
proof -
  have "w' = stop_refresh w \<or> w' = w"
    using assms(3) by (auto simp: check_guard_def Let_def split: if_splits)
  with assms(1,2) stop_refresh_inv [OF assms(1,2)] show ?thesis by blast
qed

lemma try_start_inv:
  "iworld_inv w \<Longrightarrow> created w \<Longrightarrow>
   iworld_inv (fst (try_start obs w)) \<and> created (fst (try_start obs w))"
  by (rule iworld_inv_op [of w])
     (simp_all add: held_bounded_try_start state_wf_eq [of "fst (try_start obs w)" w])

lemma try_finish_inv:
  "iworld_inv w \<Longrightarrow> created w \<Longrightarrow> iworld_inv (try_finish obs f w) \<and> created (try_finish obs f w)"
  by (rule iworld_inv_op [of w]) (simp_all add: held_bounded_try_finish state_wf_try_finish)

lemma finally_rearm_inv:
  "iworld_inv w \<Longrightarrow> created w \<Longrightarrow> iworld_inv (finally_rearm fi w) \<and> created (finally_rearm fi w)"
  by (rule iworld_inv_op [of w])
     (simp_all add: held_bounded_finally_rearm state_wf_eq [of "finally_rearm fi w" w])

lemma finally_disconnect_inv:
  "iworld_inv w \<Longrightarrow> created w \<Longrightarrow>
   iworld_inv (finally_disconnect obs w) \<and> created (finally_disconnect obs w)"
  by (rule iworld_inv_op [of w])
     (simp_all add: held_bounded_finally_disconnect state_wf_eq [of "finally_disconnect obs w" w])

lemma read_rest_inv:
  "iworld_inv w \<Longrightarrow> created w \<Longrightarrow> iworld_inv (snd (read_rest req w)) \<and> created (snd (read_rest req w))"
  by (rule iworld_inv_op [of w]) (simp_all add: held_bounded_read_rest state_wf_read_rest)

lemma resume_thread_inv:
  assumes "iworld_inv w" "created w"
  shows "iworld_inv (resume_thread th w) \<and> created (resume_thread th w)"
proof (cases th)
  case (Timer_callback obs)
  with assms show ?thesis by (simp add: resume_thread_def finally_disconnect_inv)
next
  case (Read_call obs req)
  from finally_disconnect_inv [OF assms, of obs] have
    "iworld_inv (finally_disconnect obs w)" "created (finally_disconnect obs w)" by simp_all
  from read_rest_inv [OF this, of req] Read_call show ?thesis by (simp add: resume_thread_def)
qed

lemma advance_inv:
  assumes "iworld_inv w" "created w" "advance th p w = (w', r)"
  shows "iworld_inv w' \<and> created w'"
proof (cases p)
  case At_connect
  obtain w1 r1 where t: "try_start (thread_obs th) w = (w1, r1)" by fastforce
  from try_start_inv [OF assms(1,2), of "thread_obs th"] t have "iworld_inv w1" "created w1"
    by simp_all
  with assms(3) At_connect t show ?thesis
    using finally_rearm_inv [of w1 "thread_from_init th"]
    by (cases r1) (simp_all add: advance_def)
next
  case (At_wait f)
  from try_finish_inv [OF assms(1,2), of "thread_obs th" f] have
    "iworld_inv (try_finish (thread_obs th) f w)" "created (try_finish (thread_obs th) f w)"
    by simp_all
  from finally_rearm_inv [OF this, of "thread_from_init th"] assms(3) At_wait show ?thesis
    by (auto simp: advance_def)
next
  case At_disconnect
  with assms resume_thread_inv [OF assms(1,2), of th] show ?thesis by (simp add: advance_def)
qed

lemma poller_inv_iworld_inv: "poller_inv w \<Longrightarrow> state_wf w \<Longrightarrow> iworld_inv w"
  by (simp add: poller_inv_def iworld_inv_def held_bounded_def)

lemma iworld_inv_poller_inv: "iworld_inv w \<Longrightarrow> \<not> created w \<Longrightarrow> poller_inv w"
  by (simp add: poller_inv_def iworld_inv_def held_bounded_def armed_is_held_def)

lemma iworld_inv_singleton:
  assumes "iworld_inv w"
  shows "iworld_inv (singleton_call vstatus_init w) \<and> created (singleton_call vstatus_init w)"
proof (cases "created w")
  case True
  with assms show ?thesis by (simp add: singleton_call_def)
next
  case False
  with assms have "poller_inv w" "state_wf w" by (simp_all add: iworld_inv_poller_inv iworld_inv_def)
  then show ?thesis
    by (simp add: poller_inv_iworld_inv poller_inv_singleton state_wf_singleton)
qed

lemma fired_iworld_inv:
  assumes "iworld_inv w" "t \<in> armed_timers w"
  shows "iworld_inv (w\<lparr>timers := timer_fire t (timers w)\<rparr>)" "created w"
proof -
  show c: "created w"
    using assms by (auto simp: iworld_inv_def)
  with assms(1) show "iworld_inv (w\<lparr>timers := timer_fire t (timers w)\<rparr>)"
    by (simp add: iworld_inv_created held_bounded_fired)
qed

lemma istep_iconf_inv: "istep c c' \<Longrightarrow> iconf_inv c \<Longrightarrow> iconf_inv c'"
proof (induction rule: istep.induct)
  case (read_cached c req)
  then have "iworld_inv (singleton_call vstatus_init (ic_world c))"
    "created (singleton_call vstatus_init (ic_world c))"
    using iworld_inv_singleton [of "ic_world c"] by (simp_all add: iconf_inv_def)
  from read_rest_inv [OF this, of req] show ?case by (simp add: iconf_inv_def)
next
  case (read_return c w' req)
  then have "iworld_inv (singleton_call vstatus_init (ic_world c))"
    "created (singleton_call vstatus_init (ic_world c))"
    using iworld_inv_singleton [of "ic_world c"] by (simp_all add: iconf_inv_def)
  from guard_inv [OF this, of w'] read_return.hyps(2) have "iworld_inv w'" "created w'" by simp_all
  from read_rest_inv [OF this, of req] show ?case by (simp add: iconf_inv_def)
next
  case (read_block c w' obs req)
  then have "iworld_inv (singleton_call vstatus_init (ic_world c))"
    "created (singleton_call vstatus_init (ic_world c))"
    using iworld_inv_singleton [of "ic_world c"] by (simp_all add: iconf_inv_def)
  from guard_inv [OF this, of w'] read_block.hyps(2) show ?case by (simp add: iconf_inv_def)
next
  case (fire_return t c w')
  then have "iworld_inv ((ic_world c)\<lparr>timers := timer_fire t (timers (ic_world c))\<rparr>)"
    "created ((ic_world c)\<lparr>timers := timer_fire t (timers (ic_world c))\<rparr>)"
    using fired_iworld_inv [of "ic_world c" t] by (simp_all add: iconf_inv_def)
  from guard_inv [OF this, of w'] fire_return.hyps(2) show ?case by (simp add: iconf_inv_def)
next
  case (fire_block t c w' obs)
  then have "iworld_inv ((ic_world c)\<lparr>timers := timer_fire t (timers (ic_world c))\<rparr>)"
    "created ((ic_world c)\<lparr>timers := timer_fire t (timers (ic_world c))\<rparr>)"
    using fired_iworld_inv [of "ic_world c" t] by (simp_all add: iconf_inv_def)
  from guard_inv [OF this, of w'] fire_block.hyps(2) show ?case by (simp add: iconf_inv_def)
next
  case (move i c th p w' p')
  then have "iworld_inv (ic_world c)" "created (ic_world c)" by (auto simp: iconf_inv_def)
  from advance_inv [OF this move.hyps(3)] show ?case by (simp add: iconf_inv_def)
next
  case (resume i c th p w')
  then have "iworld_inv (ic_world c)" "created (ic_world c)" by (auto simp: iconf_inv_def)
  from advance_inv [OF this resume.hyps(3)] show ?case by (simp add: iconf_inv_def)
qed

lemma ireach_iconf_inv: "ireach c \<Longrightarrow> iconf_inv c"
proof (induction rule: ireach.induct)
  case (start cfg)
  show ?case by (simp add: iconf_inv_def iworld_inv_def held_bounded_def armed_is_held_def state_wf_def)
next
  case (step c c')
  then show ?case by (blast intro: istep_iconf_inv)
qed

subsection \<open>Re-arming with frequency 0\<close>

lemma armed_stop_refresh_empty:
  "armed_timers w = {} \<Longrightarrow> armed_timers (stop_refresh w) = {}"
  by (simp add: armed_stop_refresh split: option.splits)

text \<open>
  A timer-driven cycle that ends with the frequency 0 (the guard halted polling, or the
  \<open>try\<close> block raised) re-arms on line 124 a timer with interval 0 and blocks in
  \<open>_disconnect\<close> with that timer armed.
\<close>

lemma halting_cycle_blocks:
  assumes "robot w" "timer w = Some t" "armed_timers w = {t}"
    and "frequency w \<le> 0 \<and> poll_ok obs \<or> \<not> poll_ok obs"
  shows "\<exists>w'. istep\<^sup>*\<^sup>* \<lparr>ic_world = w, ic_blocked = ps\<rparr>
                   \<lparr>ic_world = w', ic_blocked = (Timer_callback obs, At_disconnect) # ps\<rparr>
           \<and> robot w' \<and> frequency w' = 0 \<and> countdown w' = -1
           \<and> timer w' = Some (length (timers w)) \<and> armed_timers w' = {length (timers w)}
           \<and> interval (timers w' ! length (timers w)) = 0
           \<and> (poll_ok obs \<longrightarrow> map_option st_meta_frequency (state w') = Some 0)"
proof -
  define w0 where "w0 = w\<lparr>timers := timer_fire t (timers w)\<rparr>"
  define w1 where "w1 = (if \<not> robot w0 \<or> frequency w0 \<le> 0 then stop_refresh w0 else w0)"
  define w2 where "w2 = check_try obs w1"
  have a1: "armed_timers w1 = {}"
    using assms(2,3) by (simp add: w1_def w0_def armed_stop_refresh_empty)
  have r1: "robot w1" using assms(1) by (simp add: w1_def w0_def)
  have w2: "frequency w2 = 0 \<and> countdown w2 = -1 \<and> timer w2 = None \<and> armed_timers w2 = {}
        \<and> robot w2 \<and> length (timers w2) = length (timers w)
        \<and> (poll_ok obs \<longrightarrow> map_option st_meta_frequency (state w2) = Some 0)"
  proof (cases "poll_ok obs")
    case True
    with assms(4) have "w1 = stop_refresh w0" by (simp add: w1_def w0_def)
    moreover obtain s where "poll_snapshot 0 obs = Inr s" using poll_ok_Inr [OF True] by blast
    ultimately show ?thesis using a1 r1
      by (simp add: w2_def check_try_def poll_snapshot_meta) (simp add: w0_def)
  next
    case False
    obtain e where "poll_snapshot (frequency w1) obs = Inl e"
      using False poll_snapshot_Inr by (cases "poll_snapshot (frequency w1) obs") blast+
    with False a1 r1 show ?thesis
      by (simp add: w2_def check_try_def armed_stop_refresh_empty)
         (simp add: w1_def w0_def split: if_splits)
  qed
  have "check_guard w0 = Inr w1"
    using assms(1) by (simp add: check_guard_def Let_def w1_def w0_def)
  then have s1: "istep \<lparr>ic_world = w, ic_blocked = ps\<rparr>
                   \<lparr>ic_world = w1, ic_blocked = (Timer_callback obs, At_connect) # ps\<rparr>"
    using istep.fire_block [of t "\<lparr>ic_world = w, ic_blocked = ps\<rparr>" w1 obs] assms(3)
    by (simp add: w0_def)
  have "finally_rearm True w2 = update_refresh w2"
    using w2 by (simp add: finally_rearm_def)
  then have "istep\<^sup>*\<^sup>* \<lparr>ic_world = w, ic_blocked = ps\<rparr>
               \<lparr>ic_world = update_refresh w2, ic_blocked = (Timer_callback obs, At_disconnect) # ps\<rparr>"
    using converse_rtranclp_into_rtranclp [OF s1 thread_to_disconnect [of w1 "Timer_callback obs" ps]]
    by (simp add: w2_def)
  with w2 show ?thesis
    using interval_update_refresh [of w2]
    by (intro exI [of _ "update_refresh w2"]) (simp add: armed_update_refresh)
qed

text \<open>
  While the first thread waits in \<open>_disconnect\<close>, the zero-interval timer fires, the
  callback it starts finds the frequency 0, halts polling (which cannot cancel the
  timer that has already fired), polls the device all the same, re-arms another
  zero-interval timer on line 124 and waits in \<open>_disconnect\<close> too; and so on.
\<close>

lemma zero_timer_chain:
  assumes "ireach c" "robot (ic_world c)" "frequency (ic_world c) = 0"
    and "timer (ic_world c) = Some t" "armed_timers (ic_world c) = {t}" "poll_ok obs"
  shows "\<exists>c'. ireach c'
           \<and> ic_blocked c' = replicate (Suc n) (Timer_callback obs, At_disconnect) @ ic_blocked c
           \<and> robot (ic_world c') \<and> frequency (ic_world c') = 0 \<and> countdown (ic_world c') = -1
           \<and> (\<exists>t'. timer (ic_world c') = Some t' \<and> armed_timers (ic_world c') = {t'}
                  \<and> interval (timers (ic_world c') ! t') = 0)
           \<and> map_option st_meta_frequency (state (ic_world c')) = Some 0"
proof (induction n)
  case 0
  from halting_cycle_blocks [of "ic_world c" t obs "ic_blocked c"] assms(2-6)
  obtain w' where "istep\<^sup>*\<^sup>* c \<lparr>ic_world = w', ic_blocked = (Timer_callback obs, At_disconnect) # ic_blocked c\<rparr>"
    and "robot w' \<and> frequency w' = 0 \<and> countdown w' = -1
         \<and> timer w' = Some (length (timers (ic_world c)))
         \<and> armed_timers w' = {length (timers (ic_world c))}
         \<and> interval (timers w' ! length (timers (ic_world c))) = 0
         \<and> map_option st_meta_frequency (state w') = Some 0"
    by auto
  with assms(1) show ?case
    by (intro exI [of _ "\<lparr>ic_world = w', ic_blocked = (Timer_callback obs, At_disconnect) # ic_blocked c\<rparr>"])
       (auto intro: ireach_rtranclp)
next
  case (Suc n)
  then obtain c1 t1 where c1: "ireach c1"
    "ic_blocked c1 = replicate (Suc n) (Timer_callback obs, At_disconnect) @ ic_blocked c"
    "robot (ic_world c1)" "frequency (ic_world c1) = 0"
    "timer (ic_world c1) = Some t1" "armed_timers (ic_world c1) = {t1}"
    by blast
  from halting_cycle_blocks [of "ic_world c1" t1 obs "ic_blocked c1"] c1(3-6) assms(6)
  obtain w' where "istep\<^sup>*\<^sup>* c1 \<lparr>ic_world = w', ic_blocked = (Timer_callback obs, At_disconnect) # ic_blocked c1\<rparr>"
    and "robot w' \<and> frequency w' = 0 \<and> countdown w' = -1
         \<and> timer w' = Some (length (timers (ic_world c1)))
         \<and> armed_timers w' = {length (timers (ic_world c1))}
         \<and> interval (timers w' ! length (timers (ic_world c1))) = 0
         \<and> map_option st_meta_frequency (state w') = Some 0"
    by auto
  with c1(1,2) show ?case
    by (intro exI [of _ "\<lparr>ic_world = w', ic_blocked = (Timer_callback obs, At_disconnect) # ic_blocked c1\<rparr>"])
       (auto intro: ireach_rtranclp)
qed

subsection \<open>Properties of the interleaved poller\<close>

text \<open>C20: Even when timer callbacks and reads interleave at the blocking _connect, futures.wait and _disconnect calls, every armed timer is the one the instance holds (so at most one timer is armed), the countdown stays between -1 and 10, and the cached snapshot has the dictionary's shape.\<close>

theorem interleaved_timer_held:
  "ireach c \<Longrightarrow> armed_is_held (ic_world c) \<and> -1 \<le> countdown (ic_world c)
     \<and> countdown (ic_world c) \<le> 10 \<and> state_wf (ic_world c)"
  by (drule ireach_iconf_inv) (simp add: iconf_inv_def iworld_inv_def held_bounded_def)


end
