(* ===== verification/Traces.thy ===== *)
theory Traces
  imports System
begin

text \<open>
  Properties of sequences of events of the serialised poller (theory \<open>System\<close>),
  stated over \<open>run\<close>: what can follow a timer-driven cycle whose \<open>_disconnect\<close> failed,
  and what a run of reads with an unchanged frequency does to the timers (the
  idempotent re-arm avoidance of \<open>read\<close>, lines 179--185 of
  \<open>src/vectorc2/command/status.py\<close>), and the invariant \<open>meta_inv\<close> of every
  reachable world: while polling is on, the cached snapshot's \<open>_meta.frequency\<close> is
  the frequency polled at.
\<close>

text \<open>
  The snapshot's \<open>_meta.frequency\<close> agrees with the polling frequency: whenever
  polling is on and a snapshot is cached, the snapshot reports the frequency the
  instance polls at.
\<close>

definition meta_inv :: "world \<Rightarrow> bool" where
  "meta_inv w \<longleftrightarrow>
     (case state w of
        None \<Rightarrow> True
      | Some s \<Rightarrow> frequency w \<le> 0 \<or> st_meta_frequency s = rat_of_int (frequency w))"

subsection \<open>After a failed disconnect\<close>

lemma fire_disconnect_fail_disarms:
  assumes "reach P w" "\<not> disconnect_ok obs" "sys_step (Fire t obs) w = Some w'"
  shows "armed_timers w' = {}"
proof -
  from assms(3) have t: "t \<in> armed_timers w"
    and w': "w' = check_state True obs (w\<lparr>timers := timer_fire t (timers w)\<rparr>)"
    by (auto split: if_splits)
  let ?w0 = "w\<lparr>timers := timer_fire t (timers w)\<rparr>"
  have inv: "poller_inv w" using assms(1) by (rule reach_poller_inv)
  note f = fired_poller_inv [OF inv t]
  have "robot ?w0" using f inv by (simp add: poller_inv_def)
  moreover have "\<not> (poll_ok obs \<and> cycle_continues obs ?w0)"
    using assms(2) by (simp add: cycle_continues_def)
  ultimately have "halted w'" unfolding w' by (rule check_state_halts)
  moreover have "armed_is_held w'"
    using poller_inv_check_state [OF f(1)] f(2) w' by (simp add: poller_inv_def)
  ultimately show ?thesis by (simp add: halted_disarmed)
qed

subsection \<open>Reads with an unchanged frequency\<close>

lemma reach_uncreated: "reach P w \<Longrightarrow> \<not> created w \<Longrightarrow> state w = None"
proof (induction rule: reach.induct)
  case (start cfg)
  show ?case by simp
next
  case (step w e w')
  show ?case
  proof (cases e)
    case (Read obs req)
    with step show ?thesis by (auto simp: read_fields)
  next
    case (Fire t obs)
    with step.hyps have "t \<in> armed_timers w" by (auto split: if_splits)
    with step.hyps(1) have "created w"
      using fired_poller_inv(2) reach_poller_inv by blast
    with step Fire show ?thesis by (auto split: if_splits)
  qed
qed

lemma read_same_frequency:
  assumes "created w" "state w \<noteq> None" "py_int f = frequency w"
  shows "created (snd (read obs (Some f) (singleton_call vstatus_init w)))
         \<and> state (snd (read obs (Some f) (singleton_call vstatus_init w))) \<noteq> None
         \<and> frequency (snd (read obs (Some f) (singleton_call vstatus_init w))) = frequency w
         \<and> timers (snd (read obs (Some f) (singleton_call vstatus_init w))) = timers w
         \<and> timer (snd (read obs (Some f) (singleton_call vstatus_init w))) = timer w"
  using assms by (auto simp: singleton_call_def read_def read_frequency_def Let_def)

lemma run_same_frequency_reads:
  "created w \<Longrightarrow> state w \<noteq> None \<Longrightarrow> py_int f = frequency w \<Longrightarrow>
   \<exists>w'. run (map (\<lambda>ob. Read ob (Some f)) obs) w = Some w'
        \<and> timers w' = timers w \<and> timer w' = timer w"
proof (induction obs arbitrary: w)
  case Nil
  then show ?case by simp
next
  case (Cons ob obs)
  let ?v = "snd (read ob (Some f) (singleton_call vstatus_init w))"
  from read_same_frequency [OF Cons.prems, of ob] have v:
    "created ?v" "state ?v \<noteq> None" "py_int f = frequency ?v"
    "timers ?v = timers w" "timer ?v = timer w"
    using Cons.prems(3) by simp_all
  from Cons.IH [OF v(1-3)] v(4,5) show ?case by simp
qed

subsection \<open>The snapshot's reported frequency\<close>

lemma frequency_read_frequency_some:
  "frequency (read_frequency (Some f) w) =
     (if py_int f \<noteq> frequency w then (if 0 < f then py_int f else 0) else frequency w)"
  by (simp add: read_frequency_def Let_def)

lemma meta_inv_halted: "halted w \<Longrightarrow> meta_inv w"
  by (simp add: meta_inv_def halted_def split: option.splits)

lemma meta_inv_poll_cycle: "meta_inv (poll_cycle fi obs w)"
proof (cases "poll_ok obs \<and> cycle_continues obs w")
  case True
  then obtain s where s: "poll_snapshot (frequency w) obs = Inr s"
    using poll_ok_Inr by blast
  with True show ?thesis
    by (simp add: meta_inv_def poll_cycle_state poll_cycle_continues(1) poll_snapshot_meta)
next
  case False
  then show ?thesis by (intro meta_inv_halted poll_cycle_halts)
qed

lemma meta_inv_check_state: "meta_inv (check_state fi obs w)"
proof (cases "robot w")
  case True
  then show ?thesis by (simp add: check_state_robot meta_inv_poll_cycle)
next
  case False
  then show ?thesis by (simp add: check_state_def Let_def meta_inv_halted)
qed

lemma meta_inv_read:
  assumes "meta_inv w" "int_request req"
  shows "meta_inv (snd (read obs req w))"
proof -
  define w1 where "w1 = (if state w = None then check_state False obs w else w)"
  have m1: "meta_inv w1" using assms(1) by (simp add: w1_def meta_inv_check_state)
  have eq: "snd (read obs req w) =
              (case (state (read_frequency req w1), req) of
                 (Some s, Some f) \<Rightarrow> read_frequency req w1\<lparr>state := Some (s\<lparr>st_meta_frequency := f\<rparr>)\<rparr>
               | _ \<Rightarrow> read_frequency req w1)\<lparr>countdown := 10\<rparr>"
    unfolding w1_def by (cases "state w") (simp_all add: read_def Let_def)
  show ?thesis
  proof (cases req)
    case None
    with m1 show ?thesis unfolding eq by (simp add: meta_inv_def read_frequency_def split: option.splits)
  next
    case (Some f)
    with assms(2) have "rat_of_int (py_int f) = f" by (simp add: int_request_def is_py_int_def)
    with Some show ?thesis unfolding eq
      by (simp add: meta_inv_def frequency_read_frequency_some split: option.splits)
  qed
qed

lemma meta_inv_singleton: "meta_inv w \<Longrightarrow> meta_inv (singleton_call vstatus_init w)"
  by (simp add: singleton_call_def vstatus_init_def Let_def meta_inv_def)

lemma reach_meta_inv: "reach int_event w \<Longrightarrow> meta_inv w"
proof (induction rule: reach.induct)
  case (start cfg)
  show ?case by (simp add: meta_inv_def)
next
  case (step w e w')
  then show ?case
    by (cases e) (auto simp: meta_inv_read meta_inv_singleton meta_inv_check_state split: if_splits)
qed

subsection \<open>Properties of runs\<close>


text \<open>C23: From a reachable state with a cached snapshot, any run of reads whose frequency has the stored int() value completes and neither starts nor cancels a timer, so repeated reads never arm a second timer.\<close>

theorem repeated_reads_keep_timer:
  assumes "reach P w" "state w \<noteq> None" "py_int f = frequency w"
  shows "\<exists>w'. run (map (\<lambda>ob. Read ob (Some f)) obs) w = Some w'
           \<and> timers w' = timers w \<and> timer w' = timer w"
proof -
  have "created w" using reach_uncreated [OF assms(1)] assms(2) by blast
  then show ?thesis using run_same_frequency_reads assms(2,3) by blast
qed


end
