(* ===== verification/Regex.thy ===== *)
theory Regex
  imports Prelude
begin

text \<open>
  Python's \<open>re\<close> module, for the constructs the routing tables of VectorC2 use: the
  websocket patterns of \<open>src/vectorc2/space/routing.py\<close> (passed to Django's
  \<open>url()\<close>, i.e. \<open>re_path\<close>), the regexes Django's \<open>path()\<close> compiles its route
  strings into, and the \<open>static()\<close> pattern. A pattern is an \<open>re\<close>; \<open>rmatch\<close> is the
  set of matches (which prefix of the input a pattern matches, what it leaves, which
  named groups it captures); \<open>bt\<close> is the backtracking matcher, which lists the
  matches in the order Python's engine tries them, so that \<open>re.match\<close> is its first
  result. \<open>bt_correct\<close> shows that \<open>bt\<close> finds exactly the matches of \<open>rmatch\<close>.
\<close>

abbreviation nl :: char where
  "nl \<equiv> CHR 0x0A"

datatype char_class = NotChar char | Digit | Slug | Dot

text \<open>
  \<open>[^c]\<close>, \<open>[0-9]\<close> (the characters with codes 48 to 57), \<open>[-a-zA-Z0-9_]\<close> and
  \<open>.\<close> (which does not match a newline without \<open>re.DOTALL\<close>).
\<close>

definition is_digit :: "char \<Rightarrow> bool" where
  "is_digit x \<longleftrightarrow> (48::nat) \<le> of_char x \<and> of_char x \<le> (57::nat)"

definition is_ascii_letter :: "char \<Rightarrow> bool" where
  "is_ascii_letter x \<longleftrightarrow>
     ((65::nat) \<le> of_char x \<and> of_char x \<le> (90::nat))
     \<or> ((97::nat) \<le> of_char x \<and> of_char x \<le> (122::nat))"

fun class_ok :: "char_class \<Rightarrow> char \<Rightarrow> bool" where
  "class_ok (NotChar c) x = (x \<noteq> c)"
| "class_ok Digit x = is_digit x"
| "class_ok Slug x = (is_digit x \<or> is_ascii_letter x \<or> x = CHR ''-'' \<or> x = CHR ''_'')"
| "class_ok Dot x = (x \<noteq> nl)"

type_synonym captures = "(string \<times> string) list"

text \<open>
  \<open>Grp n r\<close> is \<open>(?P<n>r)\<close>; \<open>Dollar\<close> is \<open>$\<close>, which matches at the end of the input
  and also just before a newline that ends it; \<open>End_z\<close> is \<open>\Z\<close>, which matches only
  at the end.
\<close>

datatype re =
    Eps
  | Chr char
  | Cls char_class
  | Cat re re
  | Star re
  | Grp string re
  | Dollar
  | End_z

definition Plus :: "re \<Rightarrow> re" where
  "Plus r = Cat r (Star r)"

text \<open>A sequence of pattern items, as the parser returns it.\<close>

fun seq_re :: "re list \<Rightarrow> re" where
  "seq_re [] = Eps"
| "seq_re (r # rs) = Cat r (seq_re rs)"

subsection \<open>The matches of a pattern\<close>

text \<open>
  \<open>rmatch r p rest c\<close>: \<open>r\<close> matches \<open>p\<close> when \<open>rest\<close> follows it, capturing \<open>c\<close>. An
  iteration of \<open>Star\<close> consumes at least one character, as an empty iteration
  neither changes the matched text nor is repeated by Python's engine.
\<close>

inductive rmatch :: "re \<Rightarrow> string \<Rightarrow> string \<Rightarrow> captures \<Rightarrow> bool" where
  eps: "rmatch Eps [] rest []"
| chr: "rmatch (Chr c) [c] rest []"
| cls: "class_ok k c \<Longrightarrow> rmatch (Cls k) [c] rest []"
| cat: "rmatch r1 p1 (p2 @ rest) c1 \<Longrightarrow> rmatch r2 p2 rest c2 \<Longrightarrow>
        rmatch (Cat r1 r2) (p1 @ p2) rest (c1 @ c2)"
| star_nil: "rmatch (Star r) [] rest []"
| star_step: "rmatch r p1 (p2 @ rest) c1 \<Longrightarrow> p1 \<noteq> [] \<Longrightarrow> rmatch (Star r) p2 rest c2 \<Longrightarrow>
              rmatch (Star r) (p1 @ p2) rest (c1 @ c2)"
| grp: "rmatch r p rest c \<Longrightarrow> rmatch (Grp n r) p rest ((n, p) # c)"
| dollar: "rest = [] \<or> rest = [nl] \<Longrightarrow> rmatch Dollar [] rest []"
| end_z: "rmatch End_z [] [] []"

subsection \<open>The backtracking matcher\<close>

text \<open>
  \<open>bt r s\<close> lists, for every way \<open>r\<close> matches a prefix of \<open>s\<close>, the rest of the input
  and the captures, in the order of Python's engine: the alternatives of the first
  part of a concatenation before those of the second, and a greedy \<open>*\<close> trying one
  more iteration before stopping.
\<close>

function bt :: "re \<Rightarrow> string \<Rightarrow> (string \<times> captures) list" where
  "bt Eps s = [(s, [])]"
| "bt (Chr d) s = (case s of [] \<Rightarrow> [] | x # xs \<Rightarrow> if x = d then [(xs, [])] else [])"
| "bt (Cls k) s = (case s of [] \<Rightarrow> [] | x # xs \<Rightarrow> if class_ok k x then [(xs, [])] else [])"
| "bt (Cat r1 r2) s =
     concat (map (\<lambda>m. map (\<lambda>m2. (fst m2, snd m @ snd m2)) (bt r2 (fst m))) (bt r1 s))"
| "bt (Star r) s =
     concat (map (\<lambda>m. if length (fst m) < length s
                      then map (\<lambda>m2. (fst m2, snd m @ snd m2)) (bt (Star r) (fst m))
                      else []) (bt r s))
     @ [(s, [])]"
| "bt (Grp n r) s = map (\<lambda>m. (fst m, (n, take (length s - length (fst m)) s) # snd m)) (bt r s)"
| "bt Dollar s = (if s = [] \<or> s = [nl] then [(s, [])] else [])"
| "bt End_z s = (if s = [] then [(s, [])] else [])"
  by pat_completeness auto
termination
  by (relation "measures [\<lambda>(r, s). size r, \<lambda>(r, s). length s]") auto

text \<open>\<open>re.match(r, s)\<close>: the first match, if any.\<close>

definition py_match :: "re \<Rightarrow> string \<Rightarrow> (string \<times> captures) option" where
  "py_match r s = (case bt r s of [] \<Rightarrow> None | m # _ \<Rightarrow> Some m)"

subsection \<open>Compiling a pattern string\<close>

text \<open>
  \<open>re.compile\<close> for the subset of the syntax the routes use: ordinary characters,
  backslash escapes of punctuation and \<open>\Z\<close>, the classes \<open>[^c]\<close>, \<open>[0-9]\<close> and
  \<open>[-a-zA-Z0-9_]\<close>, \<open>.\<close>, \<open>$\<close>, a named group \<open>(?P<name>...)\<close> holding one item, and the
  quantifiers \<open>+\<close> and \<open>*\<close>; the pattern must start with \<open>^\<close>, which anchors the
  match at the start of the path (Django calls \<open>regex.search\<close>, which with a
  leading \<open>^\<close> is \<open>re.match\<close>). Any other syntax is \<open>None\<close>: it is either an error
  for Python too (a quantifier after an anchor, an unknown escape) or outside the
  modelled subset.
\<close>

abbreviation bslash :: char where
  "bslash \<equiv> CHR 0x5C"

text \<open>The characters Python's \<open>re.escape\<close> prefixes with a backslash (Python 3.7 and later).\<close>

definition re_escaped :: string where
  "re_escaped = ''()[]{}?*+-|^$.&~# '' @ [bslash, CHR 0x09, nl, CHR 0x0D, CHR 0x0B, CHR 0x0C]"

text \<open>\<open>re.escape\<close>: a backslash before each of those characters.\<close>

definition re_escape :: "string \<Rightarrow> string" where
  "re_escape s = concat (map (\<lambda>c. if c \<in> set re_escaped then [bslash, c] else [c]) s)"

text \<open>The characters that are not ordinary outside a class.\<close>

definition re_special :: string where
  "re_special = ''.^$*+?{}[]|()'' @ [bslash]"

definition parse_quant :: "re \<Rightarrow> string \<Rightarrow> (re \<times> string) option" where
  "parse_quant a r =
     (if r \<noteq> [] \<and> (hd r = CHR ''+'' \<or> hd r = CHR ''*'')
      then (if a = Dollar \<or> a = End_z then None
            else Some (if hd r = CHR ''+'' then Plus a else Star a, tl r))
      else Some (a, r))"

function parse_atom :: "string \<Rightarrow> (re \<times> string) option" where
  "parse_atom [] = None"
| "parse_atom (c # cs) =
     (if c = bslash then
        (case cs of
           [] \<Rightarrow> None
         | d # ds \<Rightarrow>
             if d = CHR ''Z'' then Some (End_z, ds)
             else if d \<in> set re_escaped then Some (Chr d, ds) else None)
      else if c = CHR ''['' then
        (if take 4 cs = ''0-9]'' then Some (Cls Digit, drop 4 cs)
         else if take 13 cs = ''-a-zA-Z0-9_]'' then Some (Cls Slug, drop 13 cs)
         else if 3 \<le> length cs \<and> cs ! 0 = CHR ''^'' \<and> cs ! 1 \<noteq> bslash \<and> cs ! 2 = CHR '']''
         then Some (Cls (NotChar (cs ! 1)), drop 3 cs)
         else None)
      else if c = CHR ''('' then
        (if take 3 cs = ''?P<'' then
           (let name = takeWhile (\<lambda>x. x \<noteq> CHR ''>'') (drop 3 cs);
                body = drop (Suc (length name)) (drop 3 cs)
            in if name = [] \<or> length cs \<le> length name + 3 then None
               else (case parse_atom body of
                       None \<Rightarrow> None
                     | Some (a, r) \<Rightarrow>
                         (case parse_quant a r of
                            None \<Rightarrow> None
                          | Some (q, r') \<Rightarrow>
                              if r' \<noteq> [] \<and> hd r' = CHR '')'' then Some (Grp name q, tl r')
                              else None)))
         else None)
      else if c = CHR ''.'' then Some (Cls Dot, cs)
      else if c = CHR ''$'' then Some (Dollar, cs)
      else if c \<in> set re_special then None
      else Some (Chr c, cs))"
  by pat_completeness auto
termination
  by (relation "measure length") auto


text \<open>A pattern is a sequence of items, each an atom with an optional quantifier.\<close>

function parse_seq :: "string \<Rightarrow> re list option" where
  "parse_seq [] = Some []"
| "parse_seq (c # cs) =
     (case parse_atom (c # cs) of
        None \<Rightarrow> None
      | Some (a, r) \<Rightarrow>
          (case parse_quant a r of
             None \<Rightarrow> None
           | Some (q, r') \<Rightarrow>
               (case parse_seq r' of None \<Rightarrow> None | Some qs \<Rightarrow> Some (q # qs))))"
  by pat_completeness auto
termination
proof -
  have quant: "parse_quant a r = Some (q, r') \<Longrightarrow> length r' \<le> length r" for a r q r'
    by (auto simp: parse_quant_def split: if_splits)
  have atom: "parse_atom s = Some (a, r) \<Longrightarrow> length r < length s" for s a r
  proof (induction "length s" arbitrary: s a r rule: less_induct)
    case less
    show ?case
    proof (cases s)
      case Nil
      with less.prems show ?thesis by simp
    next
      case (Cons c cs)
      with less.prems show ?thesis
        by (auto simp: Let_def split: if_splits list.splits option.splits prod.splits
                 dest!: quant dest: less.hyps [rotated])
    qed
  qed
  show ?thesis
    by (relation "measure length")
       (auto simp del: parse_atom.simps dest!: atom quant)
qed

definition re_compile :: "string \<Rightarrow> re option" where
  "re_compile p =
     (if p \<noteq> [] \<and> hd p = CHR ''^'' then map_option seq_re (parse_seq (tl p)) else None)"


subsection \<open>Inversion of the match relation\<close>

inductive_cases rmatch_EpsE [elim]: "rmatch Eps p rest c"
inductive_cases rmatch_ChrE [elim]: "rmatch (Chr d) p rest c"
inductive_cases rmatch_ClsE [elim]: "rmatch (Cls k) p rest c"
inductive_cases rmatch_CatE [elim]: "rmatch (Cat r1 r2) p rest c"
inductive_cases rmatch_StarE: "rmatch (Star r) p rest c"
inductive_cases rmatch_GrpE [elim]: "rmatch (Grp n r) p rest c"
inductive_cases rmatch_DollarE [elim]: "rmatch Dollar p rest c"
inductive_cases rmatch_End_zE [elim]: "rmatch End_z p rest c"

text \<open>The equation of \<open>Star\<close> is applied by hand: as a rewrite rule it would unfold forever.\<close>

lemmas bt_Star = bt.simps(5)

declare bt.simps(5) [simp del]

subsection \<open>The matcher finds exactly the matches\<close>

text \<open>
  The backtracking matcher is sound and complete for the match relation: it lists a
  remainder and captures exactly when the pattern matches the consumed prefix with them.
\<close>

lemma bt_correct:
  "(rest, c) \<in> set (bt r s) \<longleftrightarrow> (\<exists>p. s = p @ rest \<and> rmatch r p rest c)"
proof (induction r s arbitrary: rest c rule: bt.induct)
  case (1 s)
  then show ?case by (auto intro: rmatch.eps)
next
  case (2 d s)
  then show ?case by (cases s) (auto intro: rmatch.chr)
next
  case (3 k s)
  then show ?case by (cases s) (auto intro: rmatch.cls)
next
  case (4 r1 r2 s)
  show ?case
  proof
    assume "(rest, c) \<in> set (bt (Cat r1 r2) s)"
    then obtain m m2 where m: "m \<in> set (bt r1 s)" and m2: "m2 \<in> set (bt r2 (fst m))"
      and rc: "rest = fst m2" "c = snd m @ snd m2" by auto
    from m "4.IH"(1) [of "fst m" "snd m"] obtain p1 where
      "s = p1 @ fst m" "rmatch r1 p1 (fst m) (snd m)" by auto
    moreover from m2 "4.IH"(2) [OF m, of "fst m2" "snd m2"] obtain p2 where
      "fst m = p2 @ fst m2" "rmatch r2 p2 (fst m2) (snd m2)" by auto
    ultimately show "\<exists>p. s = p @ rest \<and> rmatch (Cat r1 r2) p rest c"
      using rc by (auto intro!: exI [of _ "p1 @ p2"] rmatch.cat)
  next
    assume "\<exists>p. s = p @ rest \<and> rmatch (Cat r1 r2) p rest c"
    then obtain p1 p2 c1 c2 where s: "s = p1 @ p2 @ rest" and c: "c = c1 @ c2"
      and r1: "rmatch r1 p1 (p2 @ rest) c1" and r2: "rmatch r2 p2 rest c2" by auto
    from r1 s "4.IH"(1) have m: "(p2 @ rest, c1) \<in> set (bt r1 s)" by auto
    from r2 "4.IH"(2) [OF m] have "(rest, c2) \<in> set (bt r2 (p2 @ rest))" by auto
    with m c show "(rest, c) \<in> set (bt (Cat r1 r2) s)" by force
  qed
next
  case (5 r s)
  show ?case
  proof
    assume "(rest, c) \<in> set (bt (Star r) s)"
    then consider "rest = s" "c = []"
      | m m2 where "m \<in> set (bt r s)" "length (fst m) < length s"
          "m2 \<in> set (bt (Star r) (fst m))" "rest = fst m2" "c = snd m @ snd m2"
      unfolding bt_Star [of r s] by (auto split: if_splits)
    then show "\<exists>p. s = p @ rest \<and> rmatch (Star r) p rest c"
    proof cases
      case 1
      then show ?thesis by (auto intro: rmatch.star_nil)
    next
      case (2 m m2)
      from "2"(1) "5.IH"(1) [of "fst m" "snd m"] obtain p1 where
        p1: "s = p1 @ fst m" "rmatch r p1 (fst m) (snd m)" by auto
      with "2"(2) have "p1 \<noteq> []" by auto
      moreover from "2"(3) "5.IH"(2) [OF "2"(1,2), of "fst m2" "snd m2"] obtain p2 where
        "fst m = p2 @ fst m2" "rmatch (Star r) p2 (fst m2) (snd m2)" by auto
      ultimately show ?thesis
        using p1 "2"(4,5) by (auto intro!: exI [of _ "p1 @ p2"] rmatch.star_step)
    qed
  next
    assume "\<exists>p. s = p @ rest \<and> rmatch (Star r) p rest c"
    then obtain p where s: "s = p @ rest" and m: "rmatch (Star r) p rest c" by blast
    from m consider (nil) "p = []" "c = []"
      | (step) p1 p2 c1 c2 where "p = p1 @ p2" "c = c1 @ c2" "rmatch r p1 (p2 @ rest) c1"
          "p1 \<noteq> []" "rmatch (Star r) p2 rest c2"
      by (rule rmatch_StarE)
    then show "(rest, c) \<in> set (bt (Star r) s)"
    proof cases
      case nil
      with s have "rest = s" "c = []" by simp_all
      then show ?thesis by (simp add: bt_Star [of r s])
    next
      case (step p1 p2 c1 c2)
      from step s "5.IH"(1) have m1: "(p2 @ rest, c1) \<in> set (bt r s)" by auto
      from step s have len: "length (p2 @ rest) < length s" by (cases p1) auto
      from step "5.IH"(2) [OF m1] len have "(rest, c2) \<in> set (bt (Star r) (p2 @ rest))"
        by auto
      with m1 len step(2) show ?thesis unfolding bt_Star [of r s] by force
    qed
  qed
next
  case (6 n r s)
  show ?case
  proof
    assume "(rest, c) \<in> set (bt (Grp n r) s)"
    then obtain c' where m: "(rest, c') \<in> set (bt r s)"
      and c: "c = (n, take (length s - length rest) s) # c'" by auto
    from m "6.IH" obtain p where "s = p @ rest" "rmatch r p rest c'" by auto
    with c show "\<exists>p. s = p @ rest \<and> rmatch (Grp n r) p rest c"
      by (auto intro: rmatch.grp)
  next
    assume "\<exists>p. s = p @ rest \<and> rmatch (Grp n r) p rest c"
    then obtain p c' where s: "s = p @ rest" and c: "c = (n, p) # c'"
      and m: "rmatch r p rest c'" by blast
    from s m "6.IH" have "(rest, c') \<in> set (bt r s)" by auto
    with s c show "(rest, c) \<in> set (bt (Grp n r) s)" by force
  qed
next
  case (7 s)
  then show ?case by (auto intro: rmatch.dollar)
next
  case (8 s)
  then show ?case by (auto intro: rmatch.end_z)
qed

subsection \<open>The matcher on the shapes of the routes\<close>

lemma map_fst_snd_id [simp]: "map (\<lambda>m. (fst m, snd m)) xs = xs"
  by (induction xs) auto

lemma bt_Cat_Chr:
  "bt (Cat (Chr d) r) s = (case s of [] \<Rightarrow> [] | x # xs \<Rightarrow> if x = d then bt r xs else [])"
  by (cases s) auto

lemma bt_Cat_Eps: "bt (Cat r Eps) s = bt r s"
  by (induction "bt r s") (simp_all add: comp_def)

text \<open>A literal prefix either matches the start of the input or the pattern fails.\<close>

lemma bt_seq_lits:
  "bt (seq_re (map Chr w @ rs)) s =
     (if take (length w) s = w then bt (seq_re rs) (drop (length w) s) else [])"
proof (induction w arbitrary: s)
  case Nil
  then show ?case by simp
next
  case (Cons c w)
  then show ?case by (cases s) (auto simp: bt_Cat_Chr)
qed

lemma upt_Suc_rev: "rev [0..<Suc n] = map Suc (rev [0..<n]) @ [0]"
proof -
  have "[0..<Suc n] = 0 # map Suc [0..<n]"
    by (simp add: map_Suc_upt upt_conv_Cons del: upt_Suc)
  then show ?thesis by (simp add: rev_map)
qed

lemma take_takeWhile_run:
  "i < Suc (length (takeWhile P s)) \<Longrightarrow> take (length s - (length s - i)) s = take i s"
  using length_takeWhile_le [of P s] by simp

text \<open>A greedy \<open>*\<close> over a class tries the longest run of class characters first.\<close>

lemma bt_Star_Cls:
  "bt (Star (Cls k)) s =
     map (\<lambda>i. (drop i s, [])) (rev [0..<Suc (length (takeWhile (class_ok k) s))])"
proof (induction s)
  case Nil
  then show ?case by (simp add: bt_Star)
next
  case (Cons x xs)
  then show ?case
    by (simp add: bt_Star [of "Cls k" "x # xs"] upt_Suc_rev comp_def del: upt_Suc)
qed

lemma bt_Grp_Plus_Cls:
  "bt (Grp n (Plus (Cls k))) s =
     map (\<lambda>i. (drop i s, [(n, take i s)])) (rev [1..<Suc (length (takeWhile (class_ok k) s))])"
proof (cases s)
  case Nil
  then show ?thesis by (simp add: Plus_def)
next
  case (Cons x xs)
  have "i < Suc (length (takeWhile (class_ok k) xs)) \<Longrightarrow>
        take (Suc (length xs) - (length xs - i)) (x # xs) = x # take i xs" for i
    using length_takeWhile_le [of "class_ok k" xs] by (simp add: Suc_diff_le)
  with Cons show ?thesis
    by (simp add: Plus_def bt_Star_Cls comp_def map_Suc_upt [symmetric] rev_map del: upt_Suc)
qed

lemma bt_Grp_Star_Cls:
  "bt (Grp n (Star (Cls k))) s =
     map (\<lambda>i. (drop i s, [(n, take i s)])) (rev [0..<Suc (length (takeWhile (class_ok k) s))])"
  by (simp add: bt_Star_Cls comp_def take_takeWhile_run del: upt_Suc)

text \<open>Of the runs a greedy quantifier tries, only the longest can be followed by a
  character outside the class, by the end of the input, or by \<open>$\<close>.\<close>

lemma concat_map_rev_upt_last:
  "a \<le> b \<Longrightarrow> (\<And>i. a \<le> i \<Longrightarrow> i < b \<Longrightarrow> f i = []) \<Longrightarrow>
   concat (map f (rev [a..<Suc b])) = f b"
  by (auto simp: concat_eq_Nil_conv)

lemma drop_run_nth:
  "i < length (takeWhile P s) \<Longrightarrow> drop i s = s ! i # drop (Suc i) s \<and> P (s ! i)"
proof
  assume i: "i < length (takeWhile P s)"
  then have "i < length s" using length_takeWhile_le [of P s] by linarith
  then show "drop i s = s ! i # drop (Suc i) s" by (simp add: Cons_nth_drop_Suc)
  from i have "takeWhile P s ! i \<in> set (takeWhile P s)" by (rule nth_mem)
  with i show "P (s ! i)" by (auto simp: takeWhile_nth dest: set_takeWhileD)
qed

lemma bt_Cat_Grp_Plus_Cls:
  "bt (Cat (Grp n (Plus (Cls k))) r) s =
     concat (map (\<lambda>i. map (\<lambda>m. (fst m, (n, take i s) # snd m)) (bt r (drop i s)))
                 (rev [1..<Suc (length (takeWhile (class_ok k) s))]))"
  by (simp only: bt.simps(4) bt_Grp_Plus_Cls map_map comp_def fst_conv snd_conv append_Cons
                 append_Nil)

lemma class_ok_NotChar_self: "\<not> class_ok (NotChar c) c"
  by simp

lemma class_ok_Digit_fun: "class_ok Digit = is_digit"
  by (rule ext) simp

lemma class_ok_NotChar_fun: "class_ok (NotChar c) = (\<lambda>x. x \<noteq> c)"
  by (rule ext) simp

lemma bt_segment_sep:
  assumes "\<not> class_ok k d"
  shows "bt (Cat (Grp n (Plus (Cls k))) (Cat (Chr d) r)) s =
     (let i = length (takeWhile (class_ok k) s) in
      if 0 < i \<and> i < length s \<and> s ! i = d
      then map (\<lambda>m. (fst m, (n, take i s) # snd m)) (bt r (drop (Suc i) s)) else [])"
proof -
  define i where "i = length (takeWhile (class_ok k) s)"
  have fail: "bt (Cat (Chr d) r) (drop j s) = []" if "j < i" for j
    using drop_run_nth [of j "class_ok k" s] that assms by (auto simp: i_def bt_Cat_Chr)
  have last: "bt (Cat (Chr d) r) (drop i s) =
              (if i < length s \<and> s ! i = d then bt r (drop (Suc i) s) else [])"
    by (cases "i < length s") (simp_all add: bt_Cat_Chr Cons_nth_drop_Suc [symmetric])
  show ?thesis
  proof (cases "i = 0")
    case True
    then show ?thesis unfolding bt_Cat_Grp_Plus_Cls i_def [symmetric] by simp
  next
    case False
    then have "concat (map (\<lambda>j. map (\<lambda>m. (fst m, (n, take j s) # snd m))
                                 (bt (Cat (Chr d) r) (drop j s))) (rev [1..<Suc i]))
             = map (\<lambda>m. (fst m, (n, take i s) # snd m)) (bt (Cat (Chr d) r) (drop i s))"
      by (intro concat_map_rev_upt_last) (simp_all add: fail del: bt.simps)
    with False last show ?thesis
      unfolding bt_Cat_Grp_Plus_Cls i_def [symmetric] by (simp add: Let_def)
  qed
qed

lemma bt_segment_end:
  "bt (Cat (Grp n (Plus (Cls k))) (Cat End_z r)) s =
     (if s \<noteq> [] \<and> list_all (class_ok k) s
      then map (\<lambda>m. (fst m, (n, s) # snd m)) (bt r []) else [])"
proof -
  define i where "i = length (takeWhile (class_ok k) s)"
  have i_le: "i \<le> length s" by (simp add: i_def length_takeWhile_le)
  have fail: "bt (Cat End_z r) (drop j s) = []" if "j < i" for j
    using that i_le by simp
  have all: "i = length s \<longleftrightarrow> list_all (class_ok k) s"
    using takeWhile_eq_all_conv [of "class_ok k" s]
    by (metis i_def length_takeWhile_le list_all_iff takeWhile_eq_take take_all_iff
              take_takeWhile_run)
  show ?thesis
  proof (cases "i = 0")
    case True
    with all have "\<not> (s \<noteq> [] \<and> list_all (class_ok k) s)" by auto
    with True show ?thesis unfolding bt_Cat_Grp_Plus_Cls i_def [symmetric] by auto
  next
    case False
    then have "concat (map (\<lambda>j. map (\<lambda>m. (fst m, (n, take j s) # snd m))
                                 (bt (Cat End_z r) (drop j s))) (rev [1..<Suc i]))
             = map (\<lambda>m. (fst m, (n, take i s) # snd m)) (bt (Cat End_z r) (drop i s))"
      by (intro concat_map_rev_upt_last) (simp_all add: fail del: bt.simps)
    with False i_le all show ?thesis
      unfolding bt_Cat_Grp_Plus_Cls i_def [symmetric] by auto
  qed
qed

lemma bt_run_dollar:
  assumes "\<not> class_ok k nl"
  shows "bt (Cat (Grp n (Star (Cls k))) (Cat Dollar r)) s =
     (let i = length (takeWhile (class_ok k) s) in
      if drop i s = [] \<or> drop i s = [nl]
      then map (\<lambda>m. (fst m, (n, take i s) # snd m)) (bt r (drop i s)) else [])"
proof -
  define i where "i = length (takeWhile (class_ok k) s)"
  have fail: "bt (Cat Dollar r) (drop j s) = []" if "j < i" for j
  proof -
    from that have "drop j s = s ! j # drop (Suc j) s" "class_ok k (s ! j)"
      using drop_run_nth [of j "class_ok k" s] by (simp_all add: i_def)
    with assms show ?thesis by auto
  qed
  have "concat (map (\<lambda>j. map (\<lambda>m. (fst m, (n, take j s) # snd m))
                             (bt (Cat Dollar r) (drop j s))) (rev [0..<Suc i]))
         = map (\<lambda>m. (fst m, (n, take i s) # snd m)) (bt (Cat Dollar r) (drop i s))"
    by (intro concat_map_rev_upt_last) (simp_all add: fail del: bt.simps)
  then show ?thesis
    by (simp only: bt.simps(4) bt_Grp_Star_Cls map_map comp_def fst_conv snd_conv append_Cons
                   append_Nil i_def [symmetric] Let_def) auto
qed

text \<open>The two shapes of route the patterns of the routing tables have: a literal prefix
  followed by one named segment and a separator, and a literal ended by \<open>$\<close>.\<close>

lemma py_match_segment_route:
  "py_match (seq_re (map Chr w @ [Grp n (Plus (Cls (NotChar d))), Chr d, Dollar])) p =
   (let q = drop (length w) p; name = takeWhile (class_ok (NotChar d)) q;
        tail = drop (Suc (length name)) q
    in if take (length w) p = w \<and> name \<noteq> [] \<and> length name < length q
          \<and> (tail = [] \<or> tail = [nl])
       then Some (tail, [(n, name)]) else None)"
proof -
  define q where "q = drop (length w) p"
  define name where "name = takeWhile (class_ok (NotChar d)) q"
  have seq: "seq_re [Grp n (Plus (Cls (NotChar d))), Chr d, Dollar]
             = Cat (Grp n (Plus (Cls (NotChar d)))) (Cat (Chr d) (Cat Dollar Eps))" by simp
  have sep: "length name < length q \<Longrightarrow> q ! length name = d"
    using nth_length_takeWhile [of "class_ok (NotChar d)" q] by (simp add: name_def)
  have take_name: "take (length name) q = name"
    by (simp add: name_def takeWhile_eq_take [symmetric])
  show ?thesis
  proof (cases "take (length w) p = w")
    case False
    then show ?thesis by (simp add: py_match_def bt_seq_lits)
  next
    case True
    then show ?thesis
      unfolding py_match_def bt_seq_lits seq bt_segment_sep [OF class_ok_NotChar_self]
      using sep take_name
      by (auto simp: Let_def q_def [symmetric] name_def [symmetric] simp del: seq_re.simps)
  qed
qed

lemma py_match_literal_route:
  "py_match (seq_re (map Chr w @ [Dollar])) p =
     (if p = w \<or> p = w @ [nl] then Some (drop (length w) p, []) else None)"
  by (auto simp: py_match_def bt_seq_lits append_eq_conv_conj) (metis append_take_drop_id)

lemma py_match_prefix_route:
  "py_match (seq_re (map Chr w)) p =
     (if take (length w) p = w then Some (drop (length w) p, []) else None)"
  using bt_seq_lits [of w "[]" p] by (simp add: py_match_def)

lemma py_match_exact_route:
  "py_match (seq_re (map Chr w @ [End_z])) p = (if p = w then Some ([], []) else None)"
  by (auto simp: py_match_def bt_seq_lits)

lemma py_match_run_end_route:
  "py_match (seq_re (map Chr w @ [Grp n (Plus (Cls k)), End_z])) p =
     (let q = drop (length w) p
      in if take (length w) p = w \<and> q \<noteq> [] \<and> list_all (class_ok k) q
         then Some ([], [(n, q)]) else None)"
proof -
  have seq: "seq_re [Grp n (Plus (Cls k)), End_z] = Cat (Grp n (Plus (Cls k))) (Cat End_z Eps)"
    by simp
  show ?thesis
    unfolding py_match_def bt_seq_lits seq bt_segment_end by (simp add: Let_def)
qed

lemma py_match_any_dollar_route:
  "py_match (seq_re (map Chr w @ [Grp n (Star (Cls Dot)), Dollar])) p =
     (let q = drop (length w) p; x = takeWhile (class_ok Dot) q; e = drop (length x) q
      in if take (length w) p = w \<and> (e = [] \<or> e = [nl]) then Some (e, [(n, x)]) else None)"
proof -
  have seq: "seq_re [Grp n (Star (Cls Dot)), Dollar] = Cat (Grp n (Star (Cls Dot))) (Cat Dollar Eps)"
    by simp
  have dot: "\<not> class_ok Dot nl" by simp
  have take_run: "take (length (takeWhile P q)) q = takeWhile P q" for P q
    by (simp add: takeWhile_eq_take [symmetric])
  show ?thesis
    unfolding py_match_def bt_seq_lits seq bt_run_dollar [OF dot]
    by (auto simp: Let_def take_run)
qed

end
