(* ===== verification/Ws_Routing.thy ===== *)
theory Ws_Routing
  imports Regex
begin

text \<open>
  The websocket routes of \<open>src/vectorc2/space/routing.py\<close>: the list
  \<open>websocket_urlpatterns\<close> of two \<open>url()\<close> patterns, each sending a path to a consumer
  class of \<open>space/consumers.py\<close>, and the Channels \<open>URLRouter\<close> that
  \<open>src/vectorc2/vectorc2/routing.py\<close> builds over them. \<open>URLRouter\<close> strips the leading
  slashes of the path, tries the patterns in order with \<open>regex.search\<close> (which for
  these \<open>^\<close>-anchored patterns is \<open>re.match\<close>), and calls the first consumer whose
  pattern matches with \<open>path_remaining\<close> (the unmatched rest of the path) and
  \<open>url_route['kwargs']\<close> (the named groups) added to the scope; if none matches it raises
  \<open>ValueError("No route found for path ...")\<close>.
\<close>

datatype consumer = SpaceConsumer | StateConsumer

text \<open>\<open>url(regex, consumer)\<close>: a regex route, kept as the source writes it.\<close>

definition websocket_urlpatterns :: "(string \<times> consumer) list" where
  "websocket_urlpatterns =
     [(''^ws/space/(?P<space_name>[^/]+)/$'', SpaceConsumer),
      (''^ws/vector/state/$'', StateConsumer)]"

datatype ws_error = No_route string | Bad_regex string

text \<open>What a successful route passes on: the consumer, \<open>path_remaining\<close> and the kwargs.\<close>

type_synonym ws_match = "consumer \<times> string \<times> captures"

fun route_list :: "(string \<times> consumer) list \<Rightarrow> string \<Rightarrow> ws_error + ws_match" where
  "route_list [] p = Inl (No_route p)"
| "route_list ((pat, c) # rs) p =
     (case re_compile pat of
        None \<Rightarrow> Inl (Bad_regex pat)
      | Some r \<Rightarrow>
          (case py_match r p of
             None \<Rightarrow> route_list rs p
           | Some (rest, kw) \<Rightarrow> Inr (c, rest, kw)))"

definition url_router :: "(string \<times> consumer) list \<Rightarrow> string \<Rightarrow> ws_error + ws_match" where
  "url_router routes path = route_list routes (dropWhile (\<lambda>c. c = CHR ''/'') path)"

subsection \<open>What the websocket routes accept\<close>

text \<open>
  The routing contract, written over the path: after the leading slashes, either
  \<open>ws/space/\<close>, a non-empty segment without \<open>/\<close> (the space name), \<open>/\<close> and the end
  of the path or a final newline (which \<open>$\<close> admits), or exactly
  \<open>ws/vector/state/\<close> with the same ending.
\<close>

definition ws_spec :: "string \<Rightarrow> ws_error + ws_match" where
  "ws_spec path =
     (let p = dropWhile (\<lambda>c. c = CHR ''/'') path;
          q = drop 9 p;
          name = takeWhile (\<lambda>c. c \<noteq> CHR ''/'') q;
          tail = drop (Suc (length name)) q
      in if take 9 p = ''ws/space/'' \<and> name \<noteq> [] \<and> length name < length q
            \<and> (tail = [] \<or> tail = [nl])
         then Inr (SpaceConsumer, tail, [(''space_name'', name)])
         else if p = ''ws/vector/state/'' \<or> p = ''ws/vector/state/'' @ [nl]
         then Inr (StateConsumer, drop 16 p, [])
         else Inl (No_route p))"

lemma space_regex:
  "re_compile ''^ws/space/(?P<space_name>[^/]+)/$'' =
     Some (seq_re (map Chr ''ws/space/''
                   @ [Grp ''space_name'' (Plus (Cls (NotChar CHR ''/''))), Chr CHR ''/'', Dollar]))"
  by (simp add: re_compile_def parse_quant_def re_special_def re_escaped_def)

lemma state_regex:
  "re_compile ''^ws/vector/state/$'' = Some (seq_re (map Chr ''ws/vector/state/'' @ [Dollar]))"
  by (simp add: re_compile_def parse_quant_def re_special_def re_escaped_def)

lemma route_list_websocket:
  "route_list websocket_urlpatterns p =
     (case py_match (seq_re (map Chr ''ws/space/''
                     @ [Grp ''space_name'' (Plus (Cls (NotChar CHR ''/''))), Chr CHR ''/'', Dollar])) p of
        Some (rest, kw) \<Rightarrow> Inr (SpaceConsumer, rest, kw)
      | None \<Rightarrow>
          (case py_match (seq_re (map Chr ''ws/vector/state/'' @ [Dollar])) p of
             Some (rest, kw) \<Rightarrow> Inr (StateConsumer, rest, kw)
           | None \<Rightarrow> Inl (No_route p)))"
  by (simp add: websocket_urlpatterns_def space_regex state_regex split: option.splits)

lemma space_prefix_len: "length ''ws/space/'' = 9"
  by simp

lemma state_path_len: "length ''ws/vector/state/'' = 16"
  by simp

lemma state_path_not_space: "p = ''ws/vector/state/'' \<or> p = ''ws/vector/state/'' @ [nl] \<Longrightarrow>
  take 9 p \<noteq> ''ws/space/''"
  by auto

lemma url_router_ws:
  "url_router websocket_urlpatterns path = ws_spec path"
  unfolding url_router_def ws_spec_def route_list_websocket
    py_match_segment_route [of "''ws/space/''", unfolded space_prefix_len]
    py_match_literal_route [of "''ws/vector/state/''", unfolded state_path_len]
  by (auto simp: Let_def class_ok_NotChar_fun dest: state_path_not_space)

lemma route_list_websocket_rev:
  "route_list (rev websocket_urlpatterns) p =
     (case py_match (seq_re (map Chr ''ws/vector/state/'' @ [Dollar])) p of
        Some (rest, kw) \<Rightarrow> Inr (StateConsumer, rest, kw)
      | None \<Rightarrow>
          (case py_match (seq_re (map Chr ''ws/space/''
                     @ [Grp ''space_name'' (Plus (Cls (NotChar CHR ''/''))), Chr CHR ''/'', Dollar])) p of
             Some (rest, kw) \<Rightarrow> Inr (SpaceConsumer, rest, kw)
           | None \<Rightarrow> Inl (No_route p)))"
  by (simp add: websocket_urlpatterns_def space_regex state_regex split: option.splits)

subsection \<open>Properties of the websocket routes\<close>

text \<open>C32: The Channels router over the two patterns of space/routing.py implements the routing contract ws_spec on every path.\<close>

theorem websocket_routes_refine: "url_router websocket_urlpatterns = ws_spec"
  by (rule ext) (rule url_router_ws)

text \<open>C33: A path /ws/space/NAME/ with a non-empty NAME without a slash routes to SpaceConsumer with space_name NAME when nothing but an optional final newline follows, and to no route otherwise.\<close>

theorem space_route:
  "name \<noteq> [] \<Longrightarrow> CHR ''/'' \<notin> set name \<Longrightarrow>
   url_router websocket_urlpatterns (''/ws/space/'' @ name @ ''/'' @ more) =
     (if more = [] \<or> more = [nl] then Inr (SpaceConsumer, more, [(''space_name'', name)])
      else Inl (No_route (''ws/space/'' @ name @ ''/'' @ more)))"
proof -
  assume name: "name \<noteq> []" "CHR ''/'' \<notin> set name"
  have p: "dropWhile (\<lambda>c. c = CHR ''/'') (''/ws/space/'' @ name @ ''/'' @ more)
           = ''ws/space/'' @ name @ ''/'' @ more" by simp
  have q: "drop 9 (''ws/space/'' @ name @ ''/'' @ more) = name @ ''/'' @ more" by simp
  have t: "take 9 (''ws/space/'' @ name @ ''/'' @ more) = ''ws/space/''" by simp
  have "takeWhile (\<lambda>c. c \<noteq> CHR ''/'') (name @ ''/'' @ more)
        = name @ takeWhile (\<lambda>c. c \<noteq> CHR ''/'') (''/'' @ more)"
    using name(2) by (intro takeWhile_append2) auto
  then have tw: "takeWhile (\<lambda>c. c \<noteq> CHR ''/'') (name @ ''/'' @ more) = name" by simp
  have tail: "drop (Suc (length name)) (name @ ''/'' @ more) = more" by simp
  show ?thesis
    unfolding url_router_ws ws_spec_def Let_def p q t tw tail
    using name by simp
qed


text \<open>C35: The two websocket patterns accept disjoint paths, so routing does not depend on their order in websocket_urlpatterns.\<close>

theorem websocket_route_order:
  "url_router (rev websocket_urlpatterns) path = url_router websocket_urlpatterns path"
  unfolding url_router_def route_list_websocket route_list_websocket_rev
    py_match_segment_route [of "''ws/space/''", unfolded space_prefix_len]
    py_match_literal_route [of "''ws/vector/state/''", unfolded state_path_len]
  by (auto simp: Let_def dest: state_path_not_space)

end
