(* ===== verification/Django_Urls.thy ===== *)
theory Django_Urls
  imports Regex
begin

text \<open>
  The HTTP URL configuration: \<open>src/vectorc2/vectorc2/urls.py\<close> (the root
  \<open>urlpatterns\<close>, which include the i18n, admin, webview, photos and space URL confs)
  and \<open>src/vectorc2/photos/urls.py\<close> (the photo REST endpoints and the
  \<open>static()\<close> media route), over a model of Django's resolver: \<open>path()\<close> compiles its
  route string into a regex (\<open>_route_to_regex\<close>), an endpoint route must match the
  whole remaining path (\<open>\Z\<close>), an \<open>include()\<close>d conf receives what its prefix left,
  the patterns of a conf are tried in order, and the named groups are converted by the
  path converters. The URL confs that are not under \<open>src/\<close> (\<open>webview.urls\<close>,
  \<open>space.urls\<close>, \<open>admin.site.urls\<close>) are parameters of the model.
\<close>

subsection \<open>Path converters\<close>

datatype converter = Int_converter | Str_converter | Slug_converter | Path_converter

fun converter_regex :: "converter \<Rightarrow> string" where
  "converter_regex Int_converter = ''[0-9]+''"
| "converter_regex Str_converter = ''[^/]+''"
| "converter_regex Slug_converter = ''[-a-zA-Z0-9_]+''"
| "converter_regex Path_converter = ''.+''"

definition get_converter :: "string \<Rightarrow> converter option" where
  "get_converter n =
     (if n = ''int'' then Some Int_converter
      else if n = ''str'' then Some Str_converter
      else if n = ''slug'' then Some Slug_converter
      else if n = ''path'' then Some Path_converter
      else None)"

datatype kwval = KStr string | KInt int

type_synonym kwargs = "(string \<times> kwval) list"

text \<open>\<open>int(s)\<close> of a string of decimal digits, and \<open>str(n)\<close> of a natural number.\<close>

definition digits_value :: "string \<Rightarrow> nat" where
  "digits_value s = foldl (\<lambda>n c. 10 * n + (of_char c - 48)) 0 s"

fun nat_digits :: "nat \<Rightarrow> string" where
  "nat_digits n =
     (if n < 10 then [char_of (48 + n)] else nat_digits (n div 10) @ [char_of (48 + n mod 10)])"

declare nat_digits.simps [simp del]

text \<open>\<open>to_python\<close>; \<open>IntConverter.to_python\<close> is \<open>int(value)\<close>, which raises on a non-digit.\<close>

fun to_python :: "converter \<Rightarrow> string \<Rightarrow> kwval option" where
  "to_python Int_converter s =
     (if s \<noteq> [] \<and> list_all is_digit s then Some (KInt (int (digits_value s))) else None)"
| "to_python Str_converter s = Some (KStr s)"
| "to_python Slug_converter s = Some (KStr s)"
| "to_python Path_converter s = Some (KStr s)"

text \<open>\<open>IntConverter.to_url\<close>: \<open>str(value)\<close>.\<close>

definition int_to_url :: "nat \<Rightarrow> string" where
  "int_to_url n = nat_digits n"

subsection \<open>Route strings (\<open>django.urls.resolvers._route_to_regex\<close>)\<close>

definition is_word_char :: "char \<Rightarrow> bool" where
  "is_word_char c \<longleftrightarrow> is_digit c \<or> is_ascii_letter c \<or> c = CHR ''_''"

text \<open>
  The text between \<open><\<close> and \<open>>\<close>: an optional converter name and \<open>:\<close>, then the
  parameter, which must be an identifier; the converter defaults to \<open>str\<close>.
  \<open>None\<close> is Django's \<open>ImproperlyConfigured\<close>.
\<close>

definition parse_component :: "string \<Rightarrow> (string \<times> converter) option" where
  "parse_component inner =
     (let raw = (if CHR '':'' \<in> set inner then takeWhile (\<lambda>c. c \<noteq> CHR '':'') inner else ''str'');
          param = (if CHR '':'' \<in> set inner then tl (dropWhile (\<lambda>c. c \<noteq> CHR '':'') inner) else inner)
      in if raw = [] \<or> param = [] \<or> \<not> list_all is_word_char param \<or> is_digit (hd param) then None
         else map_option (Pair param) (get_converter raw))"

text \<open>
  The loop of \<open>_route_to_regex\<close>: the text before the next \<open><\<close> is \<open>re.escape\<close>d, a
  component becomes \<open>(?P<parameter>converter.regex)\<close>, and the converters are
  collected by parameter.
\<close>

function route_parts :: "string \<Rightarrow> (string \<times> (string \<times> converter) list) option" where
  "route_parts [] = Some ([], [])"
| "route_parts (c # cs) =
     (let route = c # cs;
          lit = takeWhile (\<lambda>x. x \<noteq> CHR ''<'') route;
          after = drop (length lit) route
      in if after = [] then Some (re_escape route, [])
         else
           (let inner = takeWhile (\<lambda>x. x \<noteq> CHR ''>'') (tl after);
                rest = drop (Suc (length inner)) (tl after)
            in if length inner = length (tl after) then None
               else
                 (case parse_component inner of
                    None \<Rightarrow> None
                  | Some (param, cv) \<Rightarrow>
                      (case route_parts rest of
                         None \<Rightarrow> None
                       | Some (rx, convs) \<Rightarrow>
                           Some (re_escape lit @ ''(?P<'' @ param @ ''>'' @ converter_regex cv @ '')'' @ rx,
                                 (param, cv) # convs)))))"
  by pat_completeness auto
termination
  by (relation "measure length") (auto simp: Let_def)

definition route_to_regex :: "string \<Rightarrow> bool \<Rightarrow> (string \<times> (string \<times> converter) list) option" where
  "route_to_regex route is_endpoint =
     map_option (\<lambda>(rx, convs). (''^'' @ rx @ (if is_endpoint then [bslash, CHR ''Z''] else []), convs))
       (route_parts route)"

subsection \<open>Patterns, URL confs and resolution\<close>

text \<open>\<open>RoutePattern(route, is_endpoint)\<close> of \<open>path()\<close> and \<open>RegexPattern(regex)\<close> of \<open>re_path()\<close>.\<close>

datatype pattern = Route_pattern string bool | Regex_pattern string

datatype url_error = Improperly_configured string | Bad_regex string

text \<open>
  The views the URL confs name: those of \<open>photos.views\<close>, Django's static \<open>serve\<close> and
  \<open>set_language\<close>, and a view of one of the URL confs that are not under \<open>src/\<close>.
\<close>

datatype view =
    Photo_view | Thumbnail_view | Count_view | Serve_view | Set_language_view
  | External_view string

text \<open>\<open>URLPattern(pattern, callback, default_args)\<close> and \<open>URLResolver(pattern, url_patterns)\<close>.\<close>

datatype url_entry =
    Url_pattern pattern view kwargs
  | Url_resolver pattern "url_entry list"

definition path :: "string \<Rightarrow> view \<Rightarrow> url_entry" where
  "path route v = Url_pattern (Route_pattern route True) v []"

definition path_include :: "string \<Rightarrow> url_entry list \<Rightarrow> url_entry" where
  "path_include route urls = Url_resolver (Route_pattern route False) urls"

definition re_path :: "string \<Rightarrow> view \<Rightarrow> kwargs \<Rightarrow> url_entry" where
  "re_path rx v kw = Url_pattern (Regex_pattern rx) v kw"

text \<open>Applying the converters to the named groups (\<open>RoutePattern.match\<close>).\<close>

fun convert_kwargs :: "(string \<times> converter) list \<Rightarrow> captures \<Rightarrow> kwargs option" where
  "convert_kwargs convs [] = Some []"
| "convert_kwargs convs ((n, v) # caps) =
     (case map_of convs n of
        None \<Rightarrow> None
      | Some cv \<Rightarrow>
          (case to_python cv v of
             None \<Rightarrow> None
           | Some x \<Rightarrow> map_option (Cons (n, x)) (convert_kwargs convs caps)))"

text \<open>
  \<open>pattern.match(path)\<close>: \<open>None\<close> inside \<open>Inr\<close> when the pattern does not match (or a
  converter raises \<open>ValueError\<close>), otherwise the rest of the path and the kwargs.
\<close>

definition pattern_match :: "pattern \<Rightarrow> string \<Rightarrow> url_error + (string \<times> kwargs) option" where
  "pattern_match pat p =
     (case pat of
        Route_pattern route ep \<Rightarrow>
          (case route_to_regex route ep of
             None \<Rightarrow> Inl (Improperly_configured route)
           | Some (rx, convs) \<Rightarrow>
               (case re_compile rx of
                  None \<Rightarrow> Inl (Bad_regex rx)
                | Some r \<Rightarrow>
                    (case py_match r p of
                       None \<Rightarrow> Inr None
                     | Some (rest, caps) \<Rightarrow> Inr (map_option (Pair rest) (convert_kwargs convs caps)))))
      | Regex_pattern rx \<Rightarrow>
          (case re_compile rx of
             None \<Rightarrow> Inl (Bad_regex rx)
           | Some r \<Rightarrow>
               (case py_match r p of
                  None \<Rightarrow> Inr None
                | Some (rest, caps) \<Rightarrow> Inr (Some (rest, map (\<lambda>(n, v). (n, KStr v)) caps)))))"

text \<open>
  \<open>URLPattern.resolve\<close> (the default arguments override the captured ones) and
  \<open>URLResolver.resolve\<close> (the first sub-pattern that resolves the rest of the path
  wins; a \<open>Resolver404\<close> of one is caught and the next is tried; the kwargs of the
  inner match override those of the prefix). A Python dict is an association list
  here whose first entry for a key wins.
\<close>

primrec resolve_entry :: "url_entry \<Rightarrow> string \<Rightarrow> url_error + (view \<times> kwargs) option"
  and resolve_entries :: "url_entry list \<Rightarrow> string \<Rightarrow> url_error + (view \<times> kwargs) option" where
  "resolve_entry (Url_pattern pat v dflt) p =
     (case pattern_match pat p of
        Inl e \<Rightarrow> Inl e
      | Inr None \<Rightarrow> Inr None
      | Inr (Some (rest, kw)) \<Rightarrow> Inr (Some (v, dflt @ kw)))"
| "resolve_entry (Url_resolver pat subs) p =
     (case pattern_match pat p of
        Inl e \<Rightarrow> Inl e
      | Inr None \<Rightarrow> Inr None
      | Inr (Some (rest, kw)) \<Rightarrow>
          (case resolve_entries subs rest of
             Inl e \<Rightarrow> Inl e
           | Inr None \<Rightarrow> Inr None
           | Inr (Some (v, kw')) \<Rightarrow> Inr (Some (v, kw' @ kw))))"
| "resolve_entries [] p = Inr None"
| "resolve_entries (e # es) p =
     (case resolve_entry e p of
        Inl err \<Rightarrow> Inl err
      | Inr None \<Rightarrow> resolve_entries es p
      | Inr (Some m) \<Rightarrow> Inr (Some m))"

subsection \<open>The URL confs\<close>

record settings =
  debug :: bool
  media_url :: string
  media_root :: string

record external_urls =
  admin_urls :: "url_entry list"
  webview_urls :: "url_entry list"
  space_urls :: "url_entry list"

text \<open>\<open>django.conf.urls.i18n.urlpatterns\<close>.\<close>

definition i18n_urlpatterns :: "url_entry list" where
  "i18n_urlpatterns = [path ''setlang/'' Set_language_view]"

text \<open>
  \<open>urlsplit(prefix).netloc\<close> is non-empty: after an optional scheme the prefix starts
  with \<open>//\<close>.
\<close>

definition url_has_netloc :: "string \<Rightarrow> bool" where
  "url_has_netloc prefix =
     (let scheme = takeWhile (\<lambda>c. c \<noteq> CHR '':'') prefix;
          rest = (if scheme \<noteq> [] \<and> scheme \<noteq> prefix \<and> is_ascii_letter (hd scheme)
                     \<and> list_all (\<lambda>c. is_word_char c \<and> c \<noteq> CHR ''_'' \<or> c \<in> set ''+-.'') scheme
                  then drop (Suc (length scheme)) prefix else prefix)
      in take 2 rest = ''//'')"

text \<open>
  \<open>django.conf.urls.static.static(prefix, document_root=...)\<close>: an empty prefix is an
  error; outside \<open>DEBUG\<close>, or for a prefix with a host, no pattern; otherwise one
  \<open>re_path\<close> that serves \<open>prefix\<close> (without its leading slashes) followed by any path.
\<close>

definition static :: "settings \<Rightarrow> string \<Rightarrow> url_entry list option" where
  "static st prefix =
     (if prefix = [] then None
      else if \<not> debug st \<or> url_has_netloc prefix then Some []
      else Some [re_path (''^'' @ re_escape (dropWhile (\<lambda>c. c = CHR ''/'') prefix) @ ''(?P<path>.*)$'')
                   Serve_view [(''document_root'', KStr (media_root st))]])"

text \<open>\<open>photos/urls.py\<close>: four routes, then \<open>static(settings.MEDIA_URL, ...)\<close>.\<close>

definition photos_routes :: "url_entry list" where
  "photos_routes =
     [path '''' Photo_view,
      path ''<int:id>'' Photo_view,
      path ''thumbnail/<int:id>'' Thumbnail_view,
      path ''count'' Count_view]"

definition photos_urlpatterns :: "settings \<Rightarrow> url_entry list option" where
  "photos_urlpatterns st = map_option (\<lambda>media. photos_routes @ media) (static st (media_url st))"

text \<open>\<open>vectorc2/urls.py\<close>.\<close>

definition urlpatterns :: "settings \<Rightarrow> external_urls \<Rightarrow> url_entry list option" where
  "urlpatterns st ext =
     map_option (\<lambda>photos.
       [path_include ''i18n/'' i18n_urlpatterns,
        path_include ''admin/'' (admin_urls ext),
        path_include '''' (webview_urls ext),
        path_include ''photos/'' photos,
        path_include ''space/'' (space_urls ext)])
     (photos_urlpatterns st)"

text \<open>
  \<open>django.urls.resolve(path)\<close> with \<open>ROOT_URLCONF = 'vectorc2.urls'\<close>: the root resolver
  matches \<open>^/\<close> and hands the rest to the root conf. Importing the conf raises when
  \<open>static()\<close> does.
\<close>

definition django_resolve :: "settings \<Rightarrow> external_urls \<Rightarrow> string \<Rightarrow> url_error + (view \<times> kwargs) option" where
  "django_resolve st ext p =
     (case urlpatterns st ext of
        None \<Rightarrow> Inl (Improperly_configured ''Empty static prefix not permitted'')
      | Some ups \<Rightarrow> resolve_entry (Url_resolver (Regex_pattern ''^/'') ups) p)"

text \<open>A route text with no character \<open>re.escape\<close> changes and no \<open><\<close> stands for itself.\<close>

definition plain :: "string \<Rightarrow> bool" where
  "plain w \<longleftrightarrow> list_all (\<lambda>c. c \<notin> set re_escaped \<and> c \<noteq> CHR ''<'') w"

subsection \<open>Compiling the routes of the URL confs\<close>

lemma plain_Nil [simp]: "plain []"
  by (simp add: plain_def)

lemma plain_Cons [simp]: "plain (c # w) \<longleftrightarrow> c \<notin> set re_escaped \<and> c \<noteq> CHR ''<'' \<and> plain w"
  by (simp add: plain_def)

lemma re_escape_Nil [simp]: "re_escape [] = []"
  by (simp add: re_escape_def)

lemma re_escape_plain: "plain w \<Longrightarrow> re_escape w = w"
  by (induction w) (simp_all add: re_escape_def)

lemma route_parts_plain: "plain w \<Longrightarrow> route_parts w = Some (w, [])"
proof (cases w)
  case (Cons c cs)
  assume "plain w"
  then have tw: "takeWhile (\<lambda>x. x \<noteq> CHR ''<'') (c # cs) = c # cs"
    using Cons by (simp add: takeWhile_eq_all_conv plain_def list_all_iff)
  show ?thesis
    unfolding Cons route_parts.simps(2) Let_def tw
    using Cons \<open>plain w\<close> by (simp add: re_escape_plain)
qed simp

lemma special_escaped: "c \<in> set re_special \<Longrightarrow> c \<in> set re_escaped"
  by (auto simp: re_special_def re_escaped_def)

lemma parse_seq_plain:
  "plain w \<Longrightarrow> rest = [] \<or> (hd rest \<noteq> CHR ''+'' \<and> hd rest \<noteq> CHR ''*'') \<Longrightarrow>
   parse_seq (w @ rest) = map_option ((@) (map Chr w)) (parse_seq rest)"
proof (induction w)
  case Nil
  then show ?case by (simp add: option.map_ident)
next
  case (Cons c w)
  then have c: "c \<notin> set re_escaped" "c \<noteq> CHR ''<''" by simp_all
  then have atom: "parse_atom (c # w @ rest) = Some (Chr c, w @ rest)"
    using special_escaped [of c] by (auto simp: re_escaped_def)
  have "w @ rest = [] \<or> (hd (w @ rest) \<noteq> CHR ''+'' \<and> hd (w @ rest) \<noteq> CHR ''*'')"
    using Cons.prems by (cases w) (auto simp: re_escaped_def)
  then have quant: "parse_quant (Chr c) (w @ rest) = Some (Chr c, w @ rest)"
    by (auto simp: parse_quant_def)
  from Cons show ?case
    by (simp add: atom quant del: parse_atom.simps split: option.splits)
qed

lemma re_compile_plain: "plain w \<Longrightarrow> re_compile (CHR ''^'' # w) = Some (seq_re (map Chr w))"
  using parse_seq_plain [of w "[]"] by (simp add: re_compile_def)

lemma route_parts_plain_int:
  "plain w \<Longrightarrow> route_parts (w @ ''<int:id>'') = Some (w @ ''(?P<id>[0-9]+)'', [(''id'', Int_converter)])"
proof (cases w)
  case Nil
  then show ?thesis
    by (simp add: parse_component_def get_converter_def is_word_char_def is_digit_def
                  is_ascii_letter_def re_escape_def)
next
  case (Cons c cs)
  assume "plain w"
  then have tw: "takeWhile (\<lambda>x. x \<noteq> CHR ''<'') (c # cs @ ''<int:id>'') = c # cs"
    using Cons by (simp add: takeWhile_append2 plain_def list_all_iff)
  show ?thesis
    unfolding Cons append_Cons route_parts.simps(2) Let_def tw
    using Cons \<open>plain w\<close>
    by (simp add: re_escape_plain parse_component_def get_converter_def
                  is_word_char_def is_digit_def is_ascii_letter_def)
qed

text \<open>The three kinds of \<open>path()\<close> the URL confs use: a prefix of an \<open>include()\<close>, an
  endpoint without parameter, and an endpoint ending in \<open><int:id>\<close>.\<close>

lemma match_include:
  assumes "plain w"
  shows "pattern_match (Route_pattern w False) p =
     (if take (length w) p = w then Inr (Some (drop (length w) p, [])) else Inr None)"
proof -
  have "route_to_regex w False = Some (CHR ''^'' # w, [])"
    using assms by (simp add: route_to_regex_def route_parts_plain)
  with assms show ?thesis
    by (simp add: pattern_match_def re_compile_plain py_match_prefix_route)
qed

lemma match_endpoint:
  assumes "plain w"
  shows "pattern_match (Route_pattern w True) p =
     (if p = w then Inr (Some ([], [])) else Inr None)"
proof -
  define rx where "rx = CHR ''^'' # w @ [bslash, CHR ''Z'']"
  have rtr: "route_to_regex w True = Some (rx, [])"
    using assms by (simp add: route_to_regex_def route_parts_plain rx_def)
  have rc: "re_compile rx = Some (seq_re (map Chr w @ [End_z]))"
    using assms parse_seq_plain [of w "[bslash, CHR ''Z'']"]
    by (simp add: rx_def re_compile_def parse_quant_def)
  show ?thesis
    by (simp add: pattern_match_def rtr rc py_match_exact_route)
qed

lemma match_int_endpoint:
  assumes "plain w"
  shows "pattern_match (Route_pattern (w @ ''<int:id>'') True) p =
     (let q = drop (length w) p
      in if take (length w) p = w \<and> q \<noteq> [] \<and> list_all is_digit q
         then Inr (Some ([], [(''id'', KInt (int (digits_value q)))])) else Inr None)"
proof -
  define rx where "rx = CHR ''^'' # w @ ''(?P<id>[0-9]+)'' @ [bslash, CHR ''Z'']"
  have rtr: "route_to_regex (w @ ''<int:id>'') True = Some (rx, [(''id'', Int_converter)])"
    using assms by (simp add: route_to_regex_def route_parts_plain_int rx_def)
  have rc: "re_compile rx = Some (seq_re (map Chr w @ [Grp ''id'' (Plus (Cls Digit)), End_z]))"
    using assms parse_seq_plain [of w "''(?P<id>[0-9]+)'' @ [bslash, CHR ''Z'']"]
    by (simp add: rx_def re_compile_def parse_quant_def re_special_def re_escaped_def)
  show ?thesis
    by (simp add: pattern_match_def rtr rc py_match_run_end_route Let_def class_ok_Digit_fun)
qed

subsection \<open>Numbers in URLs\<close>

lemma digit_char: "(d::nat) < 10 \<Longrightarrow> of_char (char_of (48 + d) :: char) = 48 + d"
  by (simp add: of_char_of)

lemma nat_digits_ne: "nat_digits n \<noteq> []"
  by (subst nat_digits.simps) simp

lemma nat_digits_digits: "list_all is_digit (nat_digits n)"
proof (induction n rule: nat_digits.induct)
  case (1 n)
  have dig: "d < 10 \<Longrightarrow> is_digit (char_of (48 + d))" for d :: nat
    by (simp add: is_digit_def digit_char)
  show ?case
  proof (cases "n < 10")
    case True
    then show ?thesis by (subst nat_digits.simps) (simp add: dig)
  next
    case False
    with "1.IH" show ?thesis by (subst nat_digits.simps) (simp add: dig)
  qed
qed

lemma digits_value_snoc: "digits_value (xs @ [c]) = 10 * digits_value xs + (of_char c - 48)"
  by (simp add: digits_value_def)

text \<open>\<open>int(str(n)) = n\<close>: the digits of a number read back as the number.\<close>

lemma digits_value_nat_digits: "digits_value (nat_digits n) = n"
proof (induction n rule: nat_digits.induct)
  case (1 n)
  show ?case
  proof (cases "n < 10")
    case True
    then show ?thesis by (subst nat_digits.simps) (simp add: digits_value_def digit_char)
  next
    case False
    then have "digits_value (nat_digits n) = 10 * (n div 10) + n mod 10"
      using "1.IH" by (subst nat_digits.simps) (simp add: digits_value_snoc digit_char)
    then show ?thesis by simp
  qed
qed

subsection \<open>Resolving the photo URLs\<close>

lemma thumbnail_len: "length ''thumbnail/'' = 10"
  by simp

lemma plain_thumbnail: "plain ''thumbnail/''"
  by (simp add: re_escaped_def)

lemma plain_count: "plain ''count''"
  by (simp add: re_escaped_def)

lemmas match_photo_list = match_endpoint [OF plain_Nil]
lemmas match_count = match_endpoint [OF plain_count]
lemmas match_photo_id = match_int_endpoint [OF plain_Nil, unfolded append_Nil]
lemmas match_thumbnail =
  match_int_endpoint [OF plain_thumbnail, unfolded thumbnail_len append_Cons append_Nil]

text \<open>What the four routes of \<open>photos/urls.py\<close> accept, in their order, before the media route.\<close>

lemma resolve_photos_routes:
  "resolve_entries (photos_routes @ media) q =
     (if q = [] then Inr (Some (Photo_view, []))
      else if list_all is_digit q then Inr (Some (Photo_view, [(''id'', KInt (int (digits_value q)))]))
      else if take 10 q = ''thumbnail/'' \<and> drop 10 q \<noteq> [] \<and> list_all is_digit (drop 10 q)
      then Inr (Some (Thumbnail_view, [(''id'', KInt (int (digits_value (drop 10 q))))]))
      else if q = ''count'' then Inr (Some (Count_view, []))
      else resolve_entries media q)"
  by (simp add: photos_routes_def path_def match_photo_list match_count match_photo_id
                match_thumbnail Let_def is_digit_def)

subsection \<open>Resolving through the root URL conf\<close>

lemma plain_prefixes: "plain ''i18n/''" "plain ''admin/''" "plain ''photos/''" "plain ''space/''"
  by (simp_all add: re_escaped_def)

lemmas match_prefixes =
  match_include [OF plain_Nil] match_include [OF plain_prefixes(1)]
  match_include [OF plain_prefixes(2)] match_include [OF plain_prefixes(3)]
  match_include [OF plain_prefixes(4)]

lemma match_root:
  "pattern_match (Regex_pattern ''^/'') p =
     (if take 1 p = ''/'' then Inr (Some (drop 1 p, [])) else Inr None)"
proof -
  have "re_compile ''^/'' = Some (seq_re (map Chr ''/''))"
    by (simp add: re_compile_def parse_quant_def re_special_def)
  then show ?thesis
    using py_match_prefix_route [of "''/''" p] by (simp add: pattern_match_def)
qed

lemma static_media:
  "static st ''/media/'' =
     Some (if debug st
           then [re_path ''^media/(?P<path>.*)$'' Serve_view [(''document_root'', KStr (media_root st))]]
           else [])"
  by (simp add: static_def url_has_netloc_def re_escape_def re_escaped_def)

lemma media_len: "length ''media/'' = 6"
  by simp

lemma match_media:
  "pattern_match (Regex_pattern ''^media/(?P<path>.*)$'') q =
     (let r = drop 6 q; x = takeWhile (class_ok Dot) r; e = drop (length x) r
      in if take 6 q = ''media/'' \<and> (e = [] \<or> e = [nl])
         then Inr (Some (e, [(''path'', KStr x)])) else Inr None)"
proof -
  have "re_compile ''^media/(?P<path>.*)$'' =
          Some (seq_re (map Chr ''media/'' @ [Grp ''path'' (Star (Cls Dot)), Dollar]))"
    by (simp add: re_compile_def parse_quant_def re_special_def re_escaped_def)
  then show ?thesis
    using py_match_any_dollar_route [of "''media/''" "''path''" q, unfolded media_len]
    by (simp add: pattern_match_def Let_def split: if_splits)
qed

lemmas resolve_photos_routes_only = resolve_photos_routes [of "[]", unfolded append_Nil2]

lemmas root_eval =
  django_resolve_def urlpatterns_def photos_urlpatterns_def path_include_def match_root
  match_prefixes resolve_photos_routes resolve_photos_routes_only

subsection \<open>Properties of the photo URLs\<close>

text \<open>C31: The catch-all include of webview.urls comes before photos/ in vectorc2/urls.py, so a photo path that the webview conf resolves is served by the webview view, never by the photos conf.\<close>

theorem webview_shadows_photos:
  "media_url st \<noteq> [] \<Longrightarrow> resolve_entries (webview_urls ext) (''photos/'' @ q) = Inr (Some m) \<Longrightarrow>
   django_resolve st ext (''/photos/'' @ q) = Inr (Some m)"
  by (cases m) (simp add: root_eval static_def)

text \<open>C37: For every photo id n, the URL /photos/str(n) that Django's reverse() builds for the photo view resolves back to the photo view with id n, unless the webview URL conf, which the root conf tries first, claims the path.\<close>

theorem photo_url_roundtrip:
  "media_url st \<noteq> [] \<Longrightarrow>
   resolve_entries (webview_urls ext) (''photos/'' @ int_to_url n) = Inr None \<Longrightarrow>
   django_resolve st ext (''/photos/'' @ int_to_url n) = Inr (Some (Photo_view, [(''id'', KInt (int n))]))"
  by (auto simp: root_eval int_to_url_def nat_digits_ne nat_digits_digits digits_value_nat_digits static_def)
text \<open>C38: Because photos/urls.py appends static(settings.MEDIA_URL) to a conf included under photos/, in DEBUG with MEDIA_URL /media/ a media file is served at /photos/media/NAME and the path /media/NAME is not resolved by the URL confs of the repository.\<close>

theorem media_served_under_photos:
  "debug st \<Longrightarrow> media_url st = ''/media/'' \<Longrightarrow> nl \<notin> set x \<Longrightarrow>
   resolve_entries (webview_urls ext) (''media/'' @ x) = Inr None \<Longrightarrow>
   resolve_entries (webview_urls ext) (''photos/media/'' @ x) = Inr None \<Longrightarrow>
   django_resolve st ext (''/media/'' @ x) = Inr None
   \<and> django_resolve st ext (''/photos/media/'' @ x) =
       Inr (Some (Serve_view, [(''document_root'', KStr (media_root st)), (''path'', KStr x)]))"
proof -
  assume "nl \<notin> set x"
  then have tw: "takeWhile (class_ok Dot) x = x" by (auto simp: takeWhile_eq_all_conv)
  assume "debug st" "media_url st = ''/media/''"
    "resolve_entries (webview_urls ext) (''media/'' @ x) = Inr None"
    "resolve_entries (webview_urls ext) (''photos/media/'' @ x) = Inr None"
  with tw show ?thesis
    by (simp add: root_eval static_media re_path_def match_media is_digit_def
             del: takeWhile_eq_all_conv)
qed


end
