(* ===== verification/Asgi_App.thy ===== *)
theory Asgi_App
  imports Ws_Routing Django_Urls
begin

text \<open>
  The ASGI entry point \<open>application\<close> of \<open>src/vectorc2/vectorc2/routing.py\<close>: a Channels
  \<open>ProtocolTypeRouter\<close> that sends \<open>websocket\<close> connections through
  \<open>AuthMiddlewareStack\<close> to the \<open>URLRouter\<close> over \<open>space.routing.websocket_urlpatterns\<close>
  (theory \<open>Ws_Routing\<close>), and, by the default Channels adds for a missing \<open>http\<close> key,
  HTTP requests to Django's \<open>AsgiHandler\<close>, which resolves the path against
  \<open>vectorc2.urls\<close> (theory \<open>Django_Urls\<close>). A connection scope carries its type, its path
  and its cookies; what the application reaches is the consumer or the view it
  calls, with the arguments the routers add to the scope.
\<close>

text \<open>
  The user \<open>AuthMiddleware\<close> puts in the scope: a lazy object that loads the user of the
  session whose key the session cookie holds.
\<close>

datatype user_ref = Session_user "string option"

record scope =
  scope_type :: string
  scope_path :: string
  scope_cookies :: "(string \<times> string) list"
  scope_user :: "user_ref option"

text \<open>
  What a connection reaches: a websocket consumer with \<open>path_remaining\<close>, the
  \<open>url_route\<close> kwargs and the scope's user, or a view with its kwargs, or Django's 404
  response when no URL pattern resolves the path.
\<close>

datatype asgi_target =
    Ws_consumer consumer string captures "user_ref option"
  | Http_view view kwargs
  | Http_not_found

datatype asgi_error =
    No_application string
  | Ws_error ws_error
  | Url_conf_error url_error

type_synonym asgi_app = "scope \<Rightarrow> asgi_error + asgi_target"

text \<open>\<open>URLRouter(routes)\<close> as an ASGI application: route \<open>scope['path']\<close>.\<close>

definition url_router_app :: "(string \<times> consumer) list \<Rightarrow> asgi_app" where
  "url_router_app routes sc =
     (case url_router routes (scope_path sc) of
        Inl e \<Rightarrow> Inl (Ws_error e)
      | Inr (c, rest, kw) \<Rightarrow> Inr (Ws_consumer c rest kw (scope_user sc)))"

text \<open>
  \<open>AuthMiddlewareStack(inner)\<close>, i.e. \<open>CookieMiddleware(SessionMiddleware(AuthMiddleware(inner)))\<close>:
  the inner application sees the scope with the user of the \<open>sessionid\<close> cookie.
\<close>

definition auth_middleware_stack :: "asgi_app \<Rightarrow> asgi_app" where
  "auth_middleware_stack inner sc =
     inner (sc\<lparr>scope_user := Some (Session_user (map_of (scope_cookies sc) ''sessionid''))\<rparr>)"

text \<open>Django's \<open>AsgiHandler\<close>: resolve the request path; \<open>Resolver404\<close> becomes a 404 response.\<close>

definition asgi_handler :: "settings \<Rightarrow> external_urls \<Rightarrow> asgi_app" where
  "asgi_handler st ext sc =
     (case django_resolve st ext (scope_path sc) of
        Inl e \<Rightarrow> Inl (Url_conf_error e)
      | Inr None \<Rightarrow> Inr Http_not_found
      | Inr (Some (v, kw)) \<Rightarrow> Inr (Http_view v kw))"

text \<open>
  \<open>ProtocolTypeRouter(application_mapping)\<close>: the mapping gets \<open>http\<close> to the
  \<open>AsgiHandler\<close> when it has no \<open>http\<close> key; a scope whose type has no application
  raises \<open>ValueError\<close>.
\<close>

definition protocol_type_router ::
  "settings \<Rightarrow> external_urls \<Rightarrow> (string \<times> asgi_app) list \<Rightarrow> asgi_app" where
  "protocol_type_router st ext mapping sc =
     (let m = (if ''http'' \<in> fst ` set mapping then mapping
               else mapping @ [(''http'', asgi_handler st ext)])
      in case map_of m (scope_type sc) of
           None \<Rightarrow> Inl (No_application (scope_type sc))
         | Some app \<Rightarrow> app sc)"

text \<open>\<open>vectorc2/routing.py\<close>.\<close>

definition application :: "settings \<Rightarrow> external_urls \<Rightarrow> asgi_app" where
  "application st ext =
     protocol_type_router st ext
       [(''websocket'', auth_middleware_stack (url_router_app websocket_urlpatterns))]"

subsection \<open>What a connection reaches\<close>


end
