(* ===== verification/Spec2Isabelle.thy ===== *)
theory Spec2Isabelle
  imports Interleave Traces Asgi_App
begin

text \<open>
  \<^bold>\<open>VectorC2 status poller: a verified model.\<close>

  \<^emph>\<open>The program.\<close> \<open>src/vectorc2/command/status.py\<close> holds the one stateful part of
  VectorC2: \<open>VectorStatus\<close>, a process-wide singleton (created by the \<open>Singleton\<close>
  metaclass) that keeps a cached status snapshot of an Anki Vector robot, refreshes it
  on a self-rescheduling one-shot timer, and stops refreshing after ten unattended
  poll cycles. Its methods are \<open>__init__\<close>, \<open>_check_state\<close> (one poll cycle),
  \<open>_stop_refresh\<close> and \<open>_update_refresh\<close> (disarm and arm the timer), \<open>_connect\<close>
  and \<open>_disconnect\<close> (the device session) and the public \<open>read\<close>. Two contexts call
  into the instance: a consumer's \<open>read(consumer, states, frequency)\<close>, and the timer
  thread, whose timer calls \<open>_check_state()\<close>. The remaining files under \<open>src/\<close>
  are the routing tables that bring connections to the code: \<open>vectorc2/routing.py\<close>
  (the ASGI \<open>application\<close>: websocket connections through \<open>AuthMiddlewareStack\<close> to
  the patterns of \<open>space/routing.py\<close>, whose \<open>StateConsumer\<close> calls \<open>read\<close>, and
  HTTP requests to Django) and \<open>vectorc2/urls.py\<close> with \<open>photos/urls.py\<close> (the HTTP
  URL confs). Their behaviour is that of the libraries they configure (Python's
  \<open>re\<close>, Django's resolver, Channels' routers), which is modelled as far as the tables
  use it.

  \<^emph>\<open>The theories, leaves first.\<close>
  \<^item> \<open>Prelude\<close>: \<open>py_int\<close> (Python's \<open>int()\<close> of a number, truncating towards
    zero), \<open>is_py_int\<close>, the collection \<open>world_ops\<close> of operation equations, and
    shared list/map lemmas.
  \<^item> \<open>Config_Store\<close>: \<open>Configuration.get_value\<close>/\<open>set_value\<close> as a finite map
    (modelled from the specification: \<open>command/models.py\<close> is not under \<open>src/\<close>).
  \<^item> \<open>Device\<close>: the robot interface. The sixteen status flags and six metrics of the
    \<open>current\<close> and \<open>robot\<close> sections as datatypes with the source's keys, the battery
    and version records, futures, and \<open>cycle_obs\<close>, everything the device does during
    one poll cycle; \<open>connect\<close> and \<open>disconnect\<close> are \<open>_connect\<close> and
    \<open>_disconnect\<close>; \<open>poll_error\<close> tags the exceptions the cycle catches.
  \<^item> \<open>Fetcher\<close>: the bounded fetch (lines 92--117): \<open>futures.wait\<close> with a 1.5 s
    timeout as \<open>completed_by\<close> and \<open>wait_returns_at\<close>, \<open>fetch_result\<close> for one
    section and \<open>fetch_substates\<close> for both.
  \<^item> \<open>Snapshot\<close>: the snapshot dictionary as a record and \<open>poll_snapshot\<close>, the body
    of the \<open>try\<close> block that builds it (lines 60--117).
  \<^item> \<open>Timers\<close>: the part of \<open>threading.Timer\<close> the code relies on (start, cancel,
    fire; cancelling a finished timer does nothing), over the list of all timers ever
    started, a handle being an index into it.
  \<^item> \<open>World\<close>: the state: the instance's attributes (\<open>_robot\<close>, \<open>_state\<close>,
    \<open>_countdown\<close>, \<open>_frequency\<close>, \<open>_timer\<close>), whether the singleton exists, the timers,
    the configuration store and the device session.
  \<^item> \<open>Scheduler\<close>: \<open>stop_refresh\<close> and \<open>update_refresh\<close> (lines 132--151) and the
    invariant \<open>armed_is_held\<close>: every armed timer is the one the instance holds.
  \<^item> \<open>Poller\<close>: \<open>check_state\<close> = \<open>_check_state\<close>, split into its guard
    (\<open>check_state\<close>, lines 51--56), its \<open>try\<close>/\<open>except\<close> (\<open>poll_cycle\<close>) and its
    \<open>finally\<close> (\<open>check_finally\<close>); \<open>read_frequency\<close> and \<open>read\<close> (lines 171--193);
    \<open>vstatus_init\<close> (lines 36--45) and \<open>singleton_call\<close> (lines 23--28).
  \<^item> \<open>System\<close>: the two calling contexts as \<open>event\<close>s (\<open>Read\<close>: a consumer's
    \<open>VectorStatus().read\<close>; \<open>Fire\<close>: an armed timer firing), \<open>sys_step\<close>, the
    reachable worlds \<open>reach\<close>, and the invariants \<open>poller_inv\<close> and \<open>freq_inv\<close>
    proved by rule induction.
    It also holds \<open>state_wf\<close> (the cached snapshot has the dictionary's shape,
    \<open>snapshot_wf\<close> of \<open>Snapshot\<close>) and \<open>timer_thread\<close>, the timer thread left to
    itself: a \<open>partial_function (option)\<close> loop that fires the held timer as long as
    one is armed.
  \<^item> \<open>Traces\<close>: properties of sequences of events (\<open>run\<close>) of the serialised system.
  \<^item> \<open>Interleave\<close>: the poller without serialisation. \<open>threading.Timer\<close> runs each
    callback on a thread of its own and nothing locks, so \<open>_check_state\<close> is split at
    its three blocking calls: \<open>check_guard\<close> (lines 51--56) decides whether the
    \<open>try\<close> block runs; \<open>try_start\<close> (lines 58--93) connects, builds the dictionary
    with \<open>_meta.frequency\<close> and starts the sub-queries, and the thread blocks in
    \<open>futures.wait\<close> (line 95) with that frequency captured; \<open>try_finish\<close> (lines
    95--120) stores the snapshot built with it or halts; \<open>finally_rearm\<close> (lines
    122--127) re-arms and counts down, and the thread blocks in \<open>_disconnect\<close>
    (line 129); \<open>finally_disconnect\<close> finishes. \<open>check_state_split\<close> and
    \<open>check_try_split\<close> show the pieces compose back to \<open>check_state\<close>. A blocked
    thread is a pair of a \<open>thread\<close> (a timer callback, or a read whose initial
    \<open>_check_state(False)\<close> blocks and which runs the rest of \<open>read\<close>,
    \<open>read_rest\<close>, when it finishes) and a \<open>point\<close> (in \<open>_connect\<close>, in the wait, in
    \<open>_disconnect\<close>); \<open>advance\<close> runs it to its next point. A configuration
    \<open>iconf\<close> is the shared world with the blocked threads; \<open>istep\<close> lets a read
    start, a timer fire or any blocked thread advance; \<open>ireach\<close> is reachability
    from a fresh process.
  \<^item> \<open>Regex\<close>: Python's \<open>re\<close> for the syntax the routes use: patterns \<open>re\<close>,
    the match relation \<open>rmatch\<close> (inductive), the backtracking matcher \<open>bt\<close> that
    lists matches in the order of Python's engine (so \<open>re.match\<close> is
    \<open>py_match\<close>, its first result), \<open>re.escape\<close>, and \<open>re.compile\<close> as the
    parser \<open>re_compile\<close>. \<open>bt_correct\<close>: \<open>bt\<close> finds exactly the matches of
    \<open>rmatch\<close>; the remaining lemmas compute \<open>bt\<close> on the shapes of pattern the
    tables have (a literal, a named segment, a run of a class up to \<open>\Z\<close> or \<open>$\<close>).
  \<^item> \<open>Ws_Routing\<close>: \<open>websocket_urlpatterns\<close> of \<open>space/routing.py\<close> with the
    source's regex strings, Channels' \<open>URLRouter\<close> as \<open>url_router\<close>, and the
    routing contract \<open>ws_spec\<close> written over the path.
  \<^item> \<open>Django_Urls\<close>: Django's resolver (\<open>_route_to_regex\<close> as \<open>route_to_regex\<close>,
    the path converters, \<open>RoutePattern\<close>/\<open>RegexPattern\<close> matching, \<open>URLPattern\<close>
    and \<open>URLResolver\<close> resolution, \<open>static()\<close>), \<open>photos_urlpatterns\<close> of
    \<open>photos/urls.py\<close> and \<open>urlpatterns\<close> of \<open>vectorc2/urls.py\<close> with the
    source's route strings, and \<open>django_resolve\<close> for \<open>ROOT_URLCONF\<close>.
  \<^item> \<open>Asgi_App\<close>: the connection scope, \<open>ProtocolTypeRouter\<close> with its default
    \<open>http\<close> entry, \<open>AuthMiddlewareStack\<close>, Django's \<open>AsgiHandler\<close>, and
    \<open>application\<close> of \<open>vectorc2/routing.py\<close>.
  \<^item> This theory: the specification's two-mode state machine (section 4.1) as
    \<open>spec_step\<close>, the refinement theorem that every step of the model is a run of it,
    and the scenarios of section 8 on concrete inputs.

  \<^emph>\<open>Correspondence.\<close> Each method is a function on \<open>world\<close> that returns the
  updated world; \<open>read\<close> also returns the snapshot it hands to
  \<open>consumer.send_status\<close> (the consumer object is not modelled otherwise; the
  \<open>states\<close> argument is never used by the code and is not an argument of the model).
  Every exception the code raises and catches is a value: an accessor or sub-query that
  raises is \<open>None\<close> in \<open>cycle_obs\<close>, a future that completed by raising has
  \<open>outcome = None\<close>, and \<open>poll_snapshot\<close> returns the tagged \<open>poll_error\<close>.
  A frequency received from a consumer is a Python number, modelled as \<open>rat\<close>;
  the stored frequency and the countdown are Python ints, modelled as \<open>int\<close>.

  \<^emph>\<open>What is proved.\<close>
  \<^item> Bounds and liveness: the countdown stays in \<open>[-1, 10]\<close>; at most ten
    timer-driven poll cycles run between two reads (\<open>unattended_polls_bounded\<close>,
    by the measure \<open>fire_budget\<close>), and with a healthy device exactly
    \<open>countdown\<close> of them run before polling halts (\<open>auto_stop\<close>).
  \<^item> Scheduler safety: at most one timer is armed in every reachable world; with
    integral requests, a positive frequency has exactly one armed timer, firing after
    that frequency, and a non-positive one has none, so no poll cycle can start
    (\<open>active_one_timer\<close>, \<open>idle_no_poll\<close>, \<open>read_arms_one_timer\<close>).
  \<^item> Functional behaviour of every branch of \<open>_check_state\<close>
    (\<open>check_state_outcome\<close>), the halt on a failed disconnect, atomic replacement of
    the snapshot, the error paths of the \<open>try\<close> block, partial completion of the
    bounded fetch and the bound on its wait, and the effect of \<open>read\<close> on countdown,
    frequency, snapshot and timers.
  \<^item> Type and termination: every cached snapshot in a reachable world has the
    source's sixteen flag keys and six metric keys (\<open>snapshot_type_inv\<close>); from every
    reachable world the timer chain returns whatever the device does
    (\<open>timer_thread_terminates\<close>, by induction on \<open>fire_budget\<close>).
  \<^item> Refinement: \<open>poller_refines_spec\<close>; Channels' router over the two websocket
    patterns equals the contract \<open>ws_spec\<close> (\<open>websocket_routes_refine\<close>).
  \<^item> Routing: which paths reach \<open>SpaceConsumer\<close> and with which \<open>space_name\<close>
    (\<open>space_route\<close>), independence of the pattern order
    (\<open>websocket_route_order\<close>), what the ASGI application dispatches each scope to
    (\<open>application_dispatch\<close>), the photo-id round trip \<open>int(str(n)) = n\<close> through
    the URL confs (\<open>photo_url_roundtrip\<close>), exact photo endpoints
    (\<open>photo_url_trailing_slash\<close>), and the shadowing of \<open>photos/\<close> by the
    catch-all webview include that precedes it (\<open>webview_shadows_photos\<close>).
  \<^item> Runs and interleavings: after a cycle whose disconnect fails no timer-driven
    cycle runs before a read (\<open>disconnect_failure_ends_timer_chain\<close>); any run of
    reads with an unchanged frequency keeps the timers (\<open>repeated_reads_keep_timer\<close>);
    while polling is on, the cached snapshot reports the frequency polled at
    (\<open>meta_matches_frequency\<close>, by the invariant \<open>meta_inv\<close>);
    every serialised state is reached by the interleaved system
    (\<open>serial_runs_interleaved\<close>), and under interleaving every armed timer is still
    the held one, the countdown stays in \<open>[-1, 10]\<close> and the snapshot keeps its shape
    (\<open>interleaved_timer_held\<close>), while "an armed timer has a positive countdown" is
    lost.
  \<^item> Findings: under interleaving, a timer-driven cycle that fails re-arms a
    zero-interval timer on line 124 before its \<open>_disconnect\<close>; that timer fires at
    once, and its callback polls the device with the frequency 0, re-arms another
    one and blocks in turn, so for every \<open>n\<close> a reachable configuration has \<open>n+1\<close>
    cycles run after polling halted (\<open>halted_poller_keeps_polling\<close>; the
    serialised poller never polls while halted, \<open>idle_no_poll\<close>); a read that
    changes the frequency while a callback waits in \<open>_disconnect\<close> is undone when that
    callback fails to disconnect, so the consumer is told a frequency the halted
    poller does not run (\<open>read_frequency_lost\<close>); a read that changes the frequency
    while a callback waits for its sub-queries is followed by that callback storing a
    snapshot stamped with the old frequency, so with every thread finished the
    consumer is told 5 while polling runs every 3 seconds (\<open>stale_meta_frequency\<close>,
    against \<open>meta_matches_frequency\<close> when serialised); a fractional frequency below 1 arms a zero-interval timer while the
    frequency is 0 (\<open>fractional_request_arms_idle_timer\<close>); a negative frequency is
    persisted although the running poller uses 0, and a restart then starts with the
    negative value (\<open>negative_frequency_persisted\<close>); \<open>read\<close> overwrites the cached
    snapshot's \<open>_meta.frequency\<close> in place (\<open>read_meta_override\<close>); the websocket
    patterns end in \<open>$\<close>, so a path with a final newline is routed
    (\<open>state_route_trailing_newline\<close>); \<open>static(settings.MEDIA_URL)\<close> sits in the
    conf included under \<open>photos/\<close>, so media is served under \<open>/photos/\<close> and not at
    \<open>MEDIA_URL\<close> (\<open>media_served_under_photos\<close>).

  \<^emph>\<open>Bounds chosen.\<close> No fuel is needed: every operation of the poller is a
  non-recursive function, and the only unbounded behaviour, the self-rescheduling
  timer, is either an event of the system or the loop \<open>timer_thread\<close>, a
  \<open>partial_function (option)\<close> whose return is proved from every reachable world; the
  number of its iterations is bounded by \<open>fire_budget\<close> (at most the countdown, at
  most 10). The 1.5 s timeout is the constant of the code. The recursive library
  functions terminate by measures: \<open>bt\<close> by the size of the pattern and then the
  length of the input, the parsers \<open>parse_atom\<close>, \<open>parse_seq\<close> and \<open>route_parts\<close>
  by the length of the text they read.

  \<^emph>\<open>Plan.\<close> Modelled so far, in this order: the poll cycle and its
  scheduler (the core), the snapshot and bounded fetch, read and construction, the
  system of calling contexts and its invariants, the refinement to the two-mode
  machine, then the routing tables over models of \<open>re\<close>, Django and Channels, the
  snapshot's shape and the termination of the timer chain, then properties of runs
  and the interleaving of timer callbacks and reads at \<open>_disconnect\<close>, then at
  \<open>_connect\<close> and \<open>futures.wait\<close> as well, with the reported frequency. Next: (1) the
  snapshot seen by successive reads changes only by whole poll results; (2) a
  mutual-exclusion variant of \<open>VectorStatus\<close> (the hardening of
  section 5 of the specification) proved serialisable. The timer-aware simulation is
  covered by \<open>freq_inv\<close> with \<open>mode_of\<close> (\<open>active_one_timer\<close>).

  \<^emph>\<open>Not modelled.\<close> Printing (logging only); \<open>self._rnd\<close> (never read); the
  URL confs and consumers that are not under \<open>src/\<close> (\<open>webview.urls\<close>,
  \<open>space.urls\<close>, \<open>admin.site.urls\<close>, \<open>space/consumers.py\<close>: the first three are
  parameters of the HTTP model); the \<open>name=\<close> arguments of \<open>path()\<close> (used only by
  \<open>reverse()\<close>), the \<open>uuid\<close> path converter, regex syntax the tables do not use, a
  \<open><\<close> in a route that does not start a parameter, and the session store behind
  \<open>AuthMiddlewareStack\<close> (the scope gets a lazy user for the session cookie); failure of the
  \<open>AsyncRobot()\<close> constructor (the exception would escape \<open>VectorStatus()\<close>); a
  frequency that is a string (\<open>frequency > 0\<close> would raise \<open>TypeError\<close> in
  \<open>read\<close>); in the interleaved system, interleaving inside the construction of the
  singleton (part of the first read's first step) and preemption between two bytecodes
  outside the three blocking calls (the interpreter may switch threads there too;
  these interleavings only add behaviours to the ones modelled, so the reachable
  configurations and the races shown are still behaviours of the code, while
  \<open>interleaved_timer_held\<close> is proved for the interleavings at the blocking calls
  only); time: a timer may fire whenever it is
  armed, whatever its interval, so the interleaved system over-approximates; the
  unbounded polling is shown with zero-interval timers, which \<open>threading.Timer\<close> runs
  at once, and the other races need only a read to arrive while a cycle is blocked.
\<close>

section \<open>The specification's state machine\<close>

text \<open>
  Section 4.1 of the specification: the poller is \<open>Idle\<close> or \<open>Active\<close> with a
  frequency. Construction activates it with the persisted frequency; a read with a
  positive frequency activates it with that frequency and one with a non-positive
  frequency halts it; a read without a frequency keeps the mode, or halts it when its
  initial poll fails; a timer tick is possible only when active and keeps the mode or
  halts it.
\<close>

datatype pmode = Idle | Active int

datatype spec_event = Construct int | ReadReq "int option" | Tick

inductive spec_step :: "pmode \<Rightarrow> spec_event \<Rightarrow> pmode \<Rightarrow> bool" where
  construct: "spec_step Idle (Construct p) (if 0 < p then Active p else Idle)"
| read_pos: "0 < f \<Longrightarrow> spec_step m (ReadReq (Some f)) (Active f)"
| read_nonpos: "f \<le> 0 \<Longrightarrow> spec_step m (ReadReq (Some f)) Idle"
| read_keep: "spec_step m (ReadReq None) m"
| read_halt: "spec_step m (ReadReq None) Idle"
| tick_cycle: "spec_step (Active f) Tick (Active f)"
| tick_halt: "spec_step (Active f) Tick Idle"

inductive spec_steps :: "pmode \<Rightarrow> spec_event list \<Rightarrow> pmode \<Rightarrow> bool" where
  nil: "spec_steps m [] m"
| cons: "spec_step m e m' \<Longrightarrow> spec_steps m' es m'' \<Longrightarrow> spec_steps m (e # es) m''"

definition mode_of :: "world \<Rightarrow> pmode" where
  "mode_of w = (if 0 < frequency w then Active (frequency w) else Idle)"

fun abs_events :: "world \<Rightarrow> event \<Rightarrow> spec_event list" where
  "abs_events w (Read obs req) =
     (if created w then [] else [Construct (config_get_value (config w) freq_key 0)])
     @ [ReadReq (map_option py_int req)]"
| "abs_events w (Fire t obs) = [Tick]"

section \<open>Concrete inputs for the scenarios\<close>

text \<open>
  A device that answers every accessor, whose battery query completes after 0.5 s and
  whose version query completes after 2 s (too late for the 1.5 s wait), and that
  closes its session normally; and the worlds after the reads of section 8.
\<close>

definition batt :: battery_state where
  "batt = \<lparr>battery_volts = 41 / 10, battery_level = 2, is_charging = False,
           is_on_charger_platform = False, suggested_charger_sec = 0\<rparr>"
definition ver :: version_state where
  "ver = \<lparr>os_version = ''1.6.0'', engine_build_id = ''3372''\<rparr>"
definition reading0 :: device_reading where
  "reading0 = \<lparr>flag_value = (\<lambda>f. f = Is_on_charger), metric_value = (\<lambda>_. Scalar 0)\<rparr>"
definition fut_batt :: "battery_state future" where
  "fut_batt = \<lparr>done_at = Some (1 / 2), outcome = Some batt\<rparr>"
definition fut_ver_late :: "version_state future" where
  "fut_ver_late = \<lparr>done_at = Some 2, outcome = Some ver\<rparr>"
definition obs_ok :: cycle_obs where
  "obs_ok = \<lparr>connect_ok = True, reading = Some reading0, battery_call = Some fut_batt,
             version_call = Some fut_ver_late, disconnect_ok = True\<rparr>"
definition obs_disc_fail :: cycle_obs where
  "obs_disc_fail = obs_ok\<lparr>disconnect_ok := False\<rparr>"
definition obs_read_fail :: cycle_obs where
  "obs_read_fail = obs_ok\<lparr>reading := None\<rparr>"

definition snap0 :: snapshot where
  "snap0 = \<lparr>st_current = current_section reading0, st_robot = robot_section reading0,
            st_meta_frequency = 5, st_battery = Some batt, st_version = None\<rparr>"

definition w_first :: world where
  "w_first = snd (read obs_ok (Some 5) (singleton_call vstatus_init (world0 Map.empty)))"
definition w_second :: world where
  "w_second = snd (read obs_ok (Some 3) w_first)"
definition w_frac :: world where
  "w_frac = snd (read obs_ok (Some (1 / 2)) w_first)"
definition w_neg :: world where
  "w_neg = snd (read obs_ok (Some (-3)) w_first)"

text \<open>
  The world while the callback of the 5-second timer of \<open>w_first\<close>, whose device
  answers but then fails to close the session, waits in \<open>_disconnect\<close>.
\<close>

definition w_race :: world where
  "w_race = finally_rearm True (check_try obs_disc_fail (w_first\<lparr>timers := timer_fire 0 (timers w_first)\<rparr>))"

text \<open>
  The world after a timer-driven cycle of \<open>w_first\<close> captured frequency 5, a read
  with frequency 3 ran while the cycle waited for its sub-queries, and the cycle then
  stored its snapshot, re-armed and closed the session.
\<close>

definition w_stale :: world where
  "w_stale = resume_thread (Timer_callback obs_ok) (finally_rearm True (try_finish obs_ok 5
     (snd (read_rest (Some 3) (fst (try_start obs_ok (w_first\<lparr>timers := timer_fire 0 (timers w_first)\<rparr>)))))))"

text \<open>
  A development deployment (\<open>DEBUG\<close> on, \<open>MEDIA_URL = '/media/'\<close>) whose webview,
  space and admin URL confs resolve none of the paths below, one whose webview conf
  has a route of its own under \<open>photos/\<close>, and two connection scopes: a websocket to the status route with a session cookie, and a lifespan scope.
\<close>

definition st_dev :: settings where
  "st_dev = \<lparr>debug = True, media_url = ''/media/'', media_root = ''/srv/media''\<rparr>"
definition ext_none :: external_urls where
  "ext_none = \<lparr>admin_urls = [], webview_urls = [], space_urls = []\<rparr>"
definition ext_shadow :: external_urls where
  "ext_shadow = ext_none\<lparr>webview_urls := [path ''photos/<int:id>'' (External_view ''webview'')]\<rparr>"
definition sc_state :: scope where
  "sc_state = \<lparr>scope_type = ''websocket'', scope_path = ''/ws/vector/state/'',
               scope_cookies = [(''sessionid'', ''k1'')], scope_user = None\<rparr>"
definition sc_lifespan :: scope where
  "sc_lifespan = \<lparr>scope_type = ''lifespan'', scope_path = [], scope_cookies = [],
                  scope_user = None\<rparr>"

section \<open>Refinement\<close>

lemma spec_steps_one: "spec_step m e m' \<Longrightarrow> spec_steps m [e] m'"
  by (blast intro: spec_steps.intros)

lemma spec_steps_append:
  "spec_steps m es m' \<Longrightarrow> spec_steps m' fs m'' \<Longrightarrow> spec_steps m (es @ fs) m''"
  by (induction rule: spec_steps.induct) (auto intro: spec_steps.intros)

lemma mode_read_some:
  "mode_of (snd (read obs (Some f) w)) = (if 0 < py_int f then Active (py_int f) else Idle)"
proof -
  let ?w1 = "if state w = None then check_state False obs w else w"
  have "frequency (snd (read obs (Some f) w)) = frequency (read_frequency (Some f) ?w1)"
    by (simp add: read_def Let_def split: option.splits)
  then show ?thesis
    by (auto simp: mode_of_def frequency_read_frequency_some py_int_pos_imp
             dest: py_int_nonpos_pos)
qed

lemma mode_read_none:
  assumes "robot w"
  shows "mode_of (snd (read obs None w)) = mode_of w \<or> mode_of (snd (read obs None w)) = Idle"
proof -
  let ?w1 = "if state w = None then check_state False obs w else w"
  have f: "frequency (snd (read obs None w)) = frequency ?w1"
    by (simp add: read_def read_frequency_def Let_def split: option.splits)
  have "frequency ?w1 = frequency w \<or> frequency ?w1 = 0"
    using check_state_frequency [OF assms, of False obs] by auto
  with f show ?thesis by (auto simp: mode_of_def)
qed

lemma reach_created_or_fresh: "reach P w \<Longrightarrow> created w \<or> frequency w = 0"
proof (induction rule: reach.induct)
  case (start cfg)
  show ?case by simp
next
  case (step w e w')
  show ?case
  proof (cases e)
    case (Read obs req)
    with step.hyps(3) show ?thesis by (auto simp: read_fields)
  next
    case (Fire t obs)
    with step.hyps(1,3) show ?thesis
      by (auto simp: poller_inv_def dest!: reach_poller_inv split: if_splits)
  qed
qed


section \<open>Scenarios and findings\<close>

lemmas example_defs = obs_ok_def fut_batt_def fut_ver_late_def reading0_def batt_def ver_def
lemmas eval_simps = world_ops timer_eval Let_def completed_by_def wait_timeout_def
  config_get_value_def config_set_value_def freq_key_def world0_def connect_def disconnect_def

lemma w_first_eq: "w_first = \<lparr>created = True, robot = True,
   state = Some snap0,
   countdown = 10, frequency = 5, timer = Some 0, timers = [\<lparr>interval = 5, tm_status = Armed\<rparr>],
   config = [freq_key \<mapsto> 5], dev_connected = False\<rparr>"
  by (simp add: w_first_def snap0_def eval_simps example_defs)


lemma reach_w_first: "P (Read obs_ok (Some 5)) \<Longrightarrow> reach P w_first"
  using reach.step [OF reach.start, of P "Read obs_ok (Some 5)"] by (simp add: w_first_def)

lemma ireach_w_first: "ireach \<lparr>ic_world = w_first, ic_blocked = []\<rparr>"
proof -
  have "sys_step (Read obs_ok (Some 5)) (world0 Map.empty) = Some w_first"
    by (simp add: w_first_def)
  from ireach_rtranclp [OF sys_step_istep [OF this] ireach.start] show ?thesis .
qed

lemma poll_ok_obs_ok: "poll_ok obs_ok"
  by (simp add: poll_ok_def poll_snapshot_def eval_simps example_defs)

lemma armed_is_held_w_first: "armed_is_held w_first"
  by (simp add: armed_is_held_def w_first_eq armed_def)

text \<open>Scenario: with no cached snapshot, read with frequency 5 polls once, stores and persists frequency 5, arms one 5-second timer, and delivers the new snapshot with meta frequency 5, battery section present and late version section absent.\<close>

theorem scenario_first_read:
  "fst (read obs_ok (Some 5) (singleton_call vstatus_init (world0 Map.empty))) = state w_first
   \<and> frequency w_first = 5 \<and> timer w_first = Some 0 \<and> armed_timers w_first = {0}
   \<and> interval (timers w_first ! 0) = 5 \<and> config_get_value (config w_first) freq_key 0 = 5
   \<and> map_option st_meta_frequency (state w_first) = Some 5
   \<and> map_option st_battery (state w_first) = Some (Some batt)
   \<and> map_option st_version (state w_first) = Some None"
proof -
  have "fst (read obs_ok (Some 5) (singleton_call vstatus_init (world0 Map.empty))) = state w_first"
    unfolding w_first_def by (simp only: read_def Let_def fst_conv snd_conv)
  then show ?thesis by (simp add: w_first_eq snap0_def armed_def config_get_value_def)
qed

text \<open>Scenario: with a snapshot cached under frequency 5, read with frequency 3 stores 3, cancels the 5-second timer, arms one 3-second timer and delivers the snapshot with meta frequency 3.\<close>

theorem scenario_change_frequency:
  "frequency w_second = 3 \<and> armed_timers w_second = {1} \<and> interval (timers w_second ! 1) = 3
   \<and> tm_status (timers w_second ! 0) = Cancelled
   \<and> map_option st_meta_frequency (state w_second) = Some 3
   \<and> fst (read obs_ok (Some 3) w_first) = state w_second"
  by (simp add: w_second_def w_first_eq eval_simps example_defs)

text \<open>C27: With timer callbacks interleaving at their blocking calls, a timer-driven cycle that fails re-arms a zero-interval timer, and for every n a reachable configuration has n+1 further cycles that polled the device after polling was halted (frequency 0, countdown -1), each blocked in _disconnect, with a zero-interval timer still armed; the serialised poller never polls while halted.\<close>

theorem halted_poller_keeps_polling:
  "\<exists>c. ireach c \<and> ic_blocked c = replicate (Suc n) (Timer_callback obs_ok, At_disconnect)
                                    @ [(Timer_callback obs_read_fail, At_disconnect)]
       \<and> frequency (ic_world c) = 0 \<and> countdown (ic_world c) = -1
       \<and> (\<exists>t. armed_timers (ic_world c) = {t} \<and> interval (timers (ic_world c) ! t) = 0)
       \<and> map_option st_meta_frequency (state (ic_world c)) = Some 0"
proof -
  have np: "\<not> poll_ok obs_read_fail"
    by (simp add: poll_ok_def poll_snapshot_def obs_read_fail_def)
  have a: "armed_timers w_first = {0}" by (auto simp: w_first_eq armed_def)
  from halting_cycle_blocks [of w_first 0 obs_read_fail "[]"] np a
  obtain w1 where s1: "istep\<^sup>*\<^sup>* \<lparr>ic_world = w_first, ic_blocked = []\<rparr>
        \<lparr>ic_world = w1, ic_blocked = [(Timer_callback obs_read_fail, At_disconnect)]\<rparr>"
    and w1: "robot w1" "frequency w1 = 0" "timer w1 = Some 1" "armed_timers w1 = {1}"
    by (auto simp: w_first_eq)
  have "ireach \<lparr>ic_world = w1, ic_blocked = [(Timer_callback obs_read_fail, At_disconnect)]\<rparr>"
    using ireach_rtranclp [OF s1 ireach_w_first] .
  from zero_timer_chain [OF this, of 1 obs_ok n] w1 poll_ok_obs_ok show ?thesis
    by auto
qed

lemmas race_eval = w_race_def w_first_eq check_try_def finally_rearm_def eval_simps example_defs
  obs_disc_fail_def poll_snapshot_def fetch_substates_def fetch_result_def

text \<open>C21: With a timer callback blocked in _disconnect, a read with frequency 3 stores and persists 3, arms one timer and tells the consumer 3; the callback then resumes, fails to disconnect and halts polling, cancelling that timer, so the read's frequency change is lost while 3 stays persisted.\<close>

theorem read_frequency_lost:
  "\<exists>c0 c1 c2. ireach c0 \<and> istep c0 c1 \<and> istep c1 c2
     \<and> ic_world c1 = snd (read obs_ok (Some 3) (ic_world c0)) \<and> ic_blocked c1 = ic_blocked c0
     \<and> frequency (ic_world c1) = 3 \<and> (\<exists>t. armed_timers (ic_world c1) = {t})
     \<and> map_option st_meta_frequency (fst (read obs_ok (Some 3) (ic_world c0))) = Some 3
     \<and> ic_blocked c2 = [] \<and> frequency (ic_world c2) = 0 \<and> armed_timers (ic_world c2) = {}
     \<and> config_get_value (config (ic_world c2)) freq_key 0 = 3"
proof -
  let ?th = "Timer_callback obs_disc_fail"
  let ?w0 = "w_first\<lparr>timers := timer_fire 0 (timers w_first)\<rparr>"
  let ?c0 = "\<lparr>ic_world = w_race, ic_blocked = [(?th, At_disconnect)]\<rparr>"
  let ?w1 = "snd (read obs_ok (Some 3) w_race)"
  let ?c1 = "\<lparr>ic_world = ?w1, ic_blocked = [(?th, At_disconnect)]\<rparr>"
  let ?c2 = "\<lparr>ic_world = resume_thread ?th ?w1, ic_blocked = []\<rparr>"
  have a: "armed_timers w_first = {0}" by (auto simp: w_first_eq armed_def)
  have "check_guard ?w0 = Inr ?w0" by (simp add: check_guard_def w_first_eq)
  then have "istep \<lparr>ic_world = w_first, ic_blocked = []\<rparr>
                   \<lparr>ic_world = ?w0, ic_blocked = [(?th, At_connect)]\<rparr>"
    using istep.fire_block [of 0 "\<lparr>ic_world = w_first, ic_blocked = []\<rparr>"] a by simp
  moreover have "istep\<^sup>*\<^sup>* \<lparr>ic_world = ?w0, ic_blocked = [(?th, At_connect)]\<rparr> ?c0"
    using thread_to_disconnect [of ?w0 ?th "[]"] by (simp add: w_race_def)
  ultimately have r0: "ireach ?c0"
    using ireach_rtranclp [OF _ ireach.step [OF ireach_w_first]] by blast
  have st: "state w_race \<noteq> None" "created w_race" by (simp_all add: race_eval)
  then have rd: "read obs_ok (Some 3) w_race = read_rest (Some 3) w_race"
    by (subst read_split) (simp add: st)
  have s1: "istep ?c0 ?c1"
    using istep.read_cached [of ?c0 "Some 3"] st rd by (simp add: singleton_call_def)
  have s2: "istep ?c1 ?c2"
    using istep.resume [of 0 ?c1 ?th At_disconnect] by (simp add: advance_def)
  have w1: "frequency ?w1 = 3 \<and> armed_timers ?w1 = {2}
            \<and> map_option st_meta_frequency (fst (read obs_ok (Some 3) w_race)) = Some 3"
    by (simp add: race_eval)
  have w2: "frequency (resume_thread ?th ?w1) = 0 \<and> armed_timers (resume_thread ?th ?w1) = {}
            \<and> config_get_value (config (resume_thread ?th ?w1)) freq_key 0 = 3"
    by (simp add: resume_thread_def finally_disconnect_def race_eval)
  show ?thesis
    using r0 s1 s2 w1 w2 by (intro exI [of _ ?c0] exI [of _ ?c1] exI [of _ ?c2]) simp
qed

lemmas stale_eval = w_stale_def w_first_eq try_start_def try_finish_def read_rest_def
  finally_rearm_def resume_thread_def finally_disconnect_def eval_simps example_defs
  poll_snapshot_def fetch_substates_def fetch_result_def

text \<open>C24: While a timer-driven cycle waits for its sub-queries with frequency 5 captured, a read with frequency 3 stores 3 and rewrites the cached snapshot's _meta.frequency to 3; the cycle then stores a snapshot stamped 5. With every thread finished, the instance polls every 3 seconds while the snapshot it delivers reports 5, a state the serialised poller never reaches.\<close>

theorem stale_meta_frequency:
  "\<exists>c. ireach c \<and> ic_blocked c = [] \<and> frequency (ic_world c) = 3
       \<and> (\<exists>t. armed_timers (ic_world c) = {t} \<and> interval (timers (ic_world c) ! t) = 3)
       \<and> map_option st_meta_frequency (fst (read obs_ok None (ic_world c))) = Some 5"
proof -
  let ?th = "Timer_callback obs_ok"
  define w0 where "w0 = w_first\<lparr>timers := timer_fire 0 (timers w_first)\<rparr>"
  define w1 where "w1 = fst (try_start obs_ok w0)"
  define w2 where "w2 = snd (read_rest (Some 3) w1)"
  define w3 where "w3 = finally_rearm True (try_finish obs_ok 5 w2)"
  have a: "armed_timers w_first = {0}" by (auto simp: w_first_eq armed_def)
  have "check_guard w0 = Inr w0" by (simp add: check_guard_def w0_def w_first_eq)
  then have s1: "istep \<lparr>ic_world = w_first, ic_blocked = []\<rparr>
                       \<lparr>ic_world = w0, ic_blocked = [(?th, At_connect)]\<rparr>"
    using istep.fire_block [of 0 "\<lparr>ic_world = w_first, ic_blocked = []\<rparr>"] a by (simp add: w0_def)
  have "try_start obs_ok w0 = (w1, Some 5)"
    by (simp add: w1_def w0_def stale_eval)
  then have s2: "istep \<lparr>ic_world = w0, ic_blocked = [(?th, At_connect)]\<rparr>
                       \<lparr>ic_world = w1, ic_blocked = [(?th, At_wait 5)]\<rparr>"
    using istep.move [of 0 "\<lparr>ic_world = w0, ic_blocked = [(?th, At_connect)]\<rparr>" ?th At_connect]
    by (simp add: advance_def)
  have "state w1 \<noteq> None \<and> created w1" by (simp add: w1_def w0_def stale_eval)
  then have s3: "istep \<lparr>ic_world = w1, ic_blocked = [(?th, At_wait 5)]\<rparr>
                       \<lparr>ic_world = w2, ic_blocked = [(?th, At_wait 5)]\<rparr>"
    using istep.read_cached [of "\<lparr>ic_world = w1, ic_blocked = [(?th, At_wait 5)]\<rparr>" "Some 3"]
    by (simp add: singleton_call_def w2_def)
  have s4: "istep \<lparr>ic_world = w2, ic_blocked = [(?th, At_wait 5)]\<rparr>
                  \<lparr>ic_world = w3, ic_blocked = [(?th, At_disconnect)]\<rparr>"
    using istep.move [of 0 "\<lparr>ic_world = w2, ic_blocked = [(?th, At_wait 5)]\<rparr>" ?th "At_wait 5"]
    by (simp add: advance_def w3_def)
  have s5: "istep \<lparr>ic_world = w3, ic_blocked = [(?th, At_disconnect)]\<rparr>
                  \<lparr>ic_world = w_stale, ic_blocked = []\<rparr>"
    using istep.resume [of 0 "\<lparr>ic_world = w3, ic_blocked = [(?th, At_disconnect)]\<rparr>" ?th At_disconnect]
    by (simp add: advance_def w3_def w2_def w1_def w0_def w_stale_def)
  have r: "ireach \<lparr>ic_world = w_stale, ic_blocked = []\<rparr>"
    using ireach.step [OF ireach.step [OF ireach.step [OF ireach.step [OF ireach.step
            [OF ireach_w_first s1] s2] s3] s4] s5] .
  have "frequency w_stale = 3 \<and> armed_timers w_stale = {2} \<and> interval (timers w_stale ! 2) = 3
        \<and> map_option st_meta_frequency (fst (read obs_ok None w_stale)) = Some 5"
    by (simp add: stale_eval read_def armed_def)
  with r show ?thesis by (intro exI [of _ "\<lparr>ic_world = w_stale, ic_blocked = []\<rparr>"]) auto
qed

text \<open>C28: A read with frequency 1/2 is reachable and leaves the stored frequency 0 with an armed zero-interval timer, contrary to the invariant that frequency 0 implies no armed timer.\<close>

theorem fractional_request_arms_idle_timer:
  "reach (\<lambda>_. True) w_frac \<and> frequency w_frac = 0 \<and> armed_timers w_frac = {1}
   \<and> interval (timers w_frac ! 1) = 0"
proof -
  have r1: "reach (\<lambda>_. True) w_first" by (rule reach_w_first) simp
  have "reach (\<lambda>_. True) w_frac"
    using reach.step [OF r1, of "Read obs_ok (Some (1/2))"]
    by (simp add: w_frac_def w_first_eq singleton_call_def)
  moreover have "frequency w_frac = 0 \<and> armed_timers w_frac = {1} \<and> interval (timers w_frac ! 1) = 0"
    by (simp add: w_frac_def w_first_eq eval_simps example_defs py_int_nonpos_pos)
  ultimately show ?thesis by simp
qed


section \<open>Witnesses\<close>


theorem auto_stop_witness:
  "reach int_event w_first \<and> 0 < frequency w_first \<and> poll_ok obs_ok \<and> disconnect_ok obs_ok
   \<and> (\<exists>w'. fire_rounds 9 obs_ok w_first = Some w' \<and> 0 < frequency w')
   \<and> (\<exists>w'. fire_rounds 10 obs_ok w_first = Some w' \<and> halted w')"
proof -
  have r: "reach int_event w_first" by (rule reach_w_first) simp
  have f: "0 < frequency w_first" by (simp add: w_first_eq)
  have d: "disconnect_ok obs_ok" by (simp add: obs_ok_def)
  have c: "nat (countdown w_first) = 10" by (simp add: w_first_eq)
  from auto_stop [OF r f poll_ok_obs_ok d] c r f poll_ok_obs_ok d show ?thesis by simp
qed


theorem read_arms_one_timer_witness:
  "reach int_event (world0 Map.empty) \<and> is_py_int 5 \<and> (0::rat) < 5
   \<and> sys_step (Read obs_ok (Some 5)) (world0 Map.empty) = Some w_first
   \<and> (\<exists>t. timer w_first = Some t \<and> armed_timers w_first = {t} \<and> interval (timers w_first ! t) = py_int 5)"
proof -
  have st: "sys_step (Read obs_ok (Some 5)) (world0 Map.empty) = Some w_first"
    by (simp add: w_first_def)
  from read_arms_one_timer [OF reach.start _ _ st] st reach.start show ?thesis by simp
qed


theorem at_most_one_armed_witness:
  "reach (\<lambda>_. True) w_first \<and> 0 \<in> armed_timers w_first \<and> (0::nat) = 0"
proof -
  have r: "reach (\<lambda>_. True) w_first" by (rule reach_w_first) simp
  have a: "0 \<in> armed_timers w_first" by (simp add: w_first_eq armed_def)
  from at_most_one_armed [OF r a a] r a show ?thesis by simp
qed

theorem active_one_timer_witness:
  "reach int_event w_first \<and> 0 < frequency w_first
   \<and> (\<exists>t. timer w_first = Some t \<and> armed_timers w_first = {t}
         \<and> interval (timers w_first ! t) = frequency w_first)"
proof -
  have r: "reach int_event w_first" by (rule reach_w_first) simp
  have f: "0 < frequency w_first" by (simp add: w_first_eq)
  from active_one_timer [OF r f] r f show ?thesis by simp
qed

theorem countdown_bounds_witness:
  "reach (\<lambda>_. True) w_first \<and> -1 \<le> countdown w_first \<and> countdown w_first \<le> 10"
proof -
  have r: "reach (\<lambda>_. True) w_first" by (rule reach_w_first) simp
  from countdown_bounds [OF r] r show ?thesis by simp
qed

theorem check_state_outcome_witness:
  "robot w_first \<and>
   (if poll_ok obs_ok \<and> cycle_continues obs_ok w_first
    then frequency (check_state True obs_ok w_first) = frequency w_first
       \<and> countdown (check_state True obs_ok w_first) = countdown w_first - 1
       \<and> timer (check_state True obs_ok w_first) = Some (length (timers w_first))
       \<and> \<not> dev_connected (check_state True obs_ok w_first)
    else halted (check_state True obs_ok w_first))"
proof -
  have r: "robot w_first" by (simp add: w_first_eq)
  from check_state_outcome [OF r, of obs_ok True] r show ?thesis by simp
qed

theorem check_state_disconnect_fail_witness:
  "\<not> disconnect_ok obs_disc_fail \<and> halted (check_state True obs_disc_fail w_first)"
proof -
  have d: "\<not> disconnect_ok obs_disc_fail" by (simp add: obs_disc_fail_def)
  from check_state_disconnect_fail [OF d] d show ?thesis by simp
qed

theorem poll_snapshot_sections_witness:
  "poll_snapshot 5 obs_ok = Inr snap0 \<and> reading obs_ok = Some reading0
   \<and> battery_call obs_ok = Some fut_batt \<and> version_call obs_ok = Some fut_ver_late
   \<and> st_current snap0 = current_section reading0 \<and> st_robot snap0 = robot_section reading0
   \<and> st_meta_frequency snap0 = rat_of_int 5
   \<and> st_battery snap0 = (if completed_by wait_timeout (done_at fut_batt) then outcome fut_batt else None)
   \<and> st_version snap0 = (if completed_by wait_timeout (done_at fut_ver_late) then outcome fut_ver_late else None)"
proof -
  have h: "poll_snapshot 5 obs_ok = Inr snap0" "reading obs_ok = Some reading0"
    "battery_call obs_ok = Some fut_batt" "version_call obs_ok = Some fut_ver_late"
    by (simp_all add: poll_snapshot_def snap0_def eval_simps example_defs)
  from poll_snapshot_sections [OF h] h show ?thesis by simp
qed

theorem fetch_partial_witness:
  "completed_by wait_timeout (done_at fut_batt) \<and> outcome fut_batt = Some batt
   \<and> \<not> completed_by wait_timeout (done_at fut_ver_late)
   \<and> fetch_substates (Some fut_batt) (Some fut_ver_late) = Inr (Some batt, None)"
proof -
  have h: "completed_by wait_timeout (done_at fut_batt)" "outcome fut_batt = Some batt"
    "\<not> completed_by wait_timeout (done_at fut_ver_late)"
    by (simp_all add: fut_batt_def fut_ver_late_def completed_by_def wait_timeout_def)
  from fetch_partial [OF h] h show ?thesis by simp
qed


theorem read_meta_override_witness:
  "fst (read obs_ok (Some 3) w_first) = Some (snap0\<lparr>st_meta_frequency := 3\<rparr>)
   \<and> st_meta_frequency (snap0\<lparr>st_meta_frequency := 3\<rparr>) = 3
   \<and> state (snd (read obs_ok (Some 3) w_first)) = Some (snap0\<lparr>st_meta_frequency := 3\<rparr>)"
proof -
  have h: "fst (read obs_ok (Some 3) w_first) = Some (snap0\<lparr>st_meta_frequency := 3\<rparr>)"
    by (simp add: w_first_eq eval_simps)
  from read_meta_override [OF h] h show ?thesis by simp
qed

theorem read_keeps_timers_witness:
  "state w_first = Some snap0 \<and> py_int 5 = frequency w_first
   \<and> timers (snd (read obs_ok (Some 5) w_first)) = timers w_first
   \<and> timer (snd (read obs_ok (Some 5) w_first)) = timer w_first"
proof -
  have h: "state w_first = Some snap0" "py_int 5 = frequency w_first" by (simp_all add: w_first_eq)
  from read_keeps_timers [OF h] h show ?thesis by simp
qed

theorem update_refresh_rearms_witness:
  "armed_is_held w_first
   \<and> timer (update_refresh w_first) = Some (length (timers w_first))
   \<and> armed_timers (update_refresh w_first) = {length (timers w_first)}
   \<and> interval (timers (update_refresh w_first) ! length (timers w_first)) = frequency w_first"
  using update_refresh_rearms [OF armed_is_held_w_first] armed_is_held_w_first by simp

theorem stop_refresh_disarms_all_witness:
  "armed_is_held w_first \<and> halted (stop_refresh w_first)
   \<and> armed_timers (stop_refresh w_first) = {} \<and> state (stop_refresh w_first) = state w_first"
  using stop_refresh_disarms_all [OF armed_is_held_w_first] armed_is_held_w_first by simp

theorem singleton_constructs_once_witness:
  "created w_first \<and> singleton_call vstatus_init w_first = w_first
   \<and> created (singleton_call vstatus_init w_first)"
proof -
  have c: "created w_first" by (simp add: w_first_eq)
  from singleton_constructs_once [of vstatus_init w_first] c show ?thesis by simp
qed

theorem persisted_frequency_roundtrip_witness:
  "state w_first = Some snap0 \<and> py_int (-3) \<noteq> frequency w_first
   \<and> frequency (vstatus_init (world0 (config (snd (read obs_ok (Some (-3)) w_first))))) = -3"
proof -
  have h: "state w_first = Some snap0" "py_int (-3) \<noteq> frequency w_first"
    by (simp_all add: w_first_eq)
  from persisted_frequency_roundtrip [OF h] h show ?thesis by simp
qed



theorem webview_shadows_photos_witness:
  "django_resolve st_dev ext_shadow ''/photos/3'' = Inr (Some (External_view ''webview'', [(''id'', KInt 3)]))"
proof -
  have "resolve_entries (webview_urls ext_shadow) (''photos/'' @ ''3'') =
          Inr (Some (External_view ''webview'', [(''id'', KInt 3)]))"
    by code_simp
  moreover have "media_url st_dev \<noteq> []" by (simp add: st_dev_def)
  ultimately show ?thesis using webview_shadows_photos [of st_dev ext_shadow "''3''"] by simp
qed

theorem websocket_routes_refine_witness:
  "url_router websocket_urlpatterns ''/ws/space/lobby/'' = Inr (SpaceConsumer, [], [(''space_name'', ''lobby'')])"
  using websocket_routes_refine by (simp add: ws_spec_def)

theorem space_route_witness:
  "url_router websocket_urlpatterns ''/ws/space/lobby/extra'' = Inl (No_route ''ws/space/lobby/extra'')"
  using space_route [of "''lobby''" "''extra''"] by simp

theorem websocket_route_order_witness:
  "url_router (rev websocket_urlpatterns) ''/ws/vector/state/'' = Inr (StateConsumer, [], [])"
  using websocket_route_order [of "''/ws/vector/state/''"] by (simp add: url_router_ws ws_spec_def)


theorem photo_url_roundtrip_witness:
  "django_resolve st_dev ext_none (''/photos/'' @ int_to_url 42) = Inr (Some (Photo_view, [(''id'', KInt 42)]))"
  using photo_url_roundtrip [of st_dev ext_none 42] by (simp add: st_dev_def ext_none_def)

theorem media_served_under_photos_witness:
  "django_resolve st_dev ext_none ''/media/a.jpg'' = Inr None
   \<and> django_resolve st_dev ext_none ''/photos/media/a.jpg'' =
       Inr (Some (Serve_view, [(''document_root'', KStr ''/srv/media''), (''path'', KStr ''a.jpg'')]))"
  using media_served_under_photos [of st_dev "''a.jpg''" ext_none] by (simp add: st_dev_def ext_none_def)


theorem interleaved_timer_held_witness:
  "ireach \<lparr>ic_world = w_first, ic_blocked = []\<rparr> \<and> armed_is_held w_first
   \<and> -1 \<le> countdown w_first \<and> countdown w_first \<le> 10"
  using interleaved_timer_held [OF ireach_w_first] ireach_w_first by simp



theorem repeated_reads_keep_timer_witness:
  "reach (\<lambda>_. True) w_first \<and> state w_first \<noteq> None \<and> py_int 5 = frequency w_first
   \<and> (\<exists>w'. run (map (\<lambda>ob. Read ob (Some 5)) [obs_ok, obs_disc_fail]) w_first = Some w'
          \<and> timers w' = timers w_first \<and> timer w' = timer w_first)"
proof -
  have r: "reach (\<lambda>_. True) w_first" by (rule reach_w_first) simp
  have s: "state w_first \<noteq> None" and f: "py_int 5 = frequency w_first"
    by (simp_all add: w_first_eq py_int_def)
  show ?thesis using repeated_reads_keep_timer [OF r s f, of "[obs_ok, obs_disc_fail]"] r s f
    by blast
qed


end
